(* ===== verification/Prelude.thy ===== *)
theory Prelude
  imports Main "HOL-Library.Word" "HOL-Library.Char_ord" "HOL-Library.List_Lexorder"
begin

text \<open>
  Shared vocabulary of the development: the machine integers of the program, Rust's
  \<open>Result\<close> combinators, the pieces of the Rust standard library the sources call
  (saturating and checked arithmetic, prefix and suffix stripping, hexadecimal
  formatting), and the generic lemmas about digits, strings and lists that the component
  theories rest on.
\<close>

section \<open>Machine integers\<close>

type_synonym u8 = "8 word"
type_synonym u16 = "16 word"
type_synonym u32 = "32 word"
type_synonym u64 = "64 word"
type_synonym bytes = "8 word list"

text \<open>\<open>u64::saturating_add\<close> and \<open>u64::saturating_sub\<close>.\<close>

definition saturating_add :: "u64 \<Rightarrow> u64 \<Rightarrow> u64" where
  "saturating_add a b = (if unat a + unat b < 2 ^ 64 then a + b else - 1)"

definition saturating_sub :: "u64 \<Rightarrow> u64 \<Rightarrow> u64" where
  "saturating_sub a b = (if b \<le> a then a - b else 0)"

lemma unat_u64_less [simp]: "unat (a :: u64) < 18446744073709551616"
  using unsigned_less [of a, where 'a = nat] by simp

lemma unat_saturating_add:
  "unat (saturating_add a b) = min (unat a + unat b) (2 ^ 64 - 1)"
proof (cases "unat a + unat b < 2 ^ 64")
  case True
  then show ?thesis
    by (simp add: saturating_add_def unat_word_ariths min_def)
next
  case False
  then show ?thesis
    by (simp add: saturating_add_def min_def unsigned_minus_1_eq_mask mask_eq_exp_minus_1)
qed

lemma unat_saturating_sub: "unat (saturating_sub a b) = unat a - unat b"
  by (simp add: saturating_sub_def unat_sub word_le_nat_alt)

section \<open>Results\<close>

text \<open>
  \<open>Result<T, E>\<close> is the sum \<open>'e + 'a\<close> with the error on the left; the combinators have
  the names they have in Rust, and \<open>x?\<close> is \<open>and_then x\<close>.
\<close>

type_synonym ('e, 'a) result = "'e + 'a"

definition and_then :: "('e, 'a) result \<Rightarrow> ('a \<Rightarrow> ('e, 'b) result) \<Rightarrow> ('e, 'b) result" where
  "and_then r f = (case r of Inl e \<Rightarrow> Inl e | Inr a \<Rightarrow> f a)"

definition map_err :: "('e \<Rightarrow> 'f) \<Rightarrow> ('e, 'a) result \<Rightarrow> ('f, 'a) result" where
  "map_err g r = (case r of Inl e \<Rightarrow> Inl (g e) | Inr a \<Rightarrow> Inr a)"

definition ok_or :: "'e \<Rightarrow> 'a option \<Rightarrow> ('e, 'a) result" where
  "ok_or e x = (case x of None \<Rightarrow> Inl e | Some a \<Rightarrow> Inr a)"

fun collect_results :: "('e, 'a) result list \<Rightarrow> ('e, 'a list) result" where
  "collect_results [] = Inr []"
| "collect_results (r # rs) =
     and_then r (\<lambda>a. and_then (collect_results rs) (\<lambda>as. Inr (a # as)))"

lemma and_then_simps [simp]:
  "and_then (Inl e) f = Inl e"
  "and_then (Inr a) f = f a"
  by (simp_all add: and_then_def)

lemma and_then_eq_Inr:
  "and_then r f = Inr b \<longleftrightarrow> (\<exists>a. r = Inr a \<and> f a = Inr b)"
  by (cases r) simp_all

lemma and_then_eq_Inl:
  "and_then r f = Inl e \<longleftrightarrow> r = Inl e \<or> (\<exists>a. r = Inr a \<and> f a = Inl e)"
  by (cases r) simp_all

lemma map_err_simps [simp]:
  "map_err g (Inl e) = Inl (g e)"
  "map_err g (Inr a) = Inr a"
  by (simp_all add: map_err_def)

lemma map_err_eq_Inr [simp]: "map_err g r = Inr a \<longleftrightarrow> r = Inr a"
  by (cases r) simp_all

lemma map_err_eq_Inl: "map_err g r = Inl f \<longleftrightarrow> (\<exists>e. r = Inl e \<and> f = g e)"
  by (cases r) auto

lemma ok_or_simps [simp]:
  "ok_or e None = Inl e"
  "ok_or e (Some a) = Inr a"
  by (simp_all add: ok_or_def)

lemma ok_or_eq_Inr [simp]: "ok_or e x = Inr a \<longleftrightarrow> x = Some a"
  by (cases x) simp_all

lemma ok_or_eq_Inl: "ok_or e x = Inl f \<longleftrightarrow> x = None \<and> f = e"
  by (cases x) auto

lemma collect_results_map_Inr:
  "(\<And>x. x \<in> set xs \<Longrightarrow> f x = Inr (g x)) \<Longrightarrow> collect_results (map f xs) = Inr (map g xs)"
  by (induction xs) simp_all

lemma collect_results_eq_Inr:
  "collect_results rs = Inr as \<longleftrightarrow> rs = map Inr as"
  by (induction rs arbitrary: as) (auto simp: and_then_eq_Inr)

lemma collect_results_Inl_mem:
  "collect_results rs = Inl e \<Longrightarrow> Inl e \<in> set rs"
  by (induction rs) (auto simp: and_then_eq_Inl)

named_theorems result_simps \<open>rules that take a chain of fallible steps apart\<close>

declare and_then_eq_Inr [result_simps] and_then_eq_Inl [result_simps]
  map_err_eq_Inl [result_simps] ok_or_eq_Inl [result_simps]
  collect_results_eq_Inr [result_simps]

section \<open>Slices\<close>

text \<open>\<open>slice::get\<close> at an index and at a range, and \<open>u64::from_be_bytes\<close> of eight bytes.\<close>

definition list_get :: "'a list \<Rightarrow> nat \<Rightarrow> 'a option" where
  "list_get xs i = (if i < length xs then Some (xs ! i) else None)"

definition slice_get :: "'a list \<Rightarrow> nat \<Rightarrow> nat \<Rightarrow> 'a list option" where
  "slice_get xs a b = (if a \<le> b \<and> b \<le> length xs then Some (take (b - a) (drop a xs)) else None)"

lemma list_get_append [simp]: "list_get (xs @ y # ys) (length xs) = Some y"
  by (simp add: list_get_def)

lemma slice_get_append [simp]:
  "slice_get (xs @ ys @ zs) (length xs) (length xs + length ys) = Some ys"
  by (simp add: slice_get_def)

lemma slice_get_length: "slice_get xs a b = Some ys \<Longrightarrow> length ys = b - a"
  by (auto simp: slice_get_def split: if_splits)

section \<open>Strings\<close>

text \<open>
  A Rust \<open>str\<close> is a \<open>string\<close> whose characters are its UTF-8 bytes, so \<open>length\<close> is
  \<open>str::len\<close> and the order of \<open>List_Lexorder\<close> over \<open>Char_ord\<close> is the byte-wise
  order of \<open>str\<close>.
\<close>

definition strip_prefix :: "string \<Rightarrow> string \<Rightarrow> string option" where
  "strip_prefix p s =
     (if take (length p) s = p then Some (drop (length p) s) else None)"

definition strip_suffix :: "string \<Rightarrow> string \<Rightarrow> string option" where
  "strip_suffix p s =
     (if length p \<le> length s \<and> drop (length s - length p) s = p
      then Some (take (length s - length p) s) else None)"

definition is_ascii_digit :: "char \<Rightarrow> bool" where
  "is_ascii_digit c \<longleftrightarrow> CHR ''0'' \<le> c \<and> c \<le> CHR ''9''"

text \<open>The byte test the sources repeat: an ASCII digit or a byte of \<open>b'a'..=b'f'\<close>.\<close>

definition lower_hex_byte :: "char \<Rightarrow> bool" where
  "lower_hex_byte c \<longleftrightarrow> is_ascii_digit c \<or> (CHR ''a'' \<le> c \<and> c \<le> CHR ''f'')"

lemma strip_prefix_eq_Some [simp]: "strip_prefix p s = Some r \<longleftrightarrow> s = p @ r"
proof
  assume "strip_prefix p s = Some r"
  then have "take (length p) s = p" and "drop (length p) s = r"
    by (auto simp: strip_prefix_def split: if_splits)
  then show "s = p @ r"
    using append_take_drop_id [of "length p" s] by simp
qed (simp add: strip_prefix_def)

lemma strip_prefix_eq_None: "strip_prefix p s = None \<longleftrightarrow> (\<nexists>r. s = p @ r)"
  by (metis not_None_eq strip_prefix_eq_Some)

lemma strip_suffix_eq_Some [simp]: "strip_suffix p s = Some r \<longleftrightarrow> s = r @ p"
proof
  assume "strip_suffix p s = Some r"
  then have "drop (length s - length p) s = p" and "take (length s - length p) s = r"
    by (auto simp: strip_suffix_def split: if_splits)
  then show "s = r @ p"
    using append_take_drop_id [of "length s - length p" s] by simp
qed (simp add: strip_suffix_def)

text \<open>\<open>Path::join\<close> for a relative name.\<close>

definition path_join :: "string \<Rightarrow> string \<Rightarrow> string" where
  "path_join dir name =
     (if dir = [] then name else if last dir = CHR ''/'' then dir @ name else dir @ CHR ''/'' # name)"

lemma path_join_inject [simp]: "path_join dir a = path_join dir b \<longleftrightarrow> a = b"
  by (simp add: path_join_def)

lemma strip_append [simp]: "strip_prefix p (p @ r) = Some r" "strip_suffix p (r @ p) = Some r"
  by simp_all

section \<open>Hexadecimal digits\<close>

definition hex_char :: "nat \<Rightarrow> char" where
  "hex_char d = char_of (if d < 10 then 48 + d else 87 + d)"

definition hex_digit_val :: "char \<Rightarrow> nat" where
  "hex_digit_val c = (if is_ascii_digit c then of_char c - 48 else of_char c - 87)"

text \<open>\<open>LowerHex\<close> formatting of an unsigned integer, and its zero-padded form \<open>{:064x}\<close>.\<close>

fun lower_hex :: "nat \<Rightarrow> string" where
  "lower_hex n = (if n < 16 then [hex_char n] else lower_hex (n div 16) @ [hex_char (n mod 16)])"

declare lower_hex.simps [simp del]

definition format_064x :: "nat \<Rightarrow> string" where
  "format_064x n = replicate (64 - length (lower_hex n)) CHR ''0'' @ lower_hex n"

text \<open>The number a digit string denotes, most significant digit first.\<close>

primrec hex_val :: "string \<Rightarrow> nat" where
  "hex_val [] = 0"
| "hex_val (c # cs) = hex_digit_val c * 16 ^ length cs + hex_val cs"

text \<open>Two lowercase digits per byte, in order.\<close>

definition hex_of_bytes :: "bytes \<Rightarrow> string" where
  "hex_of_bytes bs = concat (map (\<lambda>b. [hex_char (unat b div 16), hex_char (unat b mod 16)]) bs)"

text \<open>Big-endian bytes of a number and the number they denote.\<close>

primrec be_bytes :: "nat \<Rightarrow> nat \<Rightarrow> bytes" where
  "be_bytes 0 n = []"
| "be_bytes (Suc k) n = be_bytes k (n div 256) @ [of_nat (n mod 256)]"

primrec be_val :: "bytes \<Rightarrow> nat" where
  "be_val [] = 0"
| "be_val (b # bs) = unat b * 256 ^ length bs + be_val bs"

lemma lower_hex_byte_iff:
  "lower_hex_byte c \<longleftrightarrow>
     (48 \<le> (of_char c :: nat) \<and> (of_char c :: nat) \<le> 57) \<or>
     (97 \<le> (of_char c :: nat) \<and> (of_char c :: nat) \<le> 102)"
  by (simp add: lower_hex_byte_def is_ascii_digit_def less_eq_char_def)

lemma is_ascii_digit_iff:
  "is_ascii_digit c \<longleftrightarrow> 48 \<le> (of_char c :: nat) \<and> (of_char c :: nat) \<le> 57"
  by (simp add: is_ascii_digit_def less_eq_char_def)

lemma lower_hex_byte_hex_char [simp]: "n < 16 \<Longrightarrow> lower_hex_byte (hex_char n)"
  by (simp add: hex_char_def lower_hex_byte_iff)

lemma hex_digit_val_hex_char [simp]: "n < 16 \<Longrightarrow> hex_digit_val (hex_char n) = n"
  by (simp add: hex_char_def hex_digit_val_def is_ascii_digit_iff)

lemma hex_digit_val_less: "lower_hex_byte c \<Longrightarrow> hex_digit_val c < 16"
  by (auto simp: lower_hex_byte_iff hex_digit_val_def is_ascii_digit_iff)

lemma hex_digit_val_less_iff:
  "lower_hex_byte c \<Longrightarrow> lower_hex_byte d \<Longrightarrow> hex_digit_val c < hex_digit_val d \<longleftrightarrow> c < d"
  by (auto simp: lower_hex_byte_iff hex_digit_val_def is_ascii_digit_iff less_char_def)

lemma hex_digit_val_inject:
  "lower_hex_byte c \<Longrightarrow> lower_hex_byte d \<Longrightarrow> hex_digit_val c = hex_digit_val d \<longleftrightarrow> c = d"
  by (metis hex_digit_val_less_iff less_irrefl neq_iff)

lemma hex_val_append: "hex_val (xs @ ys) = hex_val xs * 16 ^ length ys + hex_val ys"
  by (induction xs) (simp_all add: power_add algebra_simps)

lemma hex_val_less: "list_all lower_hex_byte s \<Longrightarrow> hex_val s < 16 ^ length s"
proof (induction s)
  case (Cons c s)
  then have "hex_val s < 16 ^ length s" and "hex_digit_val c \<le> 15"
    using hex_digit_val_less [of c] by auto
  moreover from this(2) have "hex_digit_val c * 16 ^ length s \<le> 15 * 16 ^ length s"
    by (rule mult_le_mono1)
  ultimately show ?case
    unfolding hex_val.simps length_Cons power_Suc by linarith
qed simp

text \<open>
  On digit strings of one length, the byte-wise order is the order of the numbers.
\<close>

lemma digits_less:
  fixes a b :: nat
  assumes "x < B" and "y < B"
  shows "a * B + x < b * B + y \<longleftrightarrow> a < b \<or> a = b \<and> x < y"
proof (cases a b rule: linorder_cases)
  case less
  then have "Suc a * B \<le> b * B" by (intro mult_le_mono1) simp
  with less assms show ?thesis by simp
next
  case greater
  then have "Suc b * B \<le> a * B" by (intro mult_le_mono1) simp
  with greater assms show ?thesis by simp
qed simp

lemma hex_val_less_iff:
  assumes "length s = length t" and "list_all lower_hex_byte s" and "list_all lower_hex_byte t"
  shows "hex_val s < hex_val t \<longleftrightarrow> s < t"
  using assms
proof (induction s t rule: list_induct2)
  case (Cons c s d t)
  then have "hex_val s < 16 ^ length t" and "hex_val t < 16 ^ length t"
    using hex_val_less [of s] hex_val_less [of t] by auto
  then show ?case
    using Cons digits_less [of "hex_val s" "16 ^ length t" "hex_val t" "hex_digit_val c" "hex_digit_val d"]
    by (simp add: hex_digit_val_less_iff hex_digit_val_inject)
qed simp

lemma hex_val_inject:
  "length s = length t \<Longrightarrow> list_all lower_hex_byte s \<Longrightarrow> list_all lower_hex_byte t \<Longrightarrow>
   hex_val s = hex_val t \<longleftrightarrow> s = t"
  by (metis hex_val_less_iff less_irrefl neq_iff)

lemma hex_val_le_iff:
  "length s = length t \<Longrightarrow> list_all lower_hex_byte s \<Longrightarrow> list_all lower_hex_byte t \<Longrightarrow>
   hex_val s \<le> hex_val t \<longleftrightarrow> s \<le> t"
  using hex_val_less_iff [of t s] by (simp add: not_less [symmetric])

lemma hex_val_lower_hex [simp]: "hex_val (lower_hex n) = n"
proof (induction n rule: lower_hex.induct)
  case (1 n)
  then show ?case
    by (cases "n < 16") (simp_all add: lower_hex.simps [of n] hex_val_append)
qed

lemma lower_hex_bytes [simp]: "list_all lower_hex_byte (lower_hex n)"
proof (induction n rule: lower_hex.induct)
  case (1 n)
  then show ?case
    by (cases "n < 16") (simp_all add: lower_hex.simps [of n])
qed

lemma hex_val_replicate_0 [simp]: "hex_val (replicate k CHR ''0'' @ s) = hex_val s"
  by (induction k) (simp_all add: hex_digit_val_def is_ascii_digit_def of_char_def)

lemma length_lower_hex: "n < 16 ^ Suc k \<Longrightarrow> length (lower_hex n) \<le> Suc k"
proof (induction k arbitrary: n)
  case 0
  then show ?case by (subst lower_hex.simps) simp
next
  case (Suc k)
  show ?case
  proof (cases "n < 16")
    case True
    then show ?thesis by (subst lower_hex.simps) simp
  next
    case False
    from Suc.prems have "n div 16 < 16 ^ Suc k"
      by (simp add: less_mult_imp_div_less mult.commute)
    then have "length (lower_hex (n div 16)) \<le> Suc k"
      by (rule Suc.IH)
    with False show ?thesis by (subst lower_hex.simps) simp
  qed
qed

lemma lower_hex_byte_0 [simp]: "lower_hex_byte CHR ''0''"
  by (simp add: lower_hex_byte_def is_ascii_digit_def)

lemma list_all_replicate: "P x \<Longrightarrow> list_all P (replicate k x)"
  by (induction k) simp_all

lemma format_064x_bytes [simp]: "list_all lower_hex_byte (format_064x n)"
  by (simp add: format_064x_def list_all_replicate)

lemma hex_val_format_064x [simp]: "hex_val (format_064x n) = n"
  by (simp add: format_064x_def)

lemma length_format_064x: "n < 16 ^ 64 \<Longrightarrow> length (format_064x n) = 64"
  using length_lower_hex [of n 63] by (simp add: format_064x_def)

section \<open>Big-endian bytes\<close>

lemma length_be_bytes [simp]: "length (be_bytes k n) = k"
  by (induction k arbitrary: n) simp_all

lemma length_hex_of_bytes [simp]: "length (hex_of_bytes bs) = 2 * length bs"
  by (induction bs) (simp_all add: hex_of_bytes_def)

lemma hex_of_bytes_simps [simp]:
  "hex_of_bytes [] = []"
  "hex_of_bytes (b # bs) = hex_char (unat b div 16) # hex_char (unat b mod 16) # hex_of_bytes bs"
  by (simp_all add: hex_of_bytes_def)

lemma unat_u8_less [simp]: "unat (b :: u8) < 256"
  using unsigned_less [of b, where 'a = nat] by simp

lemma hex_of_bytes_bytes [simp]: "list_all lower_hex_byte (hex_of_bytes bs)"
  by (induction bs) (simp_all add: less_mult_imp_div_less)

lemma hex_val_hex_of_bytes [simp]: "hex_val (hex_of_bytes bs) = be_val bs"
proof (induction bs)
  case (Cons b bs)
  have "unat b div 16 < 16"
    by (simp add: less_mult_imp_div_less)
  moreover have "(16 :: nat) ^ (2 * length bs) = 256 ^ length bs"
    by (simp add: power_mult)
  moreover have "(unat b div 16) * (16 * n) + (unat b mod 16) * n = unat b * n" for n
    by (metis add_mult_distrib div_mult_mod_eq mult.assoc)
  ultimately show ?case
    using Cons by (simp flip: add.assoc)
qed simp

lemma be_val_append: "be_val (xs @ ys) = be_val xs * 256 ^ length ys + be_val ys"
  by (induction xs) (simp_all add: power_add algebra_simps)

lemma be_val_be_bytes: "n < 256 ^ k \<Longrightarrow> be_val (be_bytes k n) = n"
proof (induction k arbitrary: n)
  case (Suc k)
  then have "be_val (be_bytes k (n div 256)) = n div 256"
    by (simp add: less_mult_imp_div_less mult.commute)
  then show ?case
    by (simp add: be_val_append unat_of_nat)
qed simp

lemma be_val_less: "be_val bs < 256 ^ length bs"
proof (induction bs)
  case (Cons b bs)
  have "unat b * 256 ^ length bs \<le> 255 * 256 ^ length bs"
    using unat_u8_less [of b] by (intro mult_le_mono1) linarith
  with Cons show ?case
    unfolding be_val.simps length_Cons power_Suc by linarith
qed simp

definition u64_from_be_bytes :: "bytes \<Rightarrow> u64 option" where
  "u64_from_be_bytes bs = (if length bs = 8 then Some (of_nat (be_val bs)) else None)"

text \<open>A number below two to the 64 has zeros in front of its last eight bytes.\<close>

lemma be_bytes_append: "be_bytes (j + k) n = be_bytes j (n div 256 ^ k) @ be_bytes k n"
  by (induction k arbitrary: n) (simp_all add: div_mult2_eq)

lemma be_bytes_0: "be_bytes k 0 = replicate k 0"
  by (induction k) (simp_all flip: replicate_append_same)

lemma be_bytes_32_split:
  "take 24 (be_bytes 32 n) = be_bytes 24 (n div 2 ^ 64)" "drop 24 (be_bytes 32 n) = be_bytes 8 n"
  using be_bytes_append [of 24 8 n] by simp_all

lemma be_bytes_zero_iff: "n < 256 ^ k \<Longrightarrow> list_ex (\<lambda>b. b \<noteq> 0) (be_bytes k n) \<longleftrightarrow> n \<noteq> 0"
proof
  assume "list_ex (\<lambda>b. b \<noteq> 0) (be_bytes k n)"
  then show "n \<noteq> 0" by (cases "n = 0") (auto simp: be_bytes_0 list_ex_iff)
next
  assume n: "n < 256 ^ k" "n \<noteq> 0"
  show "list_ex (\<lambda>b. b \<noteq> 0) (be_bytes k n)"
  proof (rule ccontr)
    assume "\<not> list_ex (\<lambda>b. b \<noteq> 0) (be_bytes k n)"
    then have "\<forall>b \<in> set (be_bytes k n). b = 0" by (auto simp: list_ex_iff)
    then have "be_bytes k n = replicate k 0"
      by (metis length_be_bytes replicate_length_same)
    then have "be_val (be_bytes k n) = be_val (be_bytes k 0)"
      by (simp add: be_bytes_0)
    with n show False by (simp add: be_val_be_bytes)
  qed
qed

lemma be_val_mod: "be_val (be_bytes k n) = n mod 256 ^ k"
proof (induction k arbitrary: n)
  case (Suc k)
  have "n mod 256 ^ Suc k = (n div 256) mod 256 ^ k * 256 + n mod 256"
    using mod_mult2_eq [of n 256 "256 ^ k"] by (simp add: mult.commute)
  with Suc show ?case by (simp add: be_val_append unat_of_nat)
qed simp

end
