(* ===== verification/Constants.thy ===== *)
theory Constants
  imports Prelude
begin

text \<open>
  The identifiers and bounds of \<open>crates/soul-core/src/constants.rs\<close>, under their source
  names; \<open>constants\<close> collects their definitions for evaluation.
\<close>

named_theorems constants \<open>definitions of the protocol constants\<close>

definition SOUL_WIRE_PROTOCOL :: string where
  [constants]: "SOUL_WIRE_PROTOCOL = ''soul-society/1''"

definition CAIRO_PROGRAM :: string where
  [constants]: "CAIRO_PROGRAM = ''soul-cairo-v1''"

definition PROOF_FORMAT :: string where
  [constants]: "PROOF_FORMAT = ''stwo-cairo-json-v1''"

definition PROOF_MEDIA_TYPE :: string where
  [constants]: "PROOF_MEDIA_TYPE = ''application/vnd.soul-society.stwo-proof+json''"

definition PROOF_CHANNEL :: string where
  [constants]: "PROOF_CHANNEL = ''blake2s''"

definition FIBONACCI_REQUEST :: u16 where
  [constants]: "FIBONACCI_REQUEST = 5601"

definition HASH_VERIFY_REQUEST :: u16 where
  [constants]: "HASH_VERIFY_REQUEST = 5602"

definition MERKLE_PROOF_REQUEST :: u16 where
  [constants]: "MERKLE_PROOF_REQUEST = 5603"

definition FIBONACCI_RESULT :: u16 where
  [constants]: "FIBONACCI_RESULT = 6601"

definition HASH_VERIFY_RESULT :: u16 where
  [constants]: "HASH_VERIFY_RESULT = 6602"

definition MERKLE_PROOF_RESULT :: u16 where
  [constants]: "MERKLE_PROOF_RESULT = 6603"

definition REQUESTS :: "u16 list" where
  [constants]: "REQUESTS = [FIBONACCI_REQUEST, HASH_VERIFY_REQUEST, MERKLE_PROOF_REQUEST]"

definition RESULTS :: "u16 list" where
  [constants]: "RESULTS = [FIBONACCI_RESULT, HASH_VERIFY_RESULT, MERKLE_PROOF_RESULT]"

definition MAX_FIBONACCI_N :: u64 where
  [constants]: "MAX_FIBONACCI_N = 363"

text \<open>Bounds on lengths (\<open>usize\<close>) are natural numbers, as \<open>length\<close> is.\<close>

definition MAX_MERKLE_DEPTH :: nat where
  [constants]: "MAX_MERKLE_DEPTH = 32"

definition MAX_REQUEST_BYTES :: nat where
  [constants]: "MAX_REQUEST_BYTES = 16 * 1024"

definition MAX_RESULT_BYTES :: nat where
  [constants]: "MAX_RESULT_BYTES = 32 * 1024"

definition MAX_PROOF_BYTES :: u64 where
  [constants]: "MAX_PROOF_BYTES = 32 * 1024 * 1024"

definition MAX_REQUEST_AGE_SECS :: u64 where
  [constants]: "MAX_REQUEST_AGE_SECS = 10 * 60"

definition MAX_FUTURE_SKEW_SECS :: u64 where
  [constants]: "MAX_FUTURE_SKEW_SECS = 5 * 60"

definition MAX_REQUEST_TTL_SECS :: u64 where
  [constants]: "MAX_REQUEST_TTL_SECS = 60 * 60"

definition MAX_SAFE_INTEGER :: u64 where
  [constants]: "MAX_SAFE_INTEGER = 9007199254740991"

definition MAX_DEDUPE_ENTRIES :: nat where
  [constants]: "MAX_DEDUPE_ENTRIES = 10000"

definition CAIRO_PRIME_HEX :: string where
  [constants]: "CAIRO_PRIME_HEX = ''0800000000000011000000000000000000000000000000000000000000000001''"

text \<open>The Cairo prime itself, which the hexadecimal constant denotes.\<close>

definition cairo_prime :: nat where
  "cairo_prime = 2 ^ 251 + 17 * 2 ^ 192 + 1"

lemma length_CAIRO_PRIME_HEX [simp]: "length CAIRO_PRIME_HEX = 64"
  by (simp add: CAIRO_PRIME_HEX_def)

lemma CAIRO_PRIME_HEX_bytes [simp]: "list_all lower_hex_byte CAIRO_PRIME_HEX"
  by (simp add: CAIRO_PRIME_HEX_def lower_hex_byte_def is_ascii_digit_def)

lemma hex_val_CAIRO_PRIME_HEX: "hex_val CAIRO_PRIME_HEX = cairo_prime"
  by (simp add: CAIRO_PRIME_HEX_def cairo_prime_def hex_digit_val_def is_ascii_digit_def of_char_def)

lemma cairo_prime_bounds: "2 ^ 251 < cairo_prime" "cairo_prime < 2 ^ 252"
  by (simp_all add: cairo_prime_def)

lemma cairo_prime_gt_1 [simp]: "1 < cairo_prime" "0 < cairo_prime"
  by (simp_all add: cairo_prime_def)

lemma cairo_prime_neq_1 [simp]: "cairo_prime \<noteq> Suc 0"
  using cairo_prime_gt_1 by linarith

lemma u64_less_cairo_prime [simp]: "unat (v :: u64) < cairo_prime"
  by (rule less_trans [OF unat_u64_less]) (simp add: cairo_prime_def)

end
