(* ===== verification/Felt.thy ===== *)
theory Felt
  imports Constants
begin

text \<open>
  The canonical field element \<open>FeltHex\<close> of \<open>crates/soul-core/src/types.rs\<close>: its parser,
  its constructor from \<open>u64\<close>, the order derived on it, and the well-formedness
  invariant \<open>felt_ok\<close> that the private field and the two constructors maintain. The
  numeric reading \<open>felt_val\<close> is the abstraction the later components reason with.
\<close>

section \<open>Definitions\<close>

text \<open>The failures of \<open>types.rs\<close>, shared by every validator.\<close>

datatype ValidationError =
    InvalidFelt
  | UnsupportedProtocol
  | ServiceMismatch
  | FibonacciOutOfRange
  | MerkleDepthOutOfRange
  | MerkleIndexOutOfRange
  | Expired
  | InvalidExpiry
  | InvalidStatement
  | InvalidProofDescriptor
  | InvalidResult

primrec ValidationError_to_string :: "ValidationError \<Rightarrow> string" where
  "ValidationError_to_string InvalidFelt =
     ''field element must be canonical lowercase 0x-prefixed 64-nibble Cairo felt''"
| "ValidationError_to_string UnsupportedProtocol = ''unsupported Soul Wire protocol''"
| "ValidationError_to_string ServiceMismatch = ''service does not match the typed input''"
| "ValidationError_to_string FibonacciOutOfRange =
     ''Fibonacci index is outside the supported Cairo field range''"
| "ValidationError_to_string MerkleDepthOutOfRange = ''Merkle proof exceeds the maximum depth''"
| "ValidationError_to_string MerkleIndexOutOfRange =
     ''Merkle index does not fit the authentication path''"
| "ValidationError_to_string Expired = ''request has expired''"
| "ValidationError_to_string InvalidExpiry = ''request expiry is invalid''"
| "ValidationError_to_string InvalidStatement = ''proof statement is invalid''"
| "ValidationError_to_string InvalidProofDescriptor = ''proof descriptor is invalid''"
| "ValidationError_to_string InvalidResult = ''result is invalid''"

datatype FeltHex = FeltHex (as_str: string)

definition FeltHex_parse :: "string \<Rightarrow> (ValidationError, FeltHex) result" where
  "FeltHex_parse value =
     and_then (ok_or InvalidFelt (strip_prefix ''0x'' value))
       (\<lambda>digits.
          if length digits \<noteq> 64
             \<or> \<not> list_all lower_hex_byte digits
             \<or> digits \<ge> CAIRO_PRIME_HEX
          then Inl InvalidFelt
          else Inr (FeltHex value))"

definition FeltHex_from_u64 :: "u64 \<Rightarrow> FeltHex" where
  "FeltHex_from_u64 value = FeltHex (''0x'' @ format_064x (unat value))"

text \<open>
  The trait implementations: the printed form, the parser of command lines and the
  deserialiser, of which the string deserialiser and the constructor of its errors are
  arguments.
\<close>

definition FeltHex_to_string :: "FeltHex \<Rightarrow> string" where
  "FeltHex_to_string f = as_str f"

definition FeltHex_from_str :: "string \<Rightarrow> (ValidationError, FeltHex) result" where
  "FeltHex_from_str value = FeltHex_parse value"

definition FeltHex_deserialize ::
  "(string \<Rightarrow> 'e) \<Rightarrow> ('d \<Rightarrow> ('e, string) result) \<Rightarrow> 'd \<Rightarrow> ('e, FeltHex) result" where
  "FeltHex_deserialize custom string_deserialize deserializer =
     and_then (string_deserialize deserializer) (\<lambda>value.
     map_err (\<lambda>e. custom (ValidationError_to_string e)) (FeltHex_parse value))"

text \<open>The order derived for \<open>FeltHex\<close> is the order of its string.\<close>

definition FeltHex_le :: "FeltHex \<Rightarrow> FeltHex \<Rightarrow> bool" where
  "FeltHex_le a b \<longleftrightarrow> as_str a \<le> as_str b"

definition FeltHex_lt :: "FeltHex \<Rightarrow> FeltHex \<Rightarrow> bool" where
  "FeltHex_lt a b \<longleftrightarrow> as_str a < as_str b"

instantiation FeltHex :: linorder
begin

definition less_eq_FeltHex :: "FeltHex \<Rightarrow> FeltHex \<Rightarrow> bool" where
  "less_eq_FeltHex = FeltHex_le"

definition less_FeltHex :: "FeltHex \<Rightarrow> FeltHex \<Rightarrow> bool" where
  "less_FeltHex = FeltHex_lt"

instance
  by standard
    (auto simp: less_eq_FeltHex_def less_FeltHex_def FeltHex_le_def FeltHex_lt_def intro: FeltHex.expand)

end

section \<open>The invariant and the numeric reading\<close>

definition felt_ok :: "FeltHex \<Rightarrow> bool" where
  "felt_ok f \<longleftrightarrow> FeltHex_parse (as_str f) = Inr f"

definition felt_val :: "FeltHex \<Rightarrow> nat" where
  "felt_val f = hex_val (drop 2 (as_str f))"

text \<open>The field element a number below the prime is written as.\<close>

definition felt_of_nat :: "nat \<Rightarrow> FeltHex" where
  "felt_of_nat n = FeltHex (''0x'' @ format_064x n)"

lemma ge_prime_iff:
  "length ds = 64 \<Longrightarrow> list_all lower_hex_byte ds \<Longrightarrow> ds \<ge> CAIRO_PRIME_HEX \<longleftrightarrow> cairo_prime \<le> hex_val ds"
  using hex_val_le_iff [of CAIRO_PRIME_HEX ds] by (simp add: hex_val_CAIRO_PRIME_HEX)

lemma FeltHex_parse_eq_Inr:
  "FeltHex_parse s = Inr f \<longleftrightarrow>
     f = FeltHex s \<and>
     (\<exists>ds. s = ''0x'' @ ds \<and> length ds = 64 \<and> list_all lower_hex_byte ds \<and> hex_val ds < cairo_prime)"
  by (auto simp: FeltHex_parse_def and_then_eq_Inr ge_prime_iff not_le split: if_splits)

lemma FeltHex_parse_eq_Inl:
  "FeltHex_parse s = Inl e \<longleftrightarrow> e = InvalidFelt \<and> (\<forall>f. FeltHex_parse s \<noteq> Inr f)"
  by (auto simp: FeltHex_parse_def and_then_def ok_or_def split: option.splits)

lemma felt_ok_iff:
  "felt_ok f \<longleftrightarrow>
     (\<exists>ds. as_str f = ''0x'' @ ds \<and> length ds = 64 \<and> list_all lower_hex_byte ds \<and> hex_val ds < cairo_prime)"
  by (cases f) (simp add: felt_ok_def FeltHex_parse_eq_Inr)

lemma felt_ok_parse: "FeltHex_parse s = Inr f \<Longrightarrow> felt_ok f"
  by (auto simp: FeltHex_parse_eq_Inr felt_ok_iff)

lemma felt_val_less: "felt_ok f \<Longrightarrow> felt_val f < cairo_prime"
  by (auto simp: felt_ok_iff felt_val_def)

lemma length_as_str: "felt_ok f \<Longrightarrow> length (as_str f) = 66"
  by (auto simp: felt_ok_iff)

lemma cairo_prime_less_16_64: "cairo_prime < 16 ^ 64"
  by (simp add: cairo_prime_def)

lemma felt_ok_felt_of_nat [simp]: "n < cairo_prime \<Longrightarrow> felt_ok (felt_of_nat n)"
  using cairo_prime_less_16_64
  by (auto simp: felt_ok_iff felt_of_nat_def length_format_064x)

lemma felt_val_felt_of_nat [simp]: "felt_val (felt_of_nat n) = n"
  by (simp add: felt_val_def felt_of_nat_def)

lemma FeltHex_from_u64_eq: "FeltHex_from_u64 v = felt_of_nat (unat v)"
  by (simp add: FeltHex_from_u64_def felt_of_nat_def)

lemma felt_ok_from_u64 [simp]: "felt_ok (FeltHex_from_u64 v)"
  by (simp add: FeltHex_from_u64_eq)

lemma felt_val_from_u64 [simp]: "felt_val (FeltHex_from_u64 v) = unat v"
  by (simp add: FeltHex_from_u64_eq)

lemma felt_val_inject:
  assumes "felt_ok f" and "felt_ok g"
  shows "felt_val f = felt_val g \<longleftrightarrow> f = g"
proof -
  from assms obtain ds es where "as_str f = ''0x'' @ ds" "as_str g = ''0x'' @ es"
    and "length ds = length es" "list_all lower_hex_byte ds" "list_all lower_hex_byte es"
    by (auto simp: felt_ok_iff)
  then show ?thesis
    by (auto simp: felt_val_def hex_val_inject intro: FeltHex.expand)
qed

lemma felt_of_nat_felt_val [simp]: "felt_ok f \<Longrightarrow> felt_of_nat (felt_val f) = f"
  using felt_val_inject [of "felt_of_nat (felt_val f)" f] by (simp add: felt_val_less)

lemma FeltHex_parse_as_str: "felt_ok f \<Longrightarrow> FeltHex_parse (as_str f) = Inr f"
  by (simp add: felt_ok_def)

text \<open>A printed element is read back, and only canonical elements are ever deserialised.\<close>

lemma FeltHex_from_str_to_string: "felt_ok f \<Longrightarrow> FeltHex_from_str (FeltHex_to_string f) = Inr f"
  by (simp add: FeltHex_from_str_def FeltHex_to_string_def FeltHex_parse_as_str)

lemma FeltHex_deserialize_eq_Inr:
  "FeltHex_deserialize custom de d = Inr f \<longleftrightarrow> de d = Inr (FeltHex_to_string f) \<and> felt_ok f"
  by (auto simp: FeltHex_deserialize_def FeltHex_to_string_def and_then_eq_Inr FeltHex_parse_as_str felt_ok_parse
      FeltHex_parse_eq_Inr) (auto simp: felt_ok_def FeltHex_parse_eq_Inr)

lemma FeltHex_from_u64_inject [simp]: "FeltHex_from_u64 a = FeltHex_from_u64 b \<longleftrightarrow> a = b"
  by (metis felt_val_from_u64 word_unat_eq_iff)

section \<open>Properties\<close>

text \<open>The parser accepts exactly the strings \<open>0x\<close> followed by 64 lowercase hexadecimal
  digits whose numeric value is below the Cairo prime (the source compares the digit
  strings byte-wise), returns the string unchanged, and otherwise fails with
  \<open>InvalidFelt\<close>.\<close>

theorem felt_parse_correct:
  "FeltHex_parse s =
     (if \<exists>ds. s = ''0x'' @ ds \<and> length ds = 64 \<and> list_all lower_hex_byte ds \<and> hex_val ds < cairo_prime
      then Inr (FeltHex s) else Inl InvalidFelt)"
  by (cases "FeltHex_parse s") (auto simp: FeltHex_parse_eq_Inr FeltHex_parse_eq_Inl)

text \<open>A field element has one wire form: two parsed field elements with the same
  numeric value are the same string, and on parsed elements the derived order is the
  order of the values.\<close>

theorem felt_one_wire_form:
  assumes "FeltHex_parse s = Inr f" and "FeltHex_parse t = Inr g"
  shows "(felt_val f = felt_val g \<longleftrightarrow> s = t) \<and> (f < g \<longleftrightarrow> felt_val f < felt_val g)"
  using assms
  by (auto simp: FeltHex_parse_eq_Inr felt_val_def hex_val_inject less_FeltHex_def FeltHex_lt_def hex_val_less_iff)

theorem felt_one_wire_form_witness:
  "FeltHex_parse (as_str (FeltHex_from_u64 9)) = Inr (FeltHex_from_u64 9) \<and>
   FeltHex_parse (as_str (FeltHex_from_u64 10)) = Inr (FeltHex_from_u64 10) \<and>
   FeltHex_from_u64 9 < FeltHex_from_u64 10"
  using felt_one_wire_form [OF FeltHex_parse_as_str [OF felt_ok_from_u64 [of 9]]
      FeltHex_parse_as_str [OF felt_ok_from_u64 [of 10]]]
  by (simp add: FeltHex_parse_as_str)

text \<open>Every \<open>u64\<close> becomes a canonical field element of that value: parsing what
  \<open>from_u64\<close> prints gives the element back, and no two integers share a form.\<close>

theorem felt_from_u64_roundtrip:
  "FeltHex_parse (as_str (FeltHex_from_u64 v)) = Inr (FeltHex_from_u64 v) \<and>
   felt_val (FeltHex_from_u64 v) = unat v \<and>
   (FeltHex_from_u64 v = FeltHex_from_u64 w \<longleftrightarrow> v = w)"
  by (simp add: FeltHex_parse_as_str)

end
