(* ===== verification/Utf8.thy ===== *)
theory Utf8
  imports Prelude
begin

text \<open>
  Unicode text as Rust sees it: a \<open>str\<close> is its UTF-8 bytes, \<open>chars()\<close> decodes them to
  scalar values, and collecting scalar values into a \<open>String\<close> encodes them. The sources
  count and filter scalar values in public error messages, in the provider's name and in
  its secret file.
\<close>

section \<open>Encoding and decoding\<close>

type_synonym scalar = nat

definition utf8_encode_char :: "scalar \<Rightarrow> string" where
  "utf8_encode_char c =
     (if c < 128 then [char_of c]
      else if c < 2048 then [char_of (192 + c div 64), char_of (128 + c mod 64)]
      else if c < 65536 then
        [char_of (224 + c div 4096), char_of (128 + c div 64 mod 64), char_of (128 + c mod 64)]
      else
        [char_of (240 + c div 262144), char_of (128 + c div 4096 mod 64),
         char_of (128 + c div 64 mod 64), char_of (128 + c mod 64)])"

definition utf8_encode :: "scalar list \<Rightarrow> string" where
  "utf8_encode cs = concat (map utf8_encode_char cs)"

definition cont_bits :: "char \<Rightarrow> nat" where
  "cont_bits c = of_char c mod 64"

text \<open>\<open>str::chars\<close>: the lead byte gives the length, each continuation byte six bits.\<close>

fun utf8_chars :: "string \<Rightarrow> scalar list" where
  "utf8_chars [] = []"
| "utf8_chars (a # s) =
     (if (of_char a :: nat) < 128 then of_char a # utf8_chars s
      else if (of_char a :: nat) < 224 then
        (case s of
           b # r \<Rightarrow> (of_char a mod 32 * 64 + cont_bits b) # utf8_chars r
         | _ \<Rightarrow> [])
      else if (of_char a :: nat) < 240 then
        (case s of
           b # c # r \<Rightarrow> (of_char a mod 16 * 4096 + cont_bits b * 64 + cont_bits c) # utf8_chars r
         | _ \<Rightarrow> [])
      else
        (case s of
           b # c # d # r \<Rightarrow>
             (of_char a mod 8 * 262144 + cont_bits b * 4096 + cont_bits c * 64 + cont_bits d)
               # utf8_chars r
         | _ \<Rightarrow> []))"

text \<open>Unicode scalar values, and the strings a Rust \<open>String\<close> can hold.\<close>

definition is_scalar :: "scalar \<Rightarrow> bool" where
  "is_scalar c \<longleftrightarrow> c < 55296 \<or> 57344 \<le> c \<and> c < 1114112"

definition valid_utf8 :: "string \<Rightarrow> bool" where
  "valid_utf8 s \<longleftrightarrow> list_all is_scalar (utf8_chars s) \<and> utf8_encode (utf8_chars s) = s"

text \<open>\<open>char::is_control\<close> (general category Cc) and \<open>char::is_whitespace\<close> (White_Space).\<close>

definition is_control :: "scalar \<Rightarrow> bool" where
  "is_control c \<longleftrightarrow> c < 32 \<or> 127 \<le> c \<and> c < 160"

definition is_whitespace :: "scalar \<Rightarrow> bool" where
  "is_whitespace c \<longleftrightarrow>
     9 \<le> c \<and> c \<le> 13 \<or> 8192 \<le> c \<and> c \<le> 8202 \<or>
     c \<in> {32, 133, 160, 5760, 8232, 8233, 8239, 8287, 12288}"

section \<open>Round trip\<close>

lemma utf8_encode_simps [simp]:
  "utf8_encode [] = []"
  "utf8_encode (c # cs) = utf8_encode_char c @ utf8_encode cs"
  by (simp_all add: utf8_encode_def)

lemma low_part: "r < m \<Longrightarrow> (q * m + r) mod m = (r :: nat)"
  by simp

lemma cont_bits_char_of [simp]: "cont_bits (char_of (128 + m mod 64 :: nat)) = m mod 64"
proof -
  have less: "m mod 64 < 64" by simp
  then have "(of_char (char_of (128 + m mod 64)) :: nat) = 128 + m mod 64" by simp
  moreover from less have "(128 + m mod 64) mod 64 = m mod 64"
    using low_part [of "m mod 64" 64 2] by simp
  ultimately show ?thesis
    unfolding cont_bits_def by (simp only:)
qed

lemma lead_bits:
  "k < 32 \<Longrightarrow> (of_char (char_of (192 + k :: nat)) :: nat) = 192 + k"
  "k < 32 \<Longrightarrow> (192 + k) mod 32 = (k :: nat)"
  "k < 16 \<Longrightarrow> (224 + k) mod 16 = (k :: nat)"
  "k < 8 \<Longrightarrow> (240 + k) mod 8 = (k :: nat)"
  using low_part [of k 32 6] low_part [of k 16 14] low_part [of k 8 30] by simp_all

lemma digits2: "(c div 64) * 64 + c mod 64 = (c :: nat)"
  by simp

lemma digits3: "c div 4096 * 4096 + c div 64 mod 64 * 64 + c mod 64 = (c :: nat)"
proof -
  have "c div 4096 = c div 64 div 64"
    by (simp add: div_mult2_eq [symmetric])
  then have "(c div 4096) * 64 + c div 64 mod 64 = c div 64" by simp
  then have "((c div 4096) * 64 + c div 64 mod 64) * 64 + c mod 64 = c" by simp
  then show ?thesis by (simp add: algebra_simps)
qed

lemma digits4:
  "c div 262144 * 262144 + c div 4096 mod 64 * 4096 + c div 64 mod 64 * 64 + c mod 64 = (c :: nat)"
proof -
  have "c div 262144 = c div 4096 div 64"
    by (simp add: div_mult2_eq [symmetric])
  then have "(c div 262144) * 64 + c div 4096 mod 64 = c div 4096" by simp
  then have "((c div 262144) * 64 + c div 4096 mod 64) * 4096 + c div 64 mod 64 * 64 + c mod 64 = c"
    using digits3 [of c] by simp
  then show ?thesis by (simp add: algebra_simps)
qed

lemma utf8_chars_encode_char:
  assumes "c < 1114112"
  shows "utf8_chars (utf8_encode_char c @ s) = c # utf8_chars s"
proof -
  consider "c < 128" | "128 \<le> c" "c < 2048" | "2048 \<le> c" "c < 65536" | "65536 \<le> c"
    by linarith
  then show ?thesis
  proof cases
    case 1
    then show ?thesis by (simp add: utf8_encode_char_def)
  next
    case 2
    then have "c div 64 < 32" by (simp add: less_mult_imp_div_less)
    with 2 show ?thesis
      by (simp add: utf8_encode_char_def lead_bits del: of_char_of)
  next
    case 3
    then have k: "c div 4096 < 16" by (simp add: less_mult_imp_div_less)
    then have "(of_char (char_of (224 + c div 4096) :: char) :: nat) = 224 + c div 4096"
      by simp
    with 3 k digits3 [of c] show ?thesis
      by (simp add: utf8_encode_char_def lead_bits del: of_char_of)
  next
    case 4
    with assms have k: "c div 262144 < 8" by (simp add: less_mult_imp_div_less)
    then have "(of_char (char_of (240 + c div 262144) :: char) :: nat) = 240 + c div 262144"
      by simp
    with 4 k digits4 [of c] show ?thesis
      by (simp add: utf8_encode_char_def lead_bits del: of_char_of)
  qed
qed

lemma is_scalar_less: "is_scalar c \<Longrightarrow> c < 1114112"
  by (auto simp: is_scalar_def)

lemma utf8_chars_encode: "list_all is_scalar cs \<Longrightarrow> utf8_chars (utf8_encode cs) = cs"
  by (induction cs) (auto simp: utf8_chars_encode_char is_scalar_less)

lemma valid_utf8_encode: "list_all is_scalar cs \<Longrightarrow> valid_utf8 (utf8_encode cs)"
  by (simp add: valid_utf8_def utf8_chars_encode)

lemma utf8_encode_chars: "valid_utf8 s \<Longrightarrow> utf8_encode (utf8_chars s) = s"
  by (simp add: valid_utf8_def)

lemma list_all_take: "list_all P xs \<Longrightarrow> list_all P (take k xs)"
  by (auto simp: list_all_iff dest: in_set_takeD)

lemma list_all_filter: "list_all P xs \<Longrightarrow> list_all P (filter Q xs)"
  by (auto simp: list_all_iff)

text \<open>ASCII text is valid, and its scalar values are its bytes.\<close>

lemma utf8_chars_ascii:
  "list_all (\<lambda>c. (of_char c :: nat) < 128) s \<Longrightarrow> utf8_chars s = map of_char s"
  by (induction s) simp_all

lemma valid_utf8_ascii:
  assumes "list_all (\<lambda>c. (of_char c :: nat) < 128) s"
  shows "valid_utf8 s"
proof -
  have "utf8_encode (map of_char s) = s"
    using assms by (induction s) (simp_all add: utf8_encode_char_def)
  moreover have "list_all is_scalar (map of_char s)"
    using assms by (auto simp: list_all_iff is_scalar_def)
  ultimately show ?thesis
    by (simp add: valid_utf8_def utf8_chars_ascii assms)
qed

end
