(* ===== verification/Url.thy ===== *)
theory Url
  imports Prelude
begin

text \<open>
  What the sources observe of a parsed URL. The \<open>url\<close> crate itself is not part of the
  repository: its parser is a parameter of the definitions that call it
  (\<open>url_parse :: string \<Rightarrow> Url option\<close>), and a parsed URL is the record of the accessors the
  code reads. \<open>Ipv4Addr::is_loopback\<close>, \<open>Ipv6Addr::is_loopback\<close> and
  \<open>eq_ignore_ascii_case\<close> are standard library and written out.
\<close>

datatype Host = Domain string | Ipv4 u32 | Ipv6 "128 word"

record Url =
  url_scheme :: string
  url_username :: string
  url_password :: "string option"
  url_host :: "Host option"
  url_path :: string
  url_query :: "string option"
  url_fragment :: "string option"
  url_serialization :: string

definition ascii_lowercase :: "char \<Rightarrow> char" where
  "ascii_lowercase c = (if CHR ''A'' \<le> c \<and> c \<le> CHR ''Z'' then char_of (of_char c + 32 :: nat) else c)"

definition eq_ignore_ascii_case :: "string \<Rightarrow> string \<Rightarrow> bool" where
  "eq_ignore_ascii_case s t \<longleftrightarrow> map ascii_lowercase s = map ascii_lowercase t"

text \<open>127.0.0.0/8 and \<open>::1\<close>.\<close>

definition ipv4_is_loopback :: "u32 \<Rightarrow> bool" where
  "ipv4_is_loopback a \<longleftrightarrow> drop_bit 24 a = 127"

definition ipv6_is_loopback :: "128 word \<Rightarrow> bool" where
  "ipv6_is_loopback a \<longleftrightarrow> a = 1"

end
