(* ===== verification/Types.thy ===== *)
theory Types
  imports Felt Utf8 Url
begin

text \<open>
  The typed values of \<open>crates/soul-core/src/types.rs\<close> and their validators: services and
  event kinds, job inputs, request content, proof statements, proof descriptors, metrics,
  public errors and result content.
\<close>

section \<open>Services and event kinds\<close>

datatype ServiceType = Fibonacci | HashVerify | MerkleProof

definition ServiceType_as_str :: "ServiceType \<Rightarrow> string" where
  "ServiceType_as_str s =
     (case s of Fibonacci \<Rightarrow> ''fibonacci'' | HashVerify \<Rightarrow> ''hash_verify'' | MerkleProof \<Rightarrow> ''merkle_proof'')"

definition request_kind :: "ServiceType \<Rightarrow> u16" where
  "request_kind s =
     (case s of
        Fibonacci \<Rightarrow> FIBONACCI_REQUEST
      | HashVerify \<Rightarrow> HASH_VERIFY_REQUEST
      | MerkleProof \<Rightarrow> MERKLE_PROOF_REQUEST)"

definition result_kind :: "ServiceType \<Rightarrow> u16" where
  "result_kind s =
     (case s of
        Fibonacci \<Rightarrow> FIBONACCI_RESULT
      | HashVerify \<Rightarrow> HASH_VERIFY_RESULT
      | MerkleProof \<Rightarrow> MERKLE_PROOF_RESULT)"

definition from_kind :: "u16 \<Rightarrow> ServiceType option" where
  "from_kind kind =
     (if kind = FIBONACCI_REQUEST \<or> kind = FIBONACCI_RESULT then Some Fibonacci
      else if kind = HASH_VERIFY_REQUEST \<or> kind = HASH_VERIFY_RESULT then Some HashVerify
      else if kind = MERKLE_PROOF_REQUEST \<or> kind = MERKLE_PROOF_RESULT then Some MerkleProof
      else None)"

definition is_request_kind :: "u16 \<Rightarrow> bool" where
  "is_request_kind kind \<longleftrightarrow>
     kind = FIBONACCI_REQUEST \<or> kind = HASH_VERIFY_REQUEST \<or> kind = MERKLE_PROOF_REQUEST"

definition is_result_kind :: "u16 \<Rightarrow> bool" where
  "is_result_kind kind \<longleftrightarrow>
     kind = FIBONACCI_RESULT \<or> kind = HASH_VERIFY_RESULT \<or> kind = MERKLE_PROOF_RESULT"

section \<open>Requests\<close>

datatype JobInput =
    InFibonacci u64
  | InHashVerify FeltHex FeltHex  \<comment> \<open>hash, preimage\<close>
  | InMerkleProof FeltHex FeltHex "FeltHex list" u64  \<comment> \<open>root, leaf, proof, index\<close>

definition JobInput_service :: "JobInput \<Rightarrow> ServiceType" where
  "JobInput_service input =
     (case input of
        InFibonacci _ \<Rightarrow> Fibonacci
      | InHashVerify _ _ \<Rightarrow> HashVerify
      | InMerkleProof _ _ _ _ \<Rightarrow> MerkleProof)"

text \<open>\<open>1_u64 << proof.len()\<close> is \<open>push_bit\<close> at width 64; the depth check precedes it.\<close>

definition JobInput_validate :: "JobInput \<Rightarrow> (ValidationError, unit) result" where
  "JobInput_validate input =
     (case input of
        InFibonacci n \<Rightarrow> if n > MAX_FIBONACCI_N then Inl FibonacciOutOfRange else Inr ()
      | InMerkleProof root leaf proof index \<Rightarrow>
          if length proof > MAX_MERKLE_DEPTH then Inl MerkleDepthOutOfRange
          else
            let index_fits = (if proof = [] then index = 0 else index < push_bit (length proof) 1)
            in if \<not> index_fits then Inl MerkleIndexOutOfRange else Inr ()
      | InHashVerify _ _ \<Rightarrow> Inr ())"

record JobRequestContent =
  rc_protocol :: string
  rc_service :: ServiceType
  rc_input :: JobInput
  rc_expires_at :: "u64 option"

definition JobRequestContent_new :: "JobInput \<Rightarrow> u64 option \<Rightarrow> JobRequestContent" where
  "JobRequestContent_new input expires_at =
     \<lparr>rc_protocol = SOUL_WIRE_PROTOCOL, rc_service = JobInput_service input,
      rc_input = input, rc_expires_at = expires_at\<rparr>"

definition JobRequestContent_validate ::
  "JobRequestContent \<Rightarrow> u64 \<Rightarrow> u64 \<Rightarrow> (ValidationError, unit) result" where
  "JobRequestContent_validate c created_at now =
     (if rc_protocol c \<noteq> SOUL_WIRE_PROTOCOL then Inl UnsupportedProtocol
      else if rc_service c \<noteq> JobInput_service (rc_input c) then Inl ServiceMismatch
      else and_then (JobInput_validate (rc_input c)) (\<lambda>_.
        case rc_expires_at c of
          None \<Rightarrow> Inr ()
        | Some expires_at \<Rightarrow>
            if expires_at \<le> now then Inl Expired
            else if expires_at < created_at
                    \<or> saturating_sub expires_at created_at > MAX_REQUEST_TTL_SECS
            then Inl InvalidExpiry
            else Inr ()))"

record JobRequest =
  jr_id :: string
  jr_service :: ServiceType
  jr_input :: JobInput
  jr_bid_msats :: u64
  jr_customer_pubkey :: string
  jr_created_at :: u64
  jr_expires_at :: "u64 option"
  jr_canonical_input :: string
  jr_serialized_event :: string

section \<open>Statements\<close>

datatype JobOutput =
    OutFibonacci FeltHex
  | OutHashVerify bool
  | OutMerkleProof bool

definition JobOutput_service :: "JobOutput \<Rightarrow> ServiceType" where
  "JobOutput_service out =
     (case out of
        OutFibonacci _ \<Rightarrow> Fibonacci
      | OutHashVerify _ \<Rightarrow> HashVerify
      | OutMerkleProof _ \<Rightarrow> MerkleProof)"

record ProofStatement =
  st_service :: ServiceType
  st_program :: string
  st_public_input :: "FeltHex list"
  st_public_output :: "FeltHex list"
  st_output :: JobOutput

text \<open>\<open>u64::from(bool)\<close>.\<close>

definition u64_of_bool :: "bool \<Rightarrow> u64" where
  "u64_of_bool b = (if b then 1 else 0)"

definition ProofStatement_validate :: "ProofStatement \<Rightarrow> (ValidationError, unit) result" where
  "ProofStatement_validate s =
     (if st_program s \<noteq> CAIRO_PROGRAM
         \<or> length (st_program s) > 64
         \<or> st_service s \<noteq> JobOutput_service (st_output s)
      then Inl InvalidStatement
      else if length (st_public_input s) > MAX_MERKLE_DEPTH + 4
         \<or> length (st_public_output s) > MAX_MERKLE_DEPTH + 8
      then Inl InvalidStatement
      else
        (case (st_service s, st_output s) of
           (Fibonacci, OutFibonacci result) \<Rightarrow>
             if length (st_public_input s) = 1 \<and> st_public_output s = [result]
             then Inr () else Inl InvalidStatement
         | (HashVerify, OutHashVerify valid) \<Rightarrow>
             if length (st_public_input s) = 1
                \<and> st_public_output s = [FeltHex_from_u64 (u64_of_bool valid)]
             then Inr () else Inl InvalidStatement
         | (MerkleProof, OutMerkleProof valid) \<Rightarrow>
             if length (st_public_input s) = 3
                \<and> st_public_output s = [FeltHex_from_u64 (u64_of_bool valid)]
             then Inr () else Inl InvalidStatement
         | _ \<Rightarrow> Inl InvalidStatement))"

section \<open>Proof descriptors\<close>

record ProofDescriptor =
  pd_format :: string
  pd_media_type :: string
  pd_url :: string
  pd_sha256 :: string
  pd_byte_size :: u64
  pd_program_hash :: FeltHex
  pd_channel :: string

definition is_loopback_host :: "Url \<Rightarrow> bool" where
  "is_loopback_host url =
     (case url_host url of
        Some (Domain domain) \<Rightarrow> eq_ignore_ascii_case domain ''localhost''
      | Some (Ipv4 address) \<Rightarrow> ipv4_is_loopback address
      | Some (Ipv6 address) \<Rightarrow> ipv6_is_loopback address
      | None \<Rightarrow> False)"

definition ProofDescriptor_validate ::
  "(string \<Rightarrow> Url option) \<Rightarrow> ProofDescriptor \<Rightarrow> (ValidationError, unit) result" where
  "ProofDescriptor_validate url_parse d =
     (if pd_format d \<noteq> PROOF_FORMAT
         \<or> pd_media_type d \<noteq> PROOF_MEDIA_TYPE
         \<or> pd_channel d \<noteq> PROOF_CHANNEL
         \<or> pd_byte_size d = 0
         \<or> pd_byte_size d > MAX_PROOF_BYTES
      then Inl InvalidProofDescriptor
      else if length (pd_sha256 d) \<noteq> 64 \<or> \<not> list_all lower_hex_byte (pd_sha256 d)
      then Inl InvalidProofDescriptor
      else and_then (ok_or InvalidProofDescriptor (url_parse (pd_url d))) (\<lambda>url.
        if \<not> (url_scheme url = ''http'' \<or> url_scheme url = ''https'')
           \<or> url_host url = None
           \<or> (url_scheme url = ''http'' \<and> \<not> is_loopback_host url)
        then Inl InvalidProofDescriptor
        else Inr ()))"

section \<open>Metrics, errors and results\<close>

record JobMetrics =
  execution_ms :: u64
  proving_ms :: u64
  verification_ms :: u64

definition JobMetrics_validate :: "JobMetrics \<Rightarrow> (ValidationError, unit) result" where
  "JobMetrics_validate m =
     (if list_ex (\<lambda>value. value > MAX_SAFE_INTEGER) [execution_ms m, proving_ms m, verification_ms m]
      then Inl InvalidResult else Inr ())"

datatype ErrorCode =
    InvalidRequest
  | UnsupportedService
  | ExpiredCode
  | Duplicate
  | Busy
  | ProvingFailed
  | ArtifactUnavailable
  | Internal

record JobError =
  je_code :: ErrorCode
  je_message :: string

definition JobError_new :: "ErrorCode \<Rightarrow> string \<Rightarrow> JobError" where
  "JobError_new code message =
     \<lparr>je_code = code,
      je_message = utf8_encode (take 160 (filter (\<lambda>c. \<not> is_control c) (utf8_chars message)))\<rparr>"

datatype JobResultContent =
    Success string string ProofStatement ProofDescriptor JobMetrics
      \<comment> \<open>protocol, request id, statement, proof, metrics\<close>
  | Error string string JobError
      \<comment> \<open>protocol, request id, error\<close>

definition JobResultContent_success ::
  "string \<Rightarrow> ProofStatement \<Rightarrow> ProofDescriptor \<Rightarrow> JobMetrics \<Rightarrow> JobResultContent" where
  "JobResultContent_success request_id statement proof metrics =
     Success SOUL_WIRE_PROTOCOL request_id statement proof metrics"

definition JobResultContent_error :: "string \<Rightarrow> ErrorCode \<Rightarrow> string \<Rightarrow> JobResultContent" where
  "JobResultContent_error request_id code message =
     Error SOUL_WIRE_PROTOCOL request_id (JobError_new code message)"

definition JobResultContent_request_id :: "JobResultContent \<Rightarrow> string" where
  "JobResultContent_request_id r =
     (case r of Success _ request_id _ _ _ \<Rightarrow> request_id | Error _ request_id _ \<Rightarrow> request_id)"

definition JobResultContent_status :: "JobResultContent \<Rightarrow> string" where
  "JobResultContent_status r =
     (case r of Success _ _ _ _ _ \<Rightarrow> ''success'' | Error _ _ _ \<Rightarrow> ''error'')"

definition is_lower_hex :: "string \<Rightarrow> nat \<Rightarrow> bool" where
  "is_lower_hex value len \<longleftrightarrow> length value = len \<and> list_all lower_hex_byte value"

definition validate_result_header :: "string \<Rightarrow> string \<Rightarrow> (ValidationError, unit) result" where
  "validate_result_header protocol request_id =
     (if protocol \<noteq> SOUL_WIRE_PROTOCOL \<or> \<not> is_lower_hex request_id 64
      then Inl InvalidResult else Inr ())"

definition JobResultContent_validate ::
  "(string \<Rightarrow> Url option) \<Rightarrow> JobResultContent \<Rightarrow> (ValidationError, unit) result" where
  "JobResultContent_validate url_parse r =
     (case r of
        Success protocol request_id statement proof metrics \<Rightarrow>
          and_then (validate_result_header protocol request_id) (\<lambda>_.
          and_then (ProofStatement_validate statement) (\<lambda>_.
          and_then (ProofDescriptor_validate url_parse proof) (\<lambda>_.
          JobMetrics_validate metrics)))
      | Error protocol request_id err \<Rightarrow>
          and_then (validate_result_header protocol request_id) (\<lambda>_.
          if je_message err = []
             \<or> length (utf8_chars (je_message err)) > 160
             \<or> list_ex is_control (utf8_chars (je_message err))
          then Inl InvalidResult
          else Inr ()))"

section \<open>What the validators accept\<close>

text \<open>
  Each validator is characterised by the arithmetic facts it stands for, on natural
  numbers and without the machine-level saturation and shifts; the component theories use
  these instead of the definitions.
\<close>

named_theorems validators \<open>when a validator accepts\<close>

lemmas service_defs =
  ServiceType_as_str_def request_kind_def result_kind_def from_kind_def is_request_kind_def
  is_result_kind_def JobInput_service_def JobOutput_service_def

lemma unat_push_bit_1:
  assumes "k < 64"
  shows "unat (push_bit k (1 :: u64)) = 2 ^ k"
proof -
  from assms have "(2 :: nat) ^ k < 2 ^ 64"
    by (intro power_strict_increasing) simp_all
  then show ?thesis
    by (subst unsigned_push_bit_eq) (simp add: push_bit_eq_mult take_bit_eq_mod)
qed

definition index_fits :: "FeltHex list \<Rightarrow> u64 \<Rightarrow> bool" where
  "index_fits proof index \<longleftrightarrow> length proof \<le> 32 \<and> unat index < 2 ^ length proof"

lemma index_fits_guard:
  "length proof \<le> 32 \<Longrightarrow>
     (if proof = [] then index = 0 else index < push_bit (length proof) 1) \<longleftrightarrow> index_fits proof index"
  by (cases "proof = []")
    (simp_all add: index_fits_def word_less_nat_alt unat_push_bit_1 unat_eq_0 del: push_bit_of_1)

fun input_bounds :: "JobInput \<Rightarrow> bool" where
  "input_bounds (InFibonacci n) \<longleftrightarrow> unat n \<le> 363"
| "input_bounds (InHashVerify hash preimage) \<longleftrightarrow> True"
| "input_bounds (InMerkleProof root leaf proof index) \<longleftrightarrow> index_fits proof index"

lemma JobInput_validate_eq:
  "JobInput_validate input =
     (case input of
        InFibonacci n \<Rightarrow> if unat n \<le> 363 then Inr () else Inl FibonacciOutOfRange
      | InHashVerify _ _ \<Rightarrow> Inr ()
      | InMerkleProof _ _ proof index \<Rightarrow>
          if 32 < length proof then Inl MerkleDepthOutOfRange
          else if unat index < 2 ^ length proof then Inr ()
          else Inl MerkleIndexOutOfRange)"
  using index_fits_guard
  by (auto simp: JobInput_validate_def constants word_less_nat_alt index_fits_def Let_def
      split: JobInput.split)

lemma JobInput_validate_ok [validators]: "JobInput_validate input = Inr () \<longleftrightarrow> input_bounds input"
  by (cases input) (auto simp: JobInput_validate_eq index_fits_def)

definition content_valid :: "JobRequestContent \<Rightarrow> nat \<Rightarrow> nat \<Rightarrow> bool" where
  "content_valid c created_at now \<longleftrightarrow>
     rc_protocol c = SOUL_WIRE_PROTOCOL \<and>
     rc_service c = JobInput_service (rc_input c) \<and>
     input_bounds (rc_input c) \<and>
     (\<forall>e. rc_expires_at c = Some e \<longrightarrow>
        now < unat e \<and> created_at \<le> unat e \<and> unat e \<le> created_at + 3600)"

lemma JobRequestContent_validate_ok [validators]:
  "JobRequestContent_validate c created_at now = Inr () \<longleftrightarrow>
     content_valid c (unat created_at) (unat now)"
  by (auto simp: JobRequestContent_validate_def content_valid_def and_then_eq_Inr validators
      constants word_less_nat_alt word_le_nat_alt unat_saturating_sub split: option.split)

text \<open>A statement is valid when its raw words are the ones its typed output stands for.\<close>

fun output_words :: "JobOutput \<Rightarrow> FeltHex list" where
  "output_words (OutFibonacci result) = [result]"
| "output_words (OutHashVerify valid) = [FeltHex_from_u64 (u64_of_bool valid)]"
| "output_words (OutMerkleProof valid) = [FeltHex_from_u64 (u64_of_bool valid)]"

fun input_arity :: "ServiceType \<Rightarrow> nat" where
  "input_arity Fibonacci = 1"
| "input_arity HashVerify = 1"
| "input_arity MerkleProof = 3"

definition statement_valid :: "ProofStatement \<Rightarrow> bool" where
  "statement_valid s \<longleftrightarrow>
     st_program s = CAIRO_PROGRAM \<and>
     st_service s = JobOutput_service (st_output s) \<and>
     length (st_public_input s) = input_arity (st_service s) \<and>
     st_public_output s = output_words (st_output s)"

lemma ProofStatement_validate_ok [validators]:
  "ProofStatement_validate s = Inr () \<longleftrightarrow> statement_valid s"
  by (cases "st_output s"; cases "st_service s")
    (auto simp: ProofStatement_validate_def statement_valid_def JobOutput_service_def constants)

lemma ProofStatement_validate_error:
  "ProofStatement_validate s = Inl e \<longleftrightarrow> e = InvalidStatement \<and> \<not> statement_valid s"
proof (cases "ProofStatement_validate s")
  case (Inl e')
  then have "e' = InvalidStatement"
    by (auto simp: ProofStatement_validate_def split: if_splits ServiceType.splits JobOutput.splits)
  with Inl ProofStatement_validate_ok [of s] show ?thesis by auto
next
  case (Inr u)
  with ProofStatement_validate_ok [of s] show ?thesis by simp
qed

definition descriptor_valid :: "(string \<Rightarrow> Url option) \<Rightarrow> ProofDescriptor \<Rightarrow> bool" where
  "descriptor_valid url_parse d \<longleftrightarrow>
     pd_format d = PROOF_FORMAT \<and> pd_media_type d = PROOF_MEDIA_TYPE \<and> pd_channel d = PROOF_CHANNEL \<and>
     0 < unat (pd_byte_size d) \<and> unat (pd_byte_size d) \<le> 33554432 \<and>
     is_lower_hex (pd_sha256 d) 64 \<and>
     (\<exists>url. url_parse (pd_url d) = Some url \<and> url_host url \<noteq> None \<and>
        (url_scheme url = ''https'' \<or> url_scheme url = ''http'' \<and> is_loopback_host url))"

lemma ProofDescriptor_validate_ok [validators]:
  "ProofDescriptor_validate url_parse d = Inr () \<longleftrightarrow> descriptor_valid url_parse d"
  by (auto simp: ProofDescriptor_validate_def descriptor_valid_def is_lower_hex_def and_then_eq_Inr
      MAX_PROOF_BYTES_def word_less_nat_alt unat_gt_0 split: if_splits)

definition metrics_valid :: "JobMetrics \<Rightarrow> bool" where
  "metrics_valid m \<longleftrightarrow>
     execution_ms m \<le> MAX_SAFE_INTEGER \<and> proving_ms m \<le> MAX_SAFE_INTEGER \<and>
     verification_ms m \<le> MAX_SAFE_INTEGER"

lemma JobMetrics_validate_ok [validators]: "JobMetrics_validate m = Inr () \<longleftrightarrow> metrics_valid m"
  by (auto simp: JobMetrics_validate_def metrics_valid_def not_less)

lemma validate_result_header_ok [validators]:
  "validate_result_header protocol request_id = Inr () \<longleftrightarrow>
     protocol = SOUL_WIRE_PROTOCOL \<and> is_lower_hex request_id 64"
  by (simp add: validate_result_header_def)

definition message_valid :: "string \<Rightarrow> bool" where
  "message_valid m \<longleftrightarrow>
     m \<noteq> [] \<and> length (utf8_chars m) \<le> 160 \<and> list_all (\<lambda>c. \<not> is_control c) (utf8_chars m)"

fun result_valid :: "(string \<Rightarrow> Url option) \<Rightarrow> JobResultContent \<Rightarrow> bool" where
  "result_valid url_parse (Success protocol request_id statement proof metrics) \<longleftrightarrow>
     protocol = SOUL_WIRE_PROTOCOL \<and> is_lower_hex request_id 64 \<and>
     statement_valid statement \<and> descriptor_valid url_parse proof \<and> metrics_valid metrics"
| "result_valid url_parse (Error protocol request_id err) \<longleftrightarrow>
     protocol = SOUL_WIRE_PROTOCOL \<and> is_lower_hex request_id 64 \<and> message_valid (je_message err)"

lemma JobResultContent_validate_ok [validators]:
  "JobResultContent_validate url_parse r = Inr () \<longleftrightarrow> result_valid url_parse r"
  by (cases r)
    (auto simp: JobResultContent_validate_def validators and_then_eq_Inr message_valid_def
      list_all_iff list_ex_iff not_less)

section \<open>Kinds, constructors and sanitised messages\<close>

lemma service_kinds:
  "from_kind (request_kind s) = Some s" "from_kind (result_kind s) = Some s"
  "is_request_kind (request_kind s)" "is_result_kind (result_kind s)"
  "\<not> is_request_kind (result_kind s)" "\<not> is_result_kind (request_kind s)"
  "unat (result_kind s) = unat (request_kind s) + 1000"
  by (cases s; simp add: service_defs constants)+

lemma from_kind_request: "is_request_kind k \<Longrightarrow> from_kind k = Some s \<Longrightarrow> k = request_kind s"
  by (auto simp: service_defs constants split: if_splits)

lemma from_kind_is_kind: "from_kind k \<noteq> None \<longleftrightarrow> is_request_kind k \<or> is_result_kind k"
  by (auto simp: service_defs)

lemma JobRequestContent_new_valid:
  "JobRequestContent_validate (JobRequestContent_new input None) created_at now = JobInput_validate input"
  by (cases "JobInput_validate input")
    (simp_all add: JobRequestContent_validate_def JobRequestContent_new_def)

lemma JobError_new_chars:
  assumes "valid_utf8 message"
  shows "utf8_chars (je_message (JobError_new code message)) =
           take 160 (filter (\<lambda>c. \<not> is_control c) (utf8_chars message))"
  using assms
  by (simp add: JobError_new_def valid_utf8_def utf8_chars_encode list_all_take list_all_filter)

lemma utf8_encode_eq_Nil [simp]: "utf8_encode cs = [] \<longleftrightarrow> cs = []"
  by (cases cs) (simp_all add: utf8_encode_char_def)

section \<open>Properties\<close>

text \<open>Request and result kinds identify the service: each service's two kinds map back
  to it, are recognised as a request and a result kind and never as the other, and the
  result kind is the request kind plus 1000 without wrapping at 16 bits.\<close>

theorem event_kinds_identify_service:
  "from_kind (request_kind s) = Some s \<and> from_kind (result_kind s) = Some s \<and>
   is_request_kind (request_kind s) \<and> is_result_kind (result_kind s) \<and>
   \<not> is_request_kind (result_kind s) \<and> \<not> is_result_kind (request_kind s) \<and>
   unat (result_kind s) = unat (request_kind s) + 1000 \<and>
   (from_kind k = None \<longleftrightarrow> \<not> (is_request_kind k \<or> is_result_kind k))"
  using service_kinds [of s] from_kind_is_kind [of k] by auto

text \<open>C37: job input validation on every branch: a Fibonacci index is accepted up to 363, a
  hash check always, a Merkle path up to depth 32 with an index below two to the depth
  (the shift of the source never overflows there, and an empty path needs index 0), and
  each rejection names the bound that failed.\<close>

theorem job_input_validate_correct:
  "JobInput_validate input =
     (case input of
        InFibonacci n \<Rightarrow> if unat n \<le> 363 then Inr () else Inl FibonacciOutOfRange
      | InHashVerify _ _ \<Rightarrow> Inr ()
      | InMerkleProof _ _ proof index \<Rightarrow>
          if 32 < length proof then Inl MerkleDepthOutOfRange
          else if unat index < 2 ^ length proof then Inr ()
          else Inl MerkleIndexOutOfRange)"
  by (rule JobInput_validate_eq)

text \<open>Request content is accepted exactly when protocol, service binding and input bounds
  hold and an expiry, if present, lies after the observation time, not before creation and
  at most an hour after it, all as unbounded numbers.\<close>

theorem request_content_validate_correct:
  "JobRequestContent_validate c created_at now = Inr () \<longleftrightarrow>
     rc_protocol c = SOUL_WIRE_PROTOCOL \<and>
     rc_service c = JobInput_service (rc_input c) \<and>
     JobInput_validate (rc_input c) = Inr () \<and>
     (case rc_expires_at c of
        None \<Rightarrow> True
      | Some e \<Rightarrow> unat now < unat e \<and> unat created_at \<le> unat e \<and> unat e \<le> unat created_at + 3600)"
  by (auto simp: validators content_valid_def split: option.split)

text \<open>A proof statement is accepted exactly when it names the Cairo program, its service
  is that of its typed output, its public input has the service's arity and its raw
  public output is the encoding of the typed output; every rejection is
  \<open>InvalidStatement\<close>.\<close>

theorem statement_validate_correct:
  "ProofStatement_validate s =
     (if st_program s = CAIRO_PROGRAM \<and> st_service s = JobOutput_service (st_output s) \<and>
         length (st_public_input s) = (if st_service s = MerkleProof then 3 else 1) \<and>
         st_public_output s =
           (case st_output s of
              OutFibonacci result \<Rightarrow> [result]
            | OutHashVerify valid \<Rightarrow> [FeltHex_from_u64 (u64_of_bool valid)]
            | OutMerkleProof valid \<Rightarrow> [FeltHex_from_u64 (u64_of_bool valid)])
      then Inr () else Inl InvalidStatement)"
  by (cases "ProofStatement_validate s"; cases "st_output s")
    (auto simp: ProofStatement_validate_error ProofStatement_validate_ok statement_valid_def
      JobOutput_service_def)

text \<open>An accepted proof descriptor points to HTTPS, or to plain HTTP only on a loopback
  host, declares between one byte and 32 MiB, and carries a 64-digit lowercase digest.\<close>

theorem descriptor_validate_safe:
  assumes "ProofDescriptor_validate url_parse d = Inr ()"
  shows "0 < unat (pd_byte_size d) \<and> unat (pd_byte_size d) \<le> 32 * 1024 * 1024 \<and>
         length (pd_sha256 d) = 64 \<and> list_all lower_hex_byte (pd_sha256 d) \<and>
         (\<exists>url. url_parse (pd_url d) = Some url \<and> url_host url \<noteq> None \<and>
            (url_scheme url = ''https'' \<or>
             url_scheme url = ''http'' \<and> is_loopback_host url))"
  using assms by (auto simp: validators descriptor_valid_def is_lower_hex_def)

definition example_url :: Url where
  "example_url =
     \<lparr>url_scheme = ''https'', url_username = [], url_password = None,
      url_host = Some (Domain ''proofs.example''), url_path = ''/'', url_query = None,
      url_fragment = None, url_serialization = ''https://proofs.example/''\<rparr>"

definition example_descriptor :: ProofDescriptor where
  "example_descriptor =
     \<lparr>pd_format = PROOF_FORMAT, pd_media_type = PROOF_MEDIA_TYPE,
      pd_url = ''https://proofs.example/'', pd_sha256 = replicate 64 CHR ''a'',
      pd_byte_size = 123, pd_program_hash = FeltHex_from_u64 9, pd_channel = PROOF_CHANNEL\<rparr>"

lemma example_descriptor_valid: "descriptor_valid (\<lambda>_. Some example_url) example_descriptor"
  by (simp add: descriptor_valid_def example_descriptor_def example_url_def is_lower_hex_def
      list_all_replicate lower_hex_byte_def)

theorem descriptor_validate_safe_witness:
  "ProofDescriptor_validate (\<lambda>_. Some example_url) example_descriptor = Inr () \<and>
   unat (pd_byte_size example_descriptor) \<le> 32 * 1024 * 1024"
  using descriptor_validate_safe [of "\<lambda>_. Some example_url" example_descriptor]
    example_descriptor_valid by (simp add: validators)

text \<open>A public error message is sanitised: whatever text the provider passes, the result
  holds at most 160 scalar values, none of them a control character, in the order of the
  text; such an error result validates for every event id unless nothing printable was
  left.\<close>

theorem public_error_sanitised:
  assumes "valid_utf8 message"
  shows "utf8_chars (je_message (JobError_new code message)) =
           take 160 (filter (\<lambda>c. \<not> is_control c) (utf8_chars message)) \<and>
         valid_utf8 (je_message (JobError_new code message)) \<and>
         (is_lower_hex request_id 64 \<and> (\<exists>c \<in> set (utf8_chars message). \<not> is_control c) \<longrightarrow>
          JobResultContent_validate url_parse (JobResultContent_error request_id code message) = Inr ())"
proof -
  have chars: "utf8_chars (je_message (JobError_new code message)) =
      take 160 (filter (\<lambda>c. \<not> is_control c) (utf8_chars message))"
    using assms by (rule JobError_new_chars)
  moreover from assms have "list_all is_scalar (utf8_chars message)"
    by (simp add: valid_utf8_def)
  then have "valid_utf8 (je_message (JobError_new code message))"
    by (simp add: JobError_new_def valid_utf8_encode list_all_take list_all_filter)
  moreover have "message_valid (je_message (JobError_new code message))"
    if "\<exists>c \<in> set (utf8_chars message). \<not> is_control c"
  proof -
    from that have "filter (\<lambda>c. \<not> is_control c) (utf8_chars message) \<noteq> []"
      by (auto simp: filter_empty_conv)
    then have "je_message (JobError_new code message) \<noteq> []"
      by (simp add: JobError_new_def)
    then show ?thesis
      by (auto simp: message_valid_def chars list_all_iff dest!: in_set_takeD)
  qed
  ultimately show ?thesis
    by (auto simp: validators JobResultContent_error_def)
qed

theorem public_error_sanitised_witness:
  "utf8_chars (je_message (JobError_new Internal (''secret'' @ [CHR 0x0A] @ ''x''))) =
     map of_char ''secretx'' \<and>
   JobResultContent_validate (\<lambda>_. None)
     (JobResultContent_error (replicate 64 CHR ''a'') Internal (''secret'' @ [CHR 0x0A] @ ''x'')) = Inr ()"
proof -
  let ?m = "''secret'' @ [CHR 0x0A] @ ''x''"
  have ascii: "list_all (\<lambda>c. (of_char c :: nat) < 128) ?m"
    by (simp add: of_char_def)
  note sanitised = public_error_sanitised [OF valid_utf8_ascii [OF ascii], of Internal
      "replicate 64 CHR ''a''" "\<lambda>_. None"]
  have "take 160 (filter (\<lambda>c. \<not> is_control c) (utf8_chars ?m)) = map of_char ''secretx''"
    by (simp add: utf8_chars_ascii [OF ascii] is_control_def of_char_def)
  moreover have "\<exists>c \<in> set (utf8_chars ?m). \<not> is_control c"
    by (simp add: utf8_chars_ascii [OF ascii] is_control_def of_char_def)
  moreover have "is_lower_hex (replicate 64 CHR ''a'') 64"
    by (simp add: is_lower_hex_def list_all_replicate lower_hex_byte_def)
  ultimately show ?thesis
    using sanitised by simp
qed

end
