(* ===== verification/Statement.thy ===== *)
theory Statement
  imports Types
begin

text \<open>
  \<open>crates/soul-prover/src/statement.rs\<close>: the arguments a job is flattened to for the Cairo
  executable, and the reader of the proven output segment with its typed checks.

  \<open>cairo_vm::Felt252\<close>, \<open>starknet_ff::FieldElement\<close> and the \<open>hex\<close> crate are not part of
  the repository: the conversions the code calls are the fields of \<open>felt252_lib\<close> and
  \<open>field_lib\<close>, together with the width of \<open>usize\<close>, which differs between the native and
  the browser build. What the code relies on of them is the pair of locales below,
  interpreted on the representation by numbers below the Cairo prime.
\<close>

section \<open>Definitions\<close>

record 'f felt252_lib =
  f252_from_u64 :: "u64 \<Rightarrow> 'f"
  f252_from_usize :: "nat \<Rightarrow> 'f"
  f252_one :: 'f
  f252_zero :: 'f
  f252_from_hex :: "string \<Rightarrow> (string, 'f) result"

record 'fe field_lib =
  to_bytes_be :: "'fe \<Rightarrow> bytes"
  hex_encode :: "bytes \<Rightarrow> string"
  usize_bits :: nat

datatype StatementError =
    SE_InvalidInput ValidationError
  | SE_InvalidFelt string
  | SE_InvalidOutput string
  | SE_InvalidStatement string

definition SERVICE_ID_FIBONACCI :: u64 where
  "SERVICE_ID_FIBONACCI = 1"

definition SERVICE_ID_HASH_VERIFY :: u64 where
  "SERVICE_ID_HASH_VERIFY = 2"

definition SERVICE_ID_MERKLE_PROOF :: u64 where
  "SERVICE_ID_MERKLE_PROOF = 3"

lemmas service_ids =
  SERVICE_ID_FIBONACCI_def SERVICE_ID_HASH_VERIFY_def SERVICE_ID_MERKLE_PROOF_def

definition felt252 :: "('f, 'x) felt252_lib_scheme \<Rightarrow> FeltHex \<Rightarrow> (StatementError, 'f) result" where
  "felt252 lib value = map_err SE_InvalidFelt (f252_from_hex lib (as_str value))"

definition encode_job :: "('f, 'x) felt252_lib_scheme \<Rightarrow> JobInput \<Rightarrow> (StatementError, 'f list) result" where
  "encode_job lib input =
     and_then (map_err SE_InvalidInput (JobInput_validate input)) (\<lambda>_.
     case input of
       InFibonacci n \<Rightarrow>
         Inr [f252_from_u64 lib SERVICE_ID_FIBONACCI, f252_one lib, f252_from_u64 lib n, f252_zero lib]
     | InHashVerify hash preimage \<Rightarrow>
         and_then (felt252 lib hash) (\<lambda>h.
         and_then (felt252 lib preimage) (\<lambda>p.
         Inr [f252_from_u64 lib SERVICE_ID_HASH_VERIFY, f252_one lib, h, f252_one lib, p]))
     | InMerkleProof root leaf proof index \<Rightarrow>
         and_then (felt252 lib root) (\<lambda>r.
         and_then (felt252 lib leaf) (\<lambda>l.
         and_then (collect_results (map (felt252 lib) proof)) (\<lambda>siblings.
         Inr ([f252_from_u64 lib SERVICE_ID_MERKLE_PROOF, f252_from_u64 lib 3, r, l,
               f252_from_u64 lib index, f252_from_usize lib (length proof)] @ siblings)))))"

definition field_to_felt :: "('fe, 'x) field_lib_scheme \<Rightarrow> 'fe \<Rightarrow> (StatementError, FeltHex) result" where
  "field_to_felt lib value =
     map_err (\<lambda>_. SE_InvalidOutput ''field element is not canonical'')
       (FeltHex_parse (''0x'' @ hex_encode lib (to_bytes_be lib value)))"

text \<open>The readers thread the cursor: they return the value and the cursor after it.\<close>

definition take_u64 ::
  "('fe, 'x) field_lib_scheme \<Rightarrow> 'fe list \<Rightarrow> nat \<Rightarrow> string \<Rightarrow> (StatementError, u64 \<times> nat) result" where
  "take_u64 lib output cursor err =
     and_then (ok_or (SE_InvalidOutput err) (list_get output cursor)) (\<lambda>value.
     let bytes = to_bytes_be lib value in
     if list_ex (\<lambda>byte. byte \<noteq> 0) (take 24 bytes)
     then Inl (SE_InvalidOutput ''integer output does not fit u64'')
     else and_then
       (ok_or (SE_InvalidOutput ''invalid integer encoding'') (u64_from_be_bytes (drop 24 bytes)))
       (\<lambda>v. Inr (v, cursor + 1)))"

definition take_len ::
  "('fe, 'x) field_lib_scheme \<Rightarrow> 'fe list \<Rightarrow> nat \<Rightarrow> string \<Rightarrow> (StatementError, nat \<times> nat) result" where
  "take_len lib output cursor err =
     and_then (take_u64 lib output cursor err) (\<lambda>(value, cursor).
     if unat value < 2 ^ usize_bits lib then Inr (unat value, cursor)
     else Inl (SE_InvalidOutput ''array length is too large''))"

definition take_felts ::
  "('fe, 'x) field_lib_scheme \<Rightarrow> 'fe list \<Rightarrow> nat \<Rightarrow> nat \<Rightarrow> string \<Rightarrow>
   (StatementError, FeltHex list \<times> nat) result" where
  "take_felts lib output cursor len err =
     (if \<not> cursor + len < 2 ^ usize_bits lib
      then Inl (SE_InvalidOutput ''array length overflow'')
      else let end = cursor + len in
        and_then (ok_or (SE_InvalidOutput err) (slice_get output cursor end)) (\<lambda>values.
        and_then (collect_results (map (field_to_felt lib) values)) (\<lambda>felts.
        Inr (felts, end))))"

definition decode_boolean :: "FeltHex \<Rightarrow> (StatementError, bool) result" where
  "decode_boolean value =
     (if value = FeltHex_from_u64 0 then Inr False
      else if value = FeltHex_from_u64 1 then Inr True
      else Inl (SE_InvalidOutput ''boolean output must be zero or one''))"

definition validate_statement :: "ProofStatement \<Rightarrow> (StatementError, unit) result" where
  "validate_statement s =
     and_then
       (map_err (\<lambda>_. SE_InvalidStatement ''core statement validation failed'') (ProofStatement_validate s))
       (\<lambda>_.
     case (st_service s, st_output s) of
       (Fibonacci, OutFibonacci result) \<Rightarrow>
         if length (st_public_input s) = 1 \<and> st_public_output s = [result] then Inr ()
         else Inl (SE_InvalidStatement ''service, arity, raw output, and typed output disagree'')
     | (HashVerify, OutHashVerify valid) \<Rightarrow>
         if length (st_public_input s) = 1
            \<and> st_public_output s = [FeltHex_from_u64 (u64_of_bool valid)] then Inr ()
         else Inl (SE_InvalidStatement ''service, arity, raw output, and typed output disagree'')
     | (MerkleProof, OutMerkleProof valid) \<Rightarrow>
         if length (st_public_input s) = 3
            \<and> st_public_output s = [FeltHex_from_u64 (u64_of_bool valid)] then Inr ()
         else Inl (SE_InvalidStatement ''service, arity, raw output, and typed output disagree'')
     | _ \<Rightarrow> Inl (SE_InvalidStatement ''service, arity, raw output, and typed output disagree''))"

definition decode_statement ::
  "('fe, 'x) field_lib_scheme \<Rightarrow> 'fe list \<Rightarrow> (StatementError, ProofStatement) result" where
  "decode_statement lib output =
     and_then (take_u64 lib output 0 ''missing service'') (\<lambda>(service_id, cursor).
     and_then (take_len lib output cursor ''missing public input length'') (\<lambda>(public_input_len, cursor).
     and_then (take_felts lib output cursor public_input_len ''truncated public input'')
       (\<lambda>(public_input, cursor).
     and_then (take_len lib output cursor ''missing public output length'') (\<lambda>(public_output_len, cursor).
     and_then (take_felts lib output cursor public_output_len ''truncated public output'')
       (\<lambda>(public_output, cursor).
     if cursor \<noteq> length output then Inl (SE_InvalidOutput ''trailing output values'') else
     and_then
       (if service_id = SERVICE_ID_FIBONACCI \<and> length public_input = 1 \<and> length public_output = 1 then
          Inr (Fibonacci, OutFibonacci (public_output ! 0))
        else if service_id = SERVICE_ID_HASH_VERIFY \<and> length public_input = 1 \<and> length public_output = 1 then
          and_then (decode_boolean (public_output ! 0)) (\<lambda>valid. Inr (HashVerify, OutHashVerify valid))
        else if service_id = SERVICE_ID_MERKLE_PROOF \<and> length public_input = 3 \<and> length public_output = 1 then
          and_then (decode_boolean (public_output ! 0)) (\<lambda>valid. Inr (MerkleProof, OutMerkleProof valid))
        else if service_id = SERVICE_ID_FIBONACCI \<or> service_id = SERVICE_ID_HASH_VERIFY
                \<or> service_id = SERVICE_ID_MERKLE_PROOF then
          Inl (SE_InvalidOutput ''service input/output arity mismatch'')
        else Inl (SE_InvalidOutput ''unsupported service id''))
       (\<lambda>(service, typed_output).
     let statement =
       \<lparr>st_service = service, st_program = CAIRO_PROGRAM, st_public_input = public_input,
        st_public_output = public_output, st_output = typed_output\<rparr> in
     and_then (validate_statement statement) (\<lambda>_. Inr statement)))))))"

section \<open>What the code relies on of the field types\<close>

text \<open>
  A \<open>FieldElement\<close> is a number below the Cairo prime, printed in 32 big-endian bytes; a
  \<open>Felt252\<close> is such a number, built from the machine integers and from a canonical
  hexadecimal string. \<open>fe_val\<close> and \<open>f_val\<close> read the number.
\<close>

locale field_codec =
  fixes lib :: "('fe, 'x) field_lib_scheme" and fe_val :: "'fe \<Rightarrow> nat"
  assumes fe_val_less: "fe_val x < cairo_prime"
    and to_bytes_be_eq: "to_bytes_be lib x = be_bytes 32 (fe_val x)"
    and hex_encode_eq: "hex_encode lib bs = hex_of_bytes bs"
    and usize_32: "32 \<le> usize_bits lib"

locale felt252_codec =
  fixes flib :: "('f, 'x) felt252_lib_scheme" and f_val :: "'f \<Rightarrow> nat"
  assumes f_val_u64: "f_val (f252_from_u64 flib v) = unat v"
    and f_val_usize: "n < 2 ^ 32 \<Longrightarrow> f_val (f252_from_usize flib n) = n"
    and f_val_one: "f_val (f252_one flib) = 1"
    and f_val_zero: "f_val (f252_zero flib) = 0"
    and f_from_hex: "felt_ok f \<Longrightarrow> \<exists>v. f252_from_hex flib (as_str f) = Inr v \<and> f_val v = felt_val f"

lemma cairo_prime_less_256_32: "cairo_prime < 256 ^ 32" "cairo_prime < 2 ^ 64 * 256 ^ 24"
  by (simp_all add: cairo_prime_def)

text \<open>The words of a statement as \<open>main\<close> returns them.\<close>

fun service_id :: "ServiceType \<Rightarrow> nat" where
  "service_id Fibonacci = 1"
| "service_id HashVerify = 2"
| "service_id MerkleProof = 3"

definition serde_felts :: "FeltHex list \<Rightarrow> nat list" where
  "serde_felts fs = length fs # map felt_val fs"

definition statement_words :: "ProofStatement \<Rightarrow> nat list" where
  "statement_words s =
     service_id (st_service s) # serde_felts (st_public_input s) @ serde_felts (st_public_output s)"

definition statement_felts_ok :: "ProofStatement \<Rightarrow> bool" where
  "statement_felts_ok s \<longleftrightarrow> list_all felt_ok (st_public_input s) \<and> list_all felt_ok (st_public_output s)"

text \<open>The public and private words of a job, and its arguments as \<open>main\<close> takes them.\<close>

fun public_words :: "JobInput \<Rightarrow> FeltHex list" where
  "public_words (InFibonacci n) = [FeltHex_from_u64 n]"
| "public_words (InHashVerify hash preimage) = [hash]"
| "public_words (InMerkleProof root leaf proof index) = [root, leaf, FeltHex_from_u64 index]"

fun private_words :: "JobInput \<Rightarrow> FeltHex list" where
  "private_words (InFibonacci n) = []"
| "private_words (InHashVerify hash preimage) = [preimage]"
| "private_words (InMerkleProof root leaf proof index) = proof"

definition job_words :: "JobInput \<Rightarrow> nat list" where
  "job_words input =
     service_id (JobInput_service input) # serde_felts (public_words input) @ serde_felts (private_words input)"

definition job_felts_ok :: "JobInput \<Rightarrow> bool" where
  "job_felts_ok input \<longleftrightarrow> list_all felt_ok (public_words input) \<and> list_all felt_ok (private_words input)"

lemma length_private_words: "input_bounds input \<Longrightarrow> length (private_words input) \<le> 32"
  by (cases input) (simp_all add: index_fits_def)

lemma validate_statement_ok [validators]: "validate_statement s = Inr () \<longleftrightarrow> statement_valid s"
  by (auto simp: validate_statement_def validators and_then_eq_Inr statement_valid_def
      JobOutput_service_def split: ServiceType.splits JobOutput.splits)

lemma decode_boolean_eq_Inr: "decode_boolean f = Inr b \<longleftrightarrow> f = FeltHex_from_u64 (u64_of_bool b)"
  by (cases b) (auto simp: decode_boolean_def u64_of_bool_def)

lemmas decode_boolean_bool = decode_boolean_eq_Inr [THEN iffD2, OF refl]

text \<open>A list that is a word followed by two length-prefixed arrays, read by position.\<close>

lemma two_arrays_iff:
  "w = a # n # xs @ m # ys \<and> length xs = n \<and> length ys = m \<longleftrightarrow>
     0 < length w \<and> w ! 0 = a \<and> 1 < length w \<and> w ! 1 = n \<and> 2 + n \<le> length w \<and>
     xs = take n (drop 2 w) \<and> 2 + n < length w \<and> w ! (2 + n) = m \<and>
     3 + n + m = length w \<and> ys = take m (drop (3 + n) w)"
  (is "?l \<longleftrightarrow> ?r")
proof
  assume ?r
  then have "drop (2 + n) w = m # drop (3 + n) w"
    by (metis Cons_nth_drop_Suc add.commute add_Suc_right numeral_3_eq_3 numeral_2_eq_2 plus_nat.simps)
  moreover from \<open>?r\<close> have "w = a # n # drop 2 w"
    by (metis Cons_nth_drop_Suc One_nat_def drop_0 numeral_2_eq_2)
  moreover have "drop 2 w = take n (drop 2 w) @ drop (2 + n) w"
    by (metis add.commute append_take_drop_id drop_drop)
  ultimately show ?l using \<open>?r\<close> by (auto simp: min_def)
qed (auto simp: numeral_3_eq_3)

context field_codec
begin

lemma take_u64_in_range:
  assumes "c < length out"
  shows "take_u64 lib out c e =
    (if fe_val (out ! c) < 2 ^ 64 then Inr (of_nat (fe_val (out ! c)), c + 1)
     else Inl (SE_InvalidOutput ''integer output does not fit u64''))"
proof -
  define n where "n = fe_val (out ! c)"
  have "n < cairo_prime" by (simp add: n_def fe_val_less)
  then have "n div 2 ^ 64 < 256 ^ 24"
    using cairo_prime_less_256_32(2) by (simp add: less_mult_imp_div_less mult.commute)
  from be_bytes_zero_iff [OF this]
  have high: "list_ex (\<lambda>b. b \<noteq> 0) (be_bytes 24 (n div 2 ^ 64)) \<longleftrightarrow> \<not> n < 2 ^ 64"
    by (simp only: div_eq_0_iff) simp
  have low: "u64_from_be_bytes (be_bytes 8 n) = Some (of_nat (n mod 256 ^ 8))"
    by (simp add: u64_from_be_bytes_def be_val_mod)
  have bytes: "to_bytes_be lib (out ! c) = be_bytes 32 n"
    by (simp only: n_def to_bytes_be_eq)
  show ?thesis
    unfolding take_u64_def list_get_def if_P [OF assms] ok_or_simps and_then_simps Let_def bytes
      be_bytes_32_split high low n_def [symmetric]
    by (cases "n < 2 ^ 64") simp_all
qed

lemma take_u64_eq_Inr:
  "take_u64 lib out c e = Inr (v, c') \<longleftrightarrow>
     c < length out \<and> fe_val (out ! c) = unat v \<and> c' = c + 1"
proof (cases "c < length out")
  case True
  moreover have "fe_val (out ! c) < 2 ^ 64 \<Longrightarrow> unat (of_nat (fe_val (out ! c)) :: u64) = fe_val (out ! c)"
    by (simp add: unat_of_nat)
  ultimately show ?thesis
    by (auto simp: take_u64_in_range)
qed (simp add: take_u64_def list_get_def)

lemma take_len_eq_Inr:
  "take_len lib out c e = Inr (n, c') \<longleftrightarrow>
     c < length out \<and> fe_val (out ! c) = n \<and> n < 2 ^ 64 \<and> n < 2 ^ usize_bits lib \<and> c' = c + 1"
proof
  assume "take_len lib out c e = Inr (n, c')"
  then show "c < length out \<and> fe_val (out ! c) = n \<and> n < 2 ^ 64 \<and> n < 2 ^ usize_bits lib \<and> c' = c + 1"
    by (auto simp: take_len_def take_u64_eq_Inr result_simps split: if_splits)
next
  assume "c < length out \<and> fe_val (out ! c) = n \<and> n < 2 ^ 64 \<and> n < 2 ^ usize_bits lib \<and> c' = c + 1"
  moreover from this have "take_u64 lib out c e = Inr (of_nat n, c + 1)"
    by (simp add: take_u64_eq_Inr unat_of_nat)
  ultimately show "take_len lib out c e = Inr (n, c')"
    by (simp add: take_len_def unat_of_nat)
qed

lemma field_to_felt_eq: "field_to_felt lib x = Inr (felt_of_nat (fe_val x))"
proof -
  define ds where "ds = hex_of_bytes (be_bytes 32 (fe_val x))"
  have "fe_val x < 256 ^ 32"
    using fe_val_less [of x] cairo_prime_less_256_32(1) by simp
  then have val: "hex_val ds = fe_val x"
    by (simp add: ds_def hex_val_hex_of_bytes be_val_be_bytes)
  then have parse: "FeltHex_parse (''0x'' @ ds) = Inr (FeltHex (''0x'' @ ds))"
    using fe_val_less [of x] by (simp add: FeltHex_parse_eq_Inr ds_def length_hex_of_bytes)
  then have "FeltHex (''0x'' @ ds) = felt_of_nat (fe_val x)"
    using felt_val_inject [of "FeltHex (''0x'' @ ds)" "felt_of_nat (fe_val x)"] val
    felt_ok_parse [OF parse] by (simp add: fe_val_less) (simp add: felt_val_def)
  with parse show ?thesis
    by (simp add: field_to_felt_def hex_encode_eq to_bytes_be_eq ds_def)
qed

lemma take_felts_eq_Inr:
  "take_felts lib out c n e = Inr (fs, c') \<longleftrightarrow>
     c + n < 2 ^ usize_bits lib \<and> c + n \<le> length out \<and> c' = c + n \<and>
     fs = map (felt_of_nat \<circ> fe_val) (take n (drop c out))"
proof -
  have "collect_results (map (field_to_felt lib) xs) = Inr (map (felt_of_nat \<circ> fe_val) xs)" for xs
    by (induction xs) (simp_all add: field_to_felt_eq)
  then show ?thesis
    by (auto simp: take_felts_def slice_get_def Let_def)
qed

lemma decode_statement_sound:
  assumes "decode_statement lib out = Inr s"
  shows "map fe_val out = statement_words s \<and> statement_felts_ok s \<and> statement_valid s"
proof -
  define w where "w = map fe_val out"
  from assms obtain sid c1 n c2 c3 m c4 c5 where
    reads: "take_u64 lib out 0 ''missing service'' = Inr (sid, c1)"
      "take_len lib out c1 ''missing public input length'' = Inr (n, c2)"
      "take_felts lib out c2 n ''truncated public input'' = Inr (st_public_input s, c3)"
      "take_len lib out c3 ''missing public output length'' = Inr (m, c4)"
      "take_felts lib out c4 m ''truncated public output'' = Inr (st_public_output s, c5)"
      "c5 = length out"
    and sid: "unat sid = service_id (st_service s)" and valid: "statement_valid s"
    unfolding decode_statement_def
    by (fastforce simp: and_then_eq_Inr validate_statement_ok service_ids Let_def split: if_splits)
  from reads have
    at: "0 < length out" "fe_val (out ! 0) = unat sid"
      "1 < length out" "fe_val (out ! 1) = n" "2 + n \<le> length out"
      "2 + n < length out" "fe_val (out ! (2 + n)) = m" "3 + n + m = length out"
    and fs: "st_public_input s = map felt_of_nat (take n (drop 2 w))"
    and gs: "st_public_output s = map felt_of_nat (take m (drop (3 + n) w))"
    by (auto simp: take_u64_eq_Inr take_len_eq_Inr take_felts_eq_Inr w_def take_map drop_map
        numeral_2_eq_2 numeral_3_eq_3)
  define xs ys where "xs = take n (drop 2 w)" and "ys = take m (drop (3 + n) w)"
  from at have "w = unat sid # n # xs @ m # ys \<and> length xs = n \<and> length ys = m"
    unfolding two_arrays_iff xs_def ys_def by (auto simp: w_def)
  moreover have "\<forall>x \<in> set w. x < cairo_prime"
    using fe_val_less by (auto simp: w_def)
  ultimately show ?thesis
    using valid sid fs [folded xs_def] gs [folded ys_def]
    by (auto simp: statement_words_def serde_felts_def statement_felts_ok_def list_all_iff
        simp flip: w_def intro!: map_idI [symmetric])
qed

lemma decode_statement_complete:
  assumes words: "map fe_val out = statement_words s" and ok: "statement_felts_ok s"
    and valid: "statement_valid s"
  shows "decode_statement lib out = Inr s"
proof -
  define fs gs where "fs = st_public_input s" and "gs = st_public_output s"
  have felts: "map felt_of_nat (map felt_val fs) = fs" "map felt_of_nat (map felt_val gs) = gs"
    using ok by (auto simp: statement_felts_ok_def list_all_iff fs_def gs_def intro!: map_idI)
  define sid :: u64 where "sid = of_nat (service_id (st_service s))"
  have sid: "unat sid = service_id (st_service s)"
    by (cases "st_service s") (simp_all add: sid_def)
  define w where "w = map fe_val out"
  have "w = unat sid # length fs # map felt_val fs @ length gs # map felt_val gs
      \<and> length (map felt_val fs) = length fs \<and> length (map felt_val gs) = length gs"
    using words by (simp add: w_def statement_words_def serde_felts_def sid fs_def gs_def)
  note at = this [unfolded two_arrays_iff]
  have len: "length fs \<le> 3" "length gs = 1"
    using valid by (cases "st_output s"; simp add: statement_valid_def fs_def gs_def JobOutput_service_def)+
  have usize: "(2 :: nat) ^ 32 \<le> 2 ^ usize_bits lib"
    using usize_32 by (rule power_increasing) simp
  have nth: "i < length w \<Longrightarrow> fe_val (out ! i) = w ! i" "length out = length w" for i
    by (simp_all add: w_def)
  have small: "length fs + k < 2 ^ usize_bits lib" if "k < 2 ^ 31" for k
    using len(1) that usize by simp
  have "take_u64 lib out 0 e = Inr (sid, 1)"
    "take_len lib out 1 e = Inr (length fs, 2)"
    "take_len lib out (2 + length fs) e = Inr (1, 3 + length fs)" for e
    using at len small [of 0] usize by (auto simp: take_u64_eq_Inr take_len_eq_Inr nth)
  moreover have "take_felts lib out 2 (length fs) e = Inr (fs, 2 + length fs)"
    "take_felts lib out (3 + length fs) 1 e = Inr (gs, 4 + length fs)" for e
    using at len small [of 2] small [of 4] felts
    by (auto simp: take_felts_eq_Inr nth simp flip: take_map drop_map map_map w_def)
  moreover have "4 + length fs = length out"
    using at len by (simp add: w_def)
  moreover have "validate_statement s = Inr ()"
    using valid by (simp add: validate_statement_ok)
  ultimately show ?thesis
    using valid sid_def
    by (cases "st_output s"; cases s)
      (simp_all add: decode_statement_def service_ids statement_valid_def JobOutput_service_def
        decode_boolean_bool fs_def gs_def Let_def)
qed

lemma decode_statement_iff:
  "decode_statement lib out = Inr s \<longleftrightarrow>
     map fe_val out = statement_words s \<and> statement_felts_ok s \<and> statement_valid s"
  using decode_statement_sound decode_statement_complete by blast

end

context felt252_codec
begin

lemma felt252_eq: "felt_ok f \<Longrightarrow> \<exists>v. felt252 flib f = Inr v \<and> f_val v = felt_val f"
  using f_from_hex [of f] by (auto simp: felt252_def)

lemma felt252_list_eq:
  "list_all felt_ok fs \<Longrightarrow>
     \<exists>vs. collect_results (map (felt252 flib) fs) = Inr vs \<and> map f_val vs = map felt_val fs"
proof (induction fs)
  case (Cons f fs)
  then obtain v vs where "felt252 flib f = Inr v" "f_val v = felt_val f"
    "collect_results (map (felt252 flib) fs) = Inr vs" "map f_val vs = map felt_val fs"
    using felt252_eq [of f] by auto
  then show ?case by simp
qed simp

lemma encode_job_ok:
  assumes bounds: "input_bounds input" and ok: "job_felts_ok input"
  shows "\<exists>args. encode_job flib input = Inr args \<and> map f_val args = job_words input"
proof (cases input)
  case (InFibonacci n)
  with bounds show ?thesis
    by (simp add: encode_job_def validators job_words_def serde_felts_def service_ids
        JobInput_service_def f_val_u64 f_val_one f_val_zero JobInput_validate_eq)
next
  case (InHashVerify hash preimage)
  with ok obtain h p where "felt252 flib hash = Inr h" "f_val h = felt_val hash"
    "felt252 flib preimage = Inr p" "f_val p = felt_val preimage"
    using felt252_eq [of hash] felt252_eq [of preimage] by (auto simp: job_felts_ok_def)
  with InHashVerify show ?thesis
    by (simp add: encode_job_def job_words_def serde_felts_def service_ids
        JobInput_service_def f_val_u64 f_val_one JobInput_validate_eq)
next
  case (InMerkleProof root leaf path index)
  with ok obtain r l ps where "felt252 flib root = Inr r" "f_val r = felt_val root"
    "felt252 flib leaf = Inr l" "f_val l = felt_val leaf"
    "collect_results (map (felt252 flib) path) = Inr ps" "map f_val ps = map felt_val path"
    using felt252_eq [of root] felt252_eq [of leaf] felt252_list_eq [of path]
    by (auto simp: job_felts_ok_def)
  moreover have "JobInput_validate input = Inr ()"
    using bounds by (simp add: validators)
  moreover have "length path < 2 ^ 32"
    using bounds InMerkleProof by (simp add: index_fits_def)
  ultimately show ?thesis
    using InMerkleProof
    by (simp add: encode_job_def job_words_def serde_felts_def service_ids
        JobInput_service_def f_val_u64 f_val_usize)
qed

lemma encode_job_invalid:
  "JobInput_validate input = Inl e \<Longrightarrow> encode_job flib input = Inl (SE_InvalidInput e)"
  by (simp add: encode_job_def)

end

section \<open>The field types as numbers\<close>

text \<open>
  The instances the sources' conversions are meant to have: both field types are numbers
  below the prime, read modulo it, and \<open>from_hex\<close> reads the digits after \<open>0x\<close>.
\<close>

definition nat_field_lib :: "nat \<Rightarrow> nat field_lib" where
  "nat_field_lib width =
     \<lparr>to_bytes_be = (\<lambda>x. be_bytes 32 (x mod cairo_prime)), hex_encode = hex_of_bytes,
      usize_bits = width\<rparr>"

definition nat_felt252_lib :: "nat felt252_lib" where
  "nat_felt252_lib =
     \<lparr>f252_from_u64 = unat, f252_from_usize = id, f252_one = 1, f252_zero = 0,
      f252_from_hex = (\<lambda>s. case strip_prefix ''0x'' s of
         None \<Rightarrow> Inl ''missing 0x prefix''
       | Some digits \<Rightarrow>
           if list_all lower_hex_byte digits \<and> hex_val digits < cairo_prime
           then Inr (hex_val digits) else Inl ''invalid felt'')\<rparr>"

lemma nat_field_codec: "32 \<le> width \<Longrightarrow> field_codec (nat_field_lib width) (\<lambda>x. x mod cairo_prime)"
  by unfold_locales (simp_all add: nat_field_lib_def cairo_prime_def)

interpretation native_field: field_codec "nat_field_lib 64" "\<lambda>x. x mod cairo_prime"
  by (rule nat_field_codec) simp

interpretation browser_field: field_codec "nat_field_lib 32" "\<lambda>x. x mod cairo_prime"
  by (rule nat_field_codec) simp

interpretation nat_felt252: felt252_codec nat_felt252_lib id
proof
  fix f assume "felt_ok f"
  then obtain ds where "as_str f = ''0x'' @ ds" "list_all lower_hex_byte ds" "hex_val ds < cairo_prime"
    by (auto simp: felt_ok_iff)
  then show "\<exists>v. f252_from_hex nat_felt252_lib (as_str f) = Inr v \<and> id v = felt_val f"
    by (simp add: nat_felt252_lib_def felt_val_def strip_prefix_def)
qed (simp_all add: nat_felt252_lib_def)

section \<open>Properties\<close>

text \<open>C7: decoding the proven output is exact: the words of an output segment decode to a
  statement if and only if they are the Serde form of that statement (service id, public
  inputs and public outputs, each array with its length, and nothing after them), its
  field elements are canonical, and it is internally consistent. No two word sequences
  decode to the same statement and no word is ignored.\<close>

theorem decode_statement_exact:
  assumes "field_codec lib fe_val"
  shows "decode_statement lib out = Inr s \<longleftrightarrow>
    map fe_val out = statement_words s \<and> statement_felts_ok s \<and> statement_valid s"
  using field_codec.decode_statement_iff [OF assms] .

definition example_statement :: ProofStatement where
  "example_statement =
     \<lparr>st_service = Fibonacci, st_program = CAIRO_PROGRAM, st_public_input = [FeltHex_from_u64 10],
      st_public_output = [FeltHex_from_u64 55], st_output = OutFibonacci (FeltHex_from_u64 55)\<rparr>"

lemma example_statement_ok:
  "statement_valid example_statement" "statement_felts_ok example_statement"
  "statement_words example_statement = [1, 1, 10, 1, 55]"
  by (simp_all add: statement_valid_def statement_felts_ok_def statement_words_def serde_felts_def
      example_statement_def JobOutput_service_def)

theorem decode_statement_exact_witness:
  "decode_statement (nat_field_lib 64) [1, 1, 10, 1, 55] = Inr example_statement \<and>
   decode_statement (nat_field_lib 64) [1, 1, 10, 1, 55, 0] \<noteq> Inr example_statement"
  using decode_statement_exact [OF nat_field_codec [of 64]] example_statement_ok
  by (simp add: cairo_prime_def)

text \<open>The service-specific checks shared by the native and the browser verifier accept
  exactly the statements the core validator accepts, and every rejection is the core
  validator's: the second match of \<open>validate_statement\<close> never rejects anything.\<close>

theorem validate_statement_is_core_validation:
  "validate_statement s =
     map_err (\<lambda>_. SE_InvalidStatement ''core statement validation failed'') (ProofStatement_validate s)"
proof (cases "ProofStatement_validate s")
  case (Inr u)
  then have "statement_valid s" by (simp add: ProofStatement_validate_ok)
  then have "validate_statement s = Inr ()" by (simp add: validate_statement_ok)
  with Inr show ?thesis by simp
qed (simp add: validate_statement_def)

text \<open>C30: a job whose field elements are canonical is flattened to the Serde words of its
  service id, its public inputs and its private inputs if its bounds hold, and is
  rejected with the core validator's error otherwise.\<close>

theorem encode_job_correct:
  assumes "felt252_codec flib f_val" and "job_felts_ok input"
  shows "case encode_job flib input of
           Inr args \<Rightarrow> input_bounds input \<and> map f_val args = job_words input
         | Inl e \<Rightarrow> \<exists>v. JobInput_validate input = Inl v \<and> e = SE_InvalidInput v"
proof (cases "JobInput_validate input")
  case (Inl v)
  with felt252_codec.encode_job_invalid [OF assms(1) Inl] show ?thesis by simp
next
  case (Inr u)
  then have "input_bounds input" by (simp add: validators)
  then obtain args where "encode_job flib input = Inr args" "map f_val args = job_words input"
    using felt252_codec.encode_job_ok [OF assms(1)] assms(2) by blast
  with \<open>input_bounds input\<close> show ?thesis by simp
qed

theorem encode_job_correct_witness:
  "encode_job nat_felt252_lib (InMerkleProof (FeltHex_from_u64 5) (FeltHex_from_u64 6) [FeltHex_from_u64 7] 1) =
     Inr [3, 3, 5, 6, 1, 1, 7]"
proof -
  let ?job = "InMerkleProof (FeltHex_from_u64 5) (FeltHex_from_u64 6) [FeltHex_from_u64 7] 1"
  have "job_felts_ok ?job" by (simp add: job_felts_ok_def)
  moreover have "JobInput_validate ?job = Inr ()" by (simp add: validators index_fits_def)
  moreover have "job_words ?job = [3, 3, 5, 6, 1, 1, 7]"
    by (simp add: job_words_def serde_felts_def JobInput_service_def)
  ultimately show ?thesis
    using encode_job_correct [OF nat_felt252.felt252_codec_axioms, of ?job]
    by (cases "encode_job nat_felt252_lib ?job") simp_all
qed

end
