(* ===== verification/Decimal.thy ===== *)
theory Decimal
  imports Prelude
begin

text \<open>
  Decimal text of unsigned integers as the Rust standard library prints and reads it:
  \<open>u64::to_string\<close> and \<open>str::parse::<u64>\<close>, which allows a leading plus sign and leading
  zeros, rejects the empty string and stray bytes, and fails on overflow.
\<close>

definition dec_char :: "nat \<Rightarrow> char" where
  "dec_char d = char_of (48 + d)"

definition dec_digit_val :: "char \<Rightarrow> nat" where
  "dec_digit_val c = of_char c - 48"

fun dec_string :: "nat \<Rightarrow> string" where
  "dec_string n = (if n < 10 then [dec_char n] else dec_string (n div 10) @ [dec_char (n mod 10)])"

declare dec_string.simps [simp del]

definition u64_to_string :: "u64 \<Rightarrow> string" where
  "u64_to_string v = dec_string (unat v)"

text \<open>The digit loop, failing as soon as the value no longer fits (\<open>checked_mul\<close>,
  \<open>checked_add\<close>).\<close>

fun parse_digits :: "nat \<Rightarrow> nat \<Rightarrow> string \<Rightarrow> nat option" where
  "parse_digits limit acc [] = Some acc"
| "parse_digits limit acc (c # cs) =
     (if \<not> is_ascii_digit c then None
      else if limit \<le> acc * 10 + dec_digit_val c then None
      else parse_digits limit (acc * 10 + dec_digit_val c) cs)"

definition parse_unsigned :: "nat \<Rightarrow> string \<Rightarrow> nat option" where
  "parse_unsigned limit s =
     (case s of
        [] \<Rightarrow> None
      | c # cs \<Rightarrow>
          if c = CHR ''+'' then (if cs = [] then None else parse_digits limit 0 cs)
          else parse_digits limit 0 (c # cs))"

definition parse_u64 :: "string \<Rightarrow> u64 option" where
  "parse_u64 s = map_option of_nat (parse_unsigned (2 ^ 64) s)"

section \<open>Round trip\<close>

lemma dec_char_digit [simp]: "d < 10 \<Longrightarrow> is_ascii_digit (dec_char d)"
  by (simp add: dec_char_def is_ascii_digit_iff)

lemma dec_digit_val_char [simp]: "d < 10 \<Longrightarrow> dec_digit_val (dec_char d) = d"
  by (simp add: dec_char_def dec_digit_val_def)

lemma dec_char_plus [simp]: "d < 10 \<Longrightarrow> dec_char d \<noteq> CHR ''+''"
  using dec_char_digit [of d] by (auto simp: is_ascii_digit_def simp del: dec_char_digit)

lemma parse_digits_append:
  "parse_digits limit acc (xs @ ys) =
     (case parse_digits limit acc xs of None \<Rightarrow> None | Some a \<Rightarrow> parse_digits limit a ys)"
  by (induction xs arbitrary: acc) simp_all

lemma parse_digits_dec_string: "n < limit \<Longrightarrow> parse_digits limit 0 (dec_string n) = Some n"
proof (induction n rule: dec_string.induct)
  case (1 n)
  show ?case
  proof (cases "n < 10")
    case True
    with 1 show ?thesis by (simp add: dec_string.simps [of n])
  next
    case False
    with 1 have "parse_digits limit 0 (dec_string (n div 10)) = Some (n div 10)"
      by (meson div_le_dividend le_less_trans)
    with False 1 show ?thesis
      by (simp add: dec_string.simps [of n] parse_digits_append)
  qed
qed

lemma dec_string_Cons: "\<exists>d cs. d < 10 \<and> dec_string n = dec_char d # cs"
proof (induction n rule: dec_string.induct)
  case (1 n)
  show ?case
  proof (cases "n < 10")
    case True
    then show ?thesis by (auto simp: dec_string.simps [of n])
  next
    case False
    with 1 obtain d cs where "d < 10" "dec_string (n div 10) = dec_char d # cs" by blast
    with False show ?thesis by (auto simp: dec_string.simps [of n])
  qed
qed

lemma parse_unsigned_dec_string: "n < limit \<Longrightarrow> parse_unsigned limit (dec_string n) = Some n"
  using parse_digits_dec_string [of n limit] dec_string_Cons [of n]
  by (auto simp: parse_unsigned_def)

lemma parse_u64_to_string [simp]: "parse_u64 (u64_to_string v) = Some v"
  by (simp add: parse_u64_def u64_to_string_def parse_unsigned_dec_string)

lemma parse_digits_less: "parse_digits limit acc s = Some n \<Longrightarrow> acc < limit \<Longrightarrow> n < limit"
  by (induction s arbitrary: acc) (auto split: if_splits)

lemma u64_to_string_inject [simp]: "u64_to_string a = u64_to_string b \<longleftrightarrow> a = b"
  by (metis option.inject parse_u64_to_string)

end
