(* ===== verification/Verifier.thy ===== *)
theory Verifier
  imports Statement Decimal
begin

text \<open>
  \<open>crates/soul-prover/src/verifier.rs\<close>: the size bound, the pinned parameters, the
  cryptographic verification and the binding of the verified output to the trusted program
  hash and the expected statement.

  The STWO verifier is not part of the repository. The calls the code makes are the
  fields of \<open>stwo_lib\<close>, which extends the conversions of \<open>Statement\<close>; a call under
  \<open>catch_unwind\<close> returns a value or unwinds.
\<close>

section \<open>Definitions\<close>

datatype 'a unwind = Returned 'a | Panicked

definition catch_unwind :: "'a unwind \<Rightarrow> (unit, 'a) result" where
  "catch_unwind call = (case call of Returned a \<Rightarrow> Inr a | Panicked \<Rightarrow> Inl ())"

record FriConfig =
  log_last_layer_degree_bound :: nat
  log_blowup_factor :: nat
  n_queries :: nat
  fold_step :: nat

record PcsConfig =
  pow_bits :: nat
  fri_config :: FriConfig
  lifting_log_size :: "nat option"

record 'fe VerificationOutput =
  vo_program_hash :: 'fe
  vo_output :: "'fe list"

record ('fe, 'proof, 'memory, 'variant) stwo_lib = "'fe field_lib" +
  proof_from_slice :: "bytes \<Rightarrow> (string, 'proof) result"
  stark_config :: "'proof \<Rightarrow> PcsConfig"
  preprocessed_trace_variant :: "'proof \<Rightarrow> 'variant"
  canonical_variant :: 'variant
  verify_cairo :: "'proof \<Rightarrow> (string, unit) result unwind"
  public_memory :: "'proof \<Rightarrow> 'memory"
  get_verification_output :: "'memory \<Rightarrow> 'fe VerificationOutput unwind"

record VerifiedPublicData =
  vp_program_hash :: FeltHex
  vp_statement :: ProofStatement

datatype VerificationError =
    ProofTooLarge u64
  | MalformedProof string
  | InvalidProof
  | UnsupportedProofProfile
  | InvalidExpectedProgramHash
  | ProgramHashMismatch FeltHex FeltHex  \<comment> \<open>expected, actual\<close>
  | StatementMismatch
  | VE_InvalidStatement StatementError

definition required_pcs_config :: PcsConfig where
  "required_pcs_config =
     \<lparr>pow_bits = 26,
      fri_config =
        \<lparr>log_last_layer_degree_bound = 0, log_blowup_factor = 1, n_queries = 70, fold_step = 1\<rparr>,
      lifting_log_size = None\<rparr>"

definition validate_proof_profile ::
  "('fe, 'proof, 'memory, 'variant, 'x) stwo_lib_scheme \<Rightarrow> PcsConfig \<Rightarrow> 'variant \<Rightarrow>
   (VerificationError, unit) result" where
  "validate_proof_profile lib config variant =
     (if config \<noteq> required_pcs_config \<or> variant \<noteq> canonical_variant lib
      then Inl UnsupportedProofProfile else Inr ())"

definition verify_and_decode ::
  "('fe, 'proof, 'memory, 'variant, 'x) stwo_lib_scheme \<Rightarrow> bytes \<Rightarrow>
   (VerificationError, VerifiedPublicData) result" where
  "verify_and_decode lib proof_json =
     (if length proof_json > unat MAX_PROOF_BYTES then Inl (ProofTooLarge MAX_PROOF_BYTES)
      else
        and_then (map_err MalformedProof (proof_from_slice lib proof_json)) (\<lambda>proof.
        and_then (validate_proof_profile lib (stark_config lib proof) (preprocessed_trace_variant lib proof)) (\<lambda>_.
        and_then (map_err (\<lambda>_. InvalidProof) (catch_unwind (verify_cairo lib proof))) (\<lambda>verification.
        and_then (map_err (\<lambda>_. InvalidProof) verification) (\<lambda>_.
        and_then (map_err (\<lambda>_. InvalidProof)
          (catch_unwind (get_verification_output lib (public_memory lib proof)))) (\<lambda>public_data.
        and_then (map_err VE_InvalidStatement (field_to_felt lib (vo_program_hash public_data))) (\<lambda>program_hash.
        and_then (map_err VE_InvalidStatement (decode_statement lib (vo_output public_data))) (\<lambda>statement.
        Inr \<lparr>vp_program_hash = program_hash, vp_statement = statement\<rparr>))))))))"

definition verify_serialized ::
  "('fe, 'proof, 'memory, 'variant, 'x) stwo_lib_scheme \<Rightarrow> bytes \<Rightarrow> string \<Rightarrow> ProofStatement \<Rightarrow>
   (VerificationError, unit) result" where
  "verify_serialized lib proof_json expected_hash expected_statement =
     and_then (map_err (\<lambda>_. InvalidExpectedProgramHash) (FeltHex_parse expected_hash)) (\<lambda>expected_program_hash.
     and_then (map_err VE_InvalidStatement (validate_statement expected_statement)) (\<lambda>_.
     and_then (verify_and_decode lib proof_json) (\<lambda>verified.
     if vp_program_hash verified \<noteq> expected_program_hash
     then Inl (ProgramHashMismatch expected_program_hash (vp_program_hash verified))
     else if vp_statement verified \<noteq> expected_statement then Inl StatementMismatch
     else Inr ())))"

section \<open>Acceptance\<close>

text \<open>
  The proof passed every check that does not depend on what the caller expects, and its
  public memory reads as the given output.
\<close>

definition stark_accepts ::
  "('fe, 'proof, 'memory, 'variant, 'x) stwo_lib_scheme \<Rightarrow> bytes \<Rightarrow> 'fe VerificationOutput \<Rightarrow> bool" where
  "stark_accepts lib proof_json out \<longleftrightarrow>
     length proof_json \<le> 33554432 \<and>
     (\<exists>proof. proof_from_slice lib proof_json = Inr proof \<and>
        stark_config lib proof = required_pcs_config \<and>
        preprocessed_trace_variant lib proof = canonical_variant lib \<and>
        verify_cairo lib proof = Returned (Inr ()) \<and>
        get_verification_output lib (public_memory lib proof) = Returned out)"

lemma catch_unwind_simps [simp]:
  "catch_unwind (Returned a) = Inr a" "catch_unwind Panicked = Inl ()"
  by (simp_all add: catch_unwind_def)

lemma catch_unwind_eq_Inr [simp]: "catch_unwind call = Inr a \<longleftrightarrow> call = Returned a"
  by (cases call) simp_all

lemma validate_proof_profile_ok [validators]:
  "validate_proof_profile lib config variant = Inr () \<longleftrightarrow>
     config = required_pcs_config \<and> variant = canonical_variant lib"
  by (simp add: validate_proof_profile_def)

lemma verify_and_decode_eq_Inr:
  "verify_and_decode lib proof_json = Inr data \<longleftrightarrow>
     (\<exists>out. stark_accepts lib proof_json out \<and>
        field_to_felt lib (vo_program_hash out) = Inr (vp_program_hash data) \<and>
        decode_statement lib (vo_output out) = Inr (vp_statement data))"
proof -
  have bytes: "unat MAX_PROOF_BYTES = 33554432" by (simp add: constants)
  show ?thesis
    unfolding verify_and_decode_def stark_accepts_def bytes
    by (cases data) (auto simp: and_then_eq_Inr validators)
qed

lemma verify_serialized_eq_Inr:
  "verify_serialized lib proof_json h s = Inr () \<longleftrightarrow>
     felt_ok (FeltHex h) \<and> statement_valid s \<and>
     verify_and_decode lib proof_json = Inr \<lparr>vp_program_hash = FeltHex h, vp_statement = s\<rparr>"
proof (cases "FeltHex_parse h")
  case (Inl e)
  then have "\<not> felt_ok (FeltHex h)" by (auto simp: felt_ok_def)
  with Inl show ?thesis by (simp add: verify_serialized_def)
next
  case (Inr f)
  moreover from this have "f = FeltHex h" "felt_ok (FeltHex h)"
    by (simp_all add: FeltHex_parse_eq_Inr felt_ok_def)
  moreover have "data = \<lparr>vp_program_hash = a, vp_statement = b\<rparr> \<longleftrightarrow>
      vp_program_hash data = a \<and> vp_statement data = b" for data :: VerifiedPublicData and a b
    by (cases data) simp
  ultimately show ?thesis
    by (cases "verify_and_decode lib proof_json")
      (auto simp: verify_serialized_def and_then_eq_Inr validators)
qed

locale stwo_codec = field_codec lib fe_val
  for lib :: "('fe, 'proof, 'memory, 'variant, 'x) stwo_lib_scheme" and fe_val
begin

lemma verify_and_decode_iff:
  "verify_and_decode lib proof_json = Inr data \<longleftrightarrow>
     (\<exists>out. stark_accepts lib proof_json out \<and>
        vp_program_hash data = felt_of_nat (fe_val (vo_program_hash out)) \<and>
        map fe_val (vo_output out) = statement_words (vp_statement data) \<and>
        statement_felts_ok (vp_statement data) \<and> statement_valid (vp_statement data))"
  by (auto simp: verify_and_decode_eq_Inr field_to_felt_eq decode_statement_iff)

lemma verify_and_decode_branches:
  "verify_and_decode lib json =
     (if 33554432 < length json then Inl (ProofTooLarge MAX_PROOF_BYTES)
      else case proof_from_slice lib json of
        Inl m \<Rightarrow> Inl (MalformedProof m)
      | Inr p \<Rightarrow>
          if stark_config lib p \<noteq> required_pcs_config
             \<or> preprocessed_trace_variant lib p \<noteq> canonical_variant lib
          then Inl UnsupportedProofProfile
          else if verify_cairo lib p \<noteq> Returned (Inr ()) then Inl InvalidProof
          else case get_verification_output lib (public_memory lib p) of
            Panicked \<Rightarrow> Inl InvalidProof
          | Returned out \<Rightarrow>
              (case decode_statement lib (vo_output out) of
                 Inl e \<Rightarrow> Inl (VE_InvalidStatement e)
               | Inr s \<Rightarrow> Inr \<lparr>vp_program_hash = felt_of_nat (fe_val (vo_program_hash out)),
                                vp_statement = s\<rparr>))"
proof -
  have bytes: "unat MAX_PROOF_BYTES = 33554432" by (simp add: constants)
  have rejected: "r \<noteq> Inr () \<Longrightarrow> and_then (map_err (\<lambda>_. InvalidProof) r) f = Inl InvalidProof"
    for r :: "(string, unit) result" and f :: "unit \<Rightarrow> (VerificationError, VerifiedPublicData) result"
    by (cases r) simp_all
  show ?thesis
    unfolding verify_and_decode_def bytes
    by (auto simp: validate_proof_profile_def field_to_felt_eq catch_unwind_def rejected
        split: sum.split unwind.split)
qed

lemma verify_serialized_iff:
  "verify_serialized lib proof_json h s = Inr () \<longleftrightarrow>
     (\<exists>out. stark_accepts lib proof_json out \<and>
        FeltHex h = felt_of_nat (fe_val (vo_program_hash out)) \<and>
        map fe_val (vo_output out) = statement_words s \<and> statement_felts_ok s \<and> statement_valid s)"
  by (auto simp: verify_serialized_eq_Inr verify_and_decode_iff fe_val_less)

end

section \<open>An instance\<close>

text \<open>
  A proof of the instance lists the words of its public memory in decimal-free form, one
  byte each: the program hash and the output. It is accepted if it starts with the byte 1,
  rejected if it starts with 0, and unwinds otherwise; an empty string does not parse.
\<close>

definition example_stwo :: "nat \<Rightarrow> (nat, bytes, bytes, bool) stwo_lib" where
  "example_stwo width =
     \<lparr>to_bytes_be = to_bytes_be (nat_field_lib width), hex_encode = hex_encode (nat_field_lib width),
      usize_bits = width,
      proof_from_slice = (\<lambda>bs. if bs = [] then Inl ''EOF while parsing'' else Inr bs),
      stark_config = (\<lambda>_. required_pcs_config),
      preprocessed_trace_variant = (\<lambda>_. True),
      canonical_variant = True,
      verify_cairo = (\<lambda>bs. if hd bs = 1 then Returned (Inr ())
        else if hd bs = 0 then Returned (Inl ''InvalidProof'') else Panicked),
      public_memory = tl,
      get_verification_output = (\<lambda>bs. case map unat bs of [] \<Rightarrow> Panicked
        | h # out \<Rightarrow> Returned \<lparr>vo_program_hash = h, vo_output = out\<rparr>)\<rparr>"

lemma example_stwo_codec: "32 \<le> width \<Longrightarrow> stwo_codec (example_stwo width) (\<lambda>x. x mod cairo_prime)"
  by unfold_locales (simp_all add: example_stwo_def nat_field_lib_def cairo_prime_def)

interpretation example_native: stwo_codec "example_stwo 64" "\<lambda>x. x mod cairo_prime"
  by (rule example_stwo_codec) simp

section \<open>Properties\<close>

text \<open>C8: a serialized proof is accepted for a program hash and a statement exactly when it
  is at most 32 MiB long, parses, carries the pinned 96-bit parameters and the canonical
  trace variant, is accepted by STWO without unwinding, its program hash is the trusted
  one, and its output words are the Serde form of the expected statement, which is
  consistent.\<close>

theorem verify_serialized_exact:
  assumes "stwo_codec lib fe_val"
  shows "verify_serialized lib proof_json h s = Inr () \<longleftrightarrow>
    (\<exists>out. stark_accepts lib proof_json out \<and>
       FeltHex h = felt_of_nat (fe_val (vo_program_hash out)) \<and>
       map fe_val (vo_output out) = statement_words s \<and> statement_felts_ok s \<and> statement_valid s)"
  using stwo_codec.verify_serialized_iff [OF assms] .

lemma example_accepts:
  "stark_accepts (example_stwo w) [1, 9, 1, 1, 10, 1, 55]
     \<lparr>vo_program_hash = 9, vo_output = [1, 1, 10, 1, 55]\<rparr>"
  by (simp add: stark_accepts_def example_stwo_def)

theorem verify_serialized_exact_witness:
  "verify_serialized (example_stwo 64) [1, 9, 1, 1, 10, 1, 55] (as_str (FeltHex_from_u64 9))
     example_statement = Inr ()"
proof -
  have "map (\<lambda>x. x mod cairo_prime) [1, 1, 10, 1, 55] = statement_words example_statement"
    by (simp add: example_statement_ok cairo_prime_def)
  moreover have "FeltHex (as_str (FeltHex_from_u64 9)) = felt_of_nat (9 mod cairo_prime)"
    by (simp add: FeltHex_from_u64_eq cairo_prime_def)
  ultimately show ?thesis
    using verify_serialized_exact [OF example_native.stwo_codec_axioms] example_accepts
      example_statement_ok(1,2)
    by (metis VerificationOutput.select_convs)
qed

text \<open>A proof speaks for one program and one statement: if the same bytes are accepted
  for two pairs of a program hash and a statement, the pairs are equal.\<close>

theorem verified_binding:
  assumes "verify_serialized lib proof_json h s = Inr ()"
    and "verify_serialized lib proof_json h' s' = Inr ()"
  shows "h = h' \<and> s = s'"
  using assms by (auto simp: verify_serialized_eq_Inr)

lemma example_verified:
  "verify_serialized (example_stwo 64) [1, 9, 1, 1, 10, 1, 55] (as_str (FeltHex_from_u64 9))
     example_statement = Inr ()"
  unfolding example_native.verify_serialized_iff
  using example_accepts example_statement_ok
  by (intro exI [of _ "\<lparr>vo_program_hash = 9, vo_output = [1, 1, 10, 1, 55]\<rparr>"])
    (simp add: cairo_prime_def FeltHex_from_u64_eq)

theorem verified_binding_witness:
  "verify_serialized (example_stwo 64) [1, 9, 1, 1, 10, 1, 55] (as_str (FeltHex_from_u64 8))
     example_statement \<noteq> Inr ()"
proof
  assume "verify_serialized (example_stwo 64) [1, 9, 1, 1, 10, 1, 55] (as_str (FeltHex_from_u64 8))
     example_statement = Inr ()"
  from verified_binding [OF this example_verified] have "FeltHex_from_u64 8 = FeltHex_from_u64 9"
    by (intro FeltHex.expand) simp
  then show False by simp
qed

text \<open>C34: every rejection of \<open>verify_and_decode\<close> has its cause: too many bytes, whatever
  they are; bytes that do not parse; other parameters or another trace variant, whatever
  the verifier would say; a verifier that rejects or unwinds; or accepted output that is not
  a statement. In particular a panic is reported as \<open>InvalidProof\<close>, and the program hash
  read from the proof is always canonical.\<close>

theorem verify_and_decode_rejections:
  assumes "stwo_codec lib fe_val"
  shows "case verify_and_decode lib json of
      Inr data \<Rightarrow> \<exists>out. stark_accepts lib json out \<and> decode_statement lib (vo_output out) = Inr (vp_statement data)
        \<and> felt_ok (vp_program_hash data) \<and> felt_val (vp_program_hash data) = fe_val (vo_program_hash out)
    | Inl (ProofTooLarge n) \<Rightarrow> n = MAX_PROOF_BYTES \<and> 33554432 < length json
    | Inl (MalformedProof m) \<Rightarrow> length json \<le> 33554432 \<and> proof_from_slice lib json = Inl m
    | Inl UnsupportedProofProfile \<Rightarrow> length json \<le> 33554432 \<and>
        (\<exists>p. proof_from_slice lib json = Inr p \<and>
          (stark_config lib p \<noteq> required_pcs_config \<or> preprocessed_trace_variant lib p \<noteq> canonical_variant lib))
    | Inl InvalidProof \<Rightarrow> length json \<le> 33554432 \<and>
        (\<exists>p. proof_from_slice lib json = Inr p \<and> stark_config lib p = required_pcs_config \<and>
          preprocessed_trace_variant lib p = canonical_variant lib \<and>
          (verify_cairo lib p \<noteq> Returned (Inr ()) \<or>
           get_verification_output lib (public_memory lib p) = Panicked))
    | Inl (VE_InvalidStatement e) \<Rightarrow>
        \<exists>out. stark_accepts lib json out \<and> decode_statement lib (vo_output out) = Inl e
    | Inl _ \<Rightarrow> False"
  unfolding stwo_codec.verify_and_decode_branches [OF assms]
  using field_codec.fe_val_less [OF stwo_codec.axioms [OF assms]]
  by (auto simp: stark_accepts_def not_less split: sum.split unwind.split)

theorem verify_and_decode_rejections_witness:
  "verify_and_decode (example_stwo 64) [] = Inl (MalformedProof ''EOF while parsing'') \<and>
   verify_and_decode (example_stwo 64) [2, 9] = Inl InvalidProof"
proof -
  have "verify_and_decode (example_stwo 64) [2, 9] = Inl InvalidProof"
    by (simp add: verify_and_decode_def example_stwo_def validate_proof_profile_def constants)
  moreover have "verify_and_decode (example_stwo 64) [] \<noteq> Inr data"
    "verify_and_decode (example_stwo 64) [] = Inl e \<Longrightarrow> e = MalformedProof ''EOF while parsing''" for data e
    using verify_and_decode_rejections [OF example_native.stwo_codec_axioms, of "[]"]
    by (cases e; auto simp: stark_accepts_def example_stwo_def)+
  ultimately show ?thesis
    by (cases "verify_and_decode (example_stwo 64) []") auto
qed

end
