(* ===== verification/Executor.thy ===== *)
theory Executor
  imports Prelude
begin

text \<open>
  \<open>crates/soul-prover/src/executor.rs\<close>: loading the Cairo executable, running it in proof
  mode and adapting its trace. The Cairo compiler, the VM and the STWO adapter are the
  fields of \<open>exec_lib\<close>; the executable is the part of its JSON the code reads.
\<close>

section \<open>Definitions\<close>

datatype ExecutionError =
    Open string string  \<comment> \<open>path, source\<close>
  | InvalidExecutable string
  | MissingEntrypoint
  | CairoVm string
  | TraceAdaptation string

record 'builtin entrypoint =
  ep_standalone :: bool
  ep_builtins :: "'builtin list"
  ep_offset :: nat

record ('hint, 'builtin) executable =
  exe_bytecode :: "int list"
  exe_hints :: "(nat \<times> 'hint list) list"
  exe_entrypoints :: "'builtin entrypoint list"

record CairoRunConfig =
  trace_enabled :: bool
  relocate_trace :: bool
  layout :: string
  fill_holes :: bool
  proof_mode :: bool
  disable_trace_padding :: bool

text \<open>The arguments of \<open>Program::new_for_proof\<close> that are not default values.\<close>

record ('builtin, 'f, 'hints) proof_program =
  pp_builtins :: "'builtin list"
  pp_data :: "'f list"
  pp_start :: nat
  pp_end :: nat
  pp_hints :: 'hints

text \<open>The hint processor: its arguments are one array argument.\<close>

record ('f, 'table) hint_processor =
  hp_user_args :: "'f list list list"
  hp_string_to_hint :: 'table

record ('hint, 'builtin, 'f, 'hints, 'table, 'program, 'runner, 'input, 'file) exec_lib =
  file_open :: "string \<Rightarrow> (string, 'file) result"
  executable_from_reader :: "'file \<Rightarrow> (string, ('hint, 'builtin) executable) result"
  felt_from_bigint :: "int \<Rightarrow> 'f"
  build_hints_dict :: "(nat \<times> 'hint list) list \<Rightarrow> 'hints \<times> 'table"
  new_for_proof :: "('builtin, 'f, 'hints) proof_program \<Rightarrow> (string, 'program) result"
  cairo_run :: "'program \<Rightarrow> CairoRunConfig \<Rightarrow> ('f, 'table) hint_processor \<Rightarrow> (string, 'runner) result"
  adapt_trace :: "'runner \<Rightarrow> (string, 'input) result"
  set_segment_context :: "'builtin list \<Rightarrow> 'input \<Rightarrow> 'input"

definition program_and_hints ::
  "('hint, 'builtin, 'f, 'hints, 'table, 'program, 'runner, 'input, 'file, 'x) exec_lib_scheme \<Rightarrow>
   ('hint, 'builtin) executable \<Rightarrow> 'f list \<Rightarrow>
   (ExecutionError, 'program \<times> ('f, 'table) hint_processor \<times> 'builtin list) result" where
  "program_and_hints lib exe arguments =
     (let data = map (felt_from_bigint lib) (exe_bytecode exe);
          (hints, string_to_hint) = build_hints_dict lib (exe_hints exe)
      in
        and_then (ok_or MissingEntrypoint (find ep_standalone (exe_entrypoints exe))) (\<lambda>entrypoint.
        let builtins = ep_builtins entrypoint in
        and_then (map_err InvalidExecutable (new_for_proof lib
          \<lparr>pp_builtins = builtins, pp_data = data, pp_start = ep_offset entrypoint,
           pp_end = ep_offset entrypoint + 4, pp_hints = hints\<rparr>)) (\<lambda>program.
        Inr (program, \<lparr>hp_user_args = [[arguments]], hp_string_to_hint = string_to_hint\<rparr>, builtins))))"

definition run_config :: CairoRunConfig where
  "run_config =
     \<lparr>trace_enabled = True, relocate_trace = False, layout = ''all_cairo_stwo'', fill_holes = True,
      proof_mode = True, disable_trace_padding = True\<rparr>"

definition execute_and_adapt ::
  "('hint, 'builtin, 'f, 'hints, 'table, 'program, 'runner, 'input, 'file, 'x) exec_lib_scheme \<Rightarrow>
   string \<Rightarrow> 'f list \<Rightarrow> (ExecutionError, 'input) result" where
  "execute_and_adapt lib path flattened_arguments =
     and_then (map_err (Open path) (file_open lib path)) (\<lambda>file.
     and_then (map_err InvalidExecutable (executable_from_reader lib file)) (\<lambda>exe.
     and_then (program_and_hints lib exe flattened_arguments) (\<lambda>(program, hint_processor, builtins).
     and_then (map_err CairoVm (cairo_run lib program run_config hint_processor)) (\<lambda>runner.
     and_then (map_err TraceAdaptation (adapt_trace lib runner)) (\<lambda>input.
     Inr (set_segment_context lib builtins input))))))"

end
