(* ===== verification/Prover.thy ===== *)
theory Prover
  imports Verifier Executor
begin

text \<open>
  \<open>crates/soul-prover/src/prover.rs\<close>: the engine that pins the executable's digest, runs and
  proves a job with up to eight channel salts, and verifies its own proof before returning
  it. The prover, the serialisation of proofs, the file system and SHA-256 are parameters;
  the three time measurements are arguments.
\<close>

section \<open>Definitions\<close>

record VerifiedProofArtifact =
  va_proof_bytes :: bytes
  va_statement :: ProofStatement
  va_program_hash :: FeltHex
  va_metrics :: JobMetrics

datatype ProverError =
    MissingExecutable string
  | ExecutableRead string string  \<comment> \<open>path, source\<close>
  | InvalidExecutableDigest
  | ExecutableDigestMismatch string string  \<comment> \<open>expected, actual\<close>
  | PE_Statement StatementError
  | PE_Execution ExecutionError
  | PE_Proving string
  | PE_Serialization string
  | PE_ProofTooLarge
  | PE_Verification VerificationError

record 'variant ProverParameters =
  channel_hash :: string
  channel_salt :: u32
  pcs_config :: PcsConfig
  preprocessed_trace :: 'variant
  store_polynomials_coefficients :: bool
  include_all_preprocessed_columns :: bool

text \<open>
  The types of the Cairo VM that only pass through are type parameters of the library, which
  the definitions below leave to inference.
\<close>

record ('fe, 'proof, 'memory, 'variant, 'hint, 'builtin, 'f, 'hints, 'table, 'program, 'runner, 'input,
    'file, 'cproof) prover_lib =
  "('fe, 'proof, 'memory, 'variant) stwo_lib" +
  felt252_ops :: "'f felt252_lib"
  exec_ops :: "('hint, 'builtin, 'f, 'hints, 'table, 'program, 'runner, 'input, 'file) exec_lib"
  prove_cairo :: "'input \<Rightarrow> 'variant ProverParameters \<Rightarrow> (string, 'cproof) result unwind"
  proof_from_cairo :: "'cproof \<Rightarrow> 'proof"
  proof_to_vec :: "'proof \<Rightarrow> (string, bytes) result"

definition production_parameters ::
  "('fe, 'proof, 'memory, 'variant, 'x) stwo_lib_scheme \<Rightarrow> u32 \<Rightarrow> 'variant ProverParameters" where
  "production_parameters lib salt =
     \<lparr>channel_hash = ''Blake2s'', channel_salt = salt, pcs_config = required_pcs_config,
      preprocessed_trace = canonical_variant lib, store_polynomials_coefficients = False,
      include_all_preprocessed_columns = False\<rparr>"

text \<open>The loop over the salts \<open>0..8\<close> threads the last error.\<close>

fun salt_loop where
  "salt_loop lib input [] last_error = Inl (PE_Proving last_error)"
| "salt_loop lib input (salt # salts) last_error =
     (case catch_unwind (prove_cairo lib input (production_parameters lib salt)) of
        Inr (Inr proof) \<Rightarrow> Inr proof
      | Inr (Inl error) \<Rightarrow> salt_loop lib input salts error
      | Inl _ \<Rightarrow> salt_loop lib input salts
          (''prover panicked for channel salt '' @ dec_string (unat salt)))"

definition prove_with_salt_retries where
  "prove_with_salt_retries lib input =
     salt_loop lib input [0, 1, 2, 3, 4, 5, 6, 7] ''prover rejected every channel salt''"

definition elapsed_ms :: "nat \<Rightarrow> u64" where
  "elapsed_ms millis = (if millis < 2 ^ 64 then of_nat millis else - 1)"

definition prove_job_inner where
  "prove_job_inner lib clock executable input expected_program_hash =
     (case clock of (execution_time, proving_time, verification_time) \<Rightarrow>
     and_then (map_err PE_Statement (encode_job (felt252_ops lib) input)) (\<lambda>arguments.
     and_then (map_err PE_Execution (execute_and_adapt (exec_ops lib) executable arguments)) (\<lambda>prover_input.
     and_then (prove_with_salt_retries lib prover_input) (\<lambda>proof.
     and_then (map_err PE_Serialization (proof_to_vec lib (proof_from_cairo lib proof))) (\<lambda>proof_bytes.
     if length proof_bytes > unat MAX_PROOF_BYTES then Inl PE_ProofTooLarge
     else
       and_then (map_err PE_Verification (verify_and_decode lib proof_bytes)) (\<lambda>verified.
       and_then
         (case expected_program_hash of
            Some expected \<Rightarrow>
              map_err PE_Verification
                (verify_serialized lib proof_bytes (as_str expected) (vp_statement verified))
          | None \<Rightarrow> Inr ()) (\<lambda>_.
       Inr \<lparr>va_proof_bytes = proof_bytes, va_statement = vp_statement verified,
            va_program_hash = vp_program_hash verified,
            va_metrics = \<lparr>execution_ms = elapsed_ms execution_time, proving_ms = elapsed_ms proving_time,
                          verification_ms = elapsed_ms verification_time\<rparr>\<rparr>)))))))"

subsection \<open>Engines\<close>

record host =
  is_file :: "string \<Rightarrow> bool"
  fs_read :: "string \<Rightarrow> (string, bytes) result"
  sha256_digest :: "bytes \<Rightarrow> bytes"

record VerifiableJobEngine =
  engine_executable :: string
  expected_program_hash :: FeltHex

definition ensure_executable :: "host \<Rightarrow> string \<Rightarrow> (ProverError, unit) result" where
  "ensure_executable h executable =
     (if is_file h executable then Inr () else Inl (MissingExecutable executable))"

definition ensure_executable_digest :: "host \<Rightarrow> string \<Rightarrow> string \<Rightarrow> (ProverError, unit) result" where
  "ensure_executable_digest h executable expected =
     (if length expected \<noteq> 64 \<or> \<not> list_all lower_hex_byte expected then Inl InvalidExecutableDigest
      else
        and_then (map_err (ExecutableRead executable) (fs_read h executable)) (\<lambda>bs.
        let actual = hex_of_bytes (sha256_digest h bs) in
        if actual = expected then Inr () else Inl (ExecutableDigestMismatch expected actual)))"

definition VerifiableJobEngine_new ::
  "host \<Rightarrow> string \<Rightarrow> FeltHex \<Rightarrow> string \<Rightarrow> (ProverError, VerifiableJobEngine) result" where
  "VerifiableJobEngine_new h executable program_hash expected_sha256 =
     and_then (ensure_executable h executable) (\<lambda>_.
     and_then (ensure_executable_digest h executable expected_sha256) (\<lambda>_.
     Inr \<lparr>engine_executable = executable, expected_program_hash = program_hash\<rparr>))"

text \<open>The development artifact of the workspace, relative to the crate's directory.\<close>

definition from_workspace ::
  "host \<Rightarrow> string \<Rightarrow> FeltHex \<Rightarrow> string \<Rightarrow> (ProverError, VerifiableJobEngine) result" where
  "from_workspace h manifest_dir program_hash expected_sha256 =
     VerifiableJobEngine_new h
       (path_join manifest_dir ''../soul-cairo/target/dev/soul_cairo.executable.json'') program_hash expected_sha256"

definition executable_path :: "VerifiableJobEngine \<Rightarrow> string" where
  "executable_path engine = engine_executable engine"

definition prove_job where
  "prove_job lib clock engine input =
     prove_job_inner lib clock (engine_executable engine) input (Some (expected_program_hash engine))"

definition ProgramManifestGenerator_new :: "host \<Rightarrow> string \<Rightarrow> (ProverError, string) result" where
  "ProgramManifestGenerator_new h executable =
     and_then (ensure_executable h executable) (\<lambda>_. Inr executable)"

definition prove_fixture where
  "prove_fixture lib clock executable input = prove_job_inner lib clock executable input None"

section \<open>The salt loop\<close>

text \<open>What one salt gives: a proof or the error that is remembered.\<close>

definition salt_outcome where
  "salt_outcome lib input salt =
     (case prove_cairo lib input (production_parameters lib salt) of
        Returned r \<Rightarrow> r
      | Panicked \<Rightarrow> Inl (''prover panicked for channel salt '' @ dec_string (unat salt)))"

lemma salt_loop_step:
  "salt_loop lib input (salt # salts) e =
     (case salt_outcome lib input salt of
        Inr proof \<Rightarrow> Inr proof
      | Inl e' \<Rightarrow> salt_loop lib input salts e')"
  by (simp add: salt_outcome_def catch_unwind_def split: unwind.split sum.split)

declare salt_loop.simps(2) [simp del]

lemma salt_loop_eq:
  "salts \<noteq> [] \<Longrightarrow>
     salt_loop lib input salts e =
       (case find (\<lambda>s. \<exists>proof. salt_outcome lib input s = Inr proof) salts of
          Some s \<Rightarrow> map_err PE_Proving (salt_outcome lib input s)
        | None \<Rightarrow> map_err PE_Proving (salt_outcome lib input (last salts)))"
proof (induction salts arbitrary: e)
  case (Cons s salts)
  show ?case
  proof (cases "salt_outcome lib input s")
    case (Inl e')
    with Cons show ?thesis
      by (cases "salts = []") (simp_all add: salt_loop_step split: option.split)
  qed (simp add: salt_loop_step)
qed simp

lemma prove_job_inner_eq_Inr:
  "prove_job_inner lib clock exe input expected = Inr a \<Longrightarrow>
     verify_and_decode lib (va_proof_bytes a) =
       Inr \<lparr>vp_program_hash = va_program_hash a, vp_statement = va_statement a\<rparr> \<and>
     (\<forall>h. expected = Some h \<longrightarrow> verify_serialized lib (va_proof_bytes a) (as_str h) (va_statement a) = Inr ())"
  by (auto simp: prove_job_inner_def and_then_eq_Inr split: prod.splits if_splits option.splits)

text \<open>What the Rust types guarantee of an artifact and the model has to prove: its field
  elements are canonical, and so is its statement.\<close>

definition artifact_typed :: "VerifiedProofArtifact \<Rightarrow> bool" where
  "artifact_typed a \<longleftrightarrow>
     statement_felts_ok (va_statement a) \<and> statement_valid (va_statement a) \<and> felt_ok (va_program_hash a)"

lemma prove_job_inner_typed:
  assumes "stwo_codec lib fe_val" and "prove_job_inner lib clock exe input expected = Inr a"
  shows "artifact_typed a"
  using prove_job_inner_eq_Inr [OF assms(2)] field_codec.fe_val_less [OF stwo_codec.axioms [OF assms(1)]]
  by (auto simp: stwo_codec.verify_and_decode_iff [OF assms(1)] artifact_typed_def)

section \<open>Properties\<close>

text \<open>C38: the salt loop returns the proof of the first of the eight salts that yields one,
  whether earlier salts failed or panicked, and otherwise the error of the last salt; the
  placeholder error it starts with is never reported, and every attempt uses the pinned
  parameters that the verifier requires.\<close>

theorem salt_retries_first_success:
  "prove_with_salt_retries lib input =
     (case find (\<lambda>s. \<exists>proof. salt_outcome lib input s = Inr proof) [0, 1, 2, 3, 4, 5, 6, 7] of
        Some s \<Rightarrow> map_err PE_Proving (salt_outcome lib input s)
      | None \<Rightarrow> map_err PE_Proving (salt_outcome lib input 7)) \<and>
   validate_proof_profile lib (pcs_config (production_parameters lib salt))
     (preprocessed_trace (production_parameters lib salt)) = Inr ()"
  unfolding prove_with_salt_retries_def
  by (subst salt_loop_eq) (simp_all add: production_parameters_def validate_proof_profile_def)

text \<open>
  An instance that executes and proves by fiat: the first salt panics, the second fails and
  the third yields the proof of the verifier's instance.
\<close>

definition example_executor :: "(unit, unit, nat, unit, unit, unit, bytes, bytes, string) exec_lib" where
  "example_executor =
     \<lparr>file_open = Inr,
      executable_from_reader = (\<lambda>_. Inr \<lparr>exe_bytecode = [], exe_hints = [],
        exe_entrypoints = [\<lparr>ep_standalone = False, ep_builtins = [], ep_offset = 8\<rparr>,
          \<lparr>ep_standalone = True, ep_builtins = [()], ep_offset = 0\<rparr>]\<rparr>),
      felt_from_bigint = nat,
      build_hints_dict = (\<lambda>_. ((), ())),
      new_for_proof = (\<lambda>program. if pp_end program = 4 then Inr () else Inl ''no end label''),
      cairo_run = (\<lambda>_ cfg hints. if proof_mode cfg \<and> hp_user_args hints = [[[1, 1, 10, 0]]]
        then Inr [1, 9, 1, 1, 10, 1, 55] else Inl ''unknown arguments''),
      adapt_trace = Inr,
      set_segment_context = (\<lambda>_ input. input)\<rparr>"

lemma example_execution:
  "execute_and_adapt example_executor path [1, 1, 10, 0] = Inr [1, 9, 1, 1, 10, 1, 55]"
  by (simp add: execute_and_adapt_def program_and_hints_def example_executor_def run_config_def)

definition example_prover ::
  "(nat, bytes, bytes, bool, unit, unit, nat, unit, unit, unit, bytes, bytes, string, bytes) prover_lib" where
  "example_prover =
     \<lparr>to_bytes_be = to_bytes_be (example_stwo 64), hex_encode = hex_encode (example_stwo 64),
      usize_bits = 64,
      proof_from_slice = proof_from_slice (example_stwo 64),
      stark_config = stark_config (example_stwo 64),
      preprocessed_trace_variant = preprocessed_trace_variant (example_stwo 64),
      canonical_variant = canonical_variant (example_stwo 64),
      verify_cairo = verify_cairo (example_stwo 64),
      public_memory = public_memory (example_stwo 64),
      get_verification_output = get_verification_output (example_stwo 64),
      felt252_ops = nat_felt252_lib,
      exec_ops = example_executor,
      prove_cairo = (\<lambda>input params. if channel_salt params = 0 then Panicked
        else if channel_salt params = 1 then Returned (Inl ''zero lookup denominator'')
        else Returned (Inr input)),
      proof_from_cairo = id,
      proof_to_vec = Inr\<rparr>"

lemma example_prover_codec: "stwo_codec example_prover (\<lambda>x. x mod cairo_prime)"
  by unfold_locales
    (simp_all add: example_prover_def example_stwo_def nat_field_lib_def cairo_prime_def)

lemma example_prover_accepts:
  "stark_accepts example_prover [1, 9, 1, 1, 10, 1, 55]
     \<lparr>vo_program_hash = 9, vo_output = [1, 1, 10, 1, 55]\<rparr>"
  using example_accepts [of 64] by (simp add: stark_accepts_def example_prover_def)

lemma example_prover_verified:
  "verify_and_decode example_prover [1, 9, 1, 1, 10, 1, 55] =
     Inr \<lparr>vp_program_hash = FeltHex_from_u64 9, vp_statement = example_statement\<rparr>"
  unfolding stwo_codec.verify_and_decode_iff [OF example_prover_codec]
  using example_prover_accepts example_statement_ok
  by (intro exI [of _ "\<lparr>vo_program_hash = 9, vo_output = [1, 1, 10, 1, 55]\<rparr>"])
    (simp add: cairo_prime_def FeltHex_from_u64_eq)

lemma example_inner_proved:
  assumes "expected \<in> {None, Some (FeltHex_from_u64 9)}"
  shows "prove_job_inner example_prover (3, 5, 7) executable (InFibonacci 10) expected =
   Inr \<lparr>va_proof_bytes = [1, 9, 1, 1, 10, 1, 55], va_statement = example_statement,
        va_program_hash = FeltHex_from_u64 9,
        va_metrics = \<lparr>execution_ms = 3, proving_ms = 5, verification_ms = 7\<rparr>\<rparr>"
proof -
  have encoded: "encode_job (felt252_ops example_prover) (InFibonacci 10) = Inr [1, 1, 10, 0]"
    by (simp add: encode_job_def example_prover_def nat_felt252_lib_def service_ids JobInput_validate_eq)
  have proved: "prove_with_salt_retries example_prover bs = Inr bs" for bs
    by (simp add: prove_with_salt_retries_def salt_loop_step salt_outcome_def production_parameters_def
        example_prover_def)
  have "FeltHex (as_str f) = f" for f by (cases f) simp
  then have verified: "verify_serialized example_prover [1, 9, 1, 1, 10, 1, 55] (as_str (FeltHex_from_u64 9))
      example_statement = Inr ()"
    using example_prover_verified example_statement_ok by (simp add: verify_serialized_eq_Inr)
  show ?thesis
    unfolding prove_job_inner_def
    using assms encoded proved verified example_prover_verified
    by (auto simp: example_execution [unfolded One_nat_def] example_prover_def [THEN arg_cong, of exec_ops] example_prover_def [THEN arg_cong, of proof_to_vec]
        example_prover_def [THEN arg_cong, of proof_from_cairo] constants elapsed_ms_def)
qed

lemma example_job_proved:
  "prove_job example_prover (3, 5, 7) \<lparr>engine_executable = ''soul'', expected_program_hash = FeltHex_from_u64 9\<rparr>
     (InFibonacci 10) =
   Inr \<lparr>va_proof_bytes = [1, 9, 1, 1, 10, 1, 55], va_statement = example_statement,
        va_program_hash = FeltHex_from_u64 9,
        va_metrics = \<lparr>execution_ms = 3, proving_ms = 5, verification_ms = 7\<rparr>\<rparr>"
  by (simp add: prove_job_def example_inner_proved)

text \<open>The engine returns only what it has verified: every artifact of \<open>prove_job\<close> is
  accepted by \<open>verify_serialized\<close> for the program hash the engine was given and the
  artifact's own statement, its program hash is that hash, the statement is consistent and
  the proof fits the size bound.\<close>

theorem proved_job_is_verified:
  assumes "prove_job lib clock engine input = Inr a"
  shows "verify_serialized lib (va_proof_bytes a) (as_str (expected_program_hash engine)) (va_statement a) = Inr () \<and>
    va_program_hash a = expected_program_hash engine \<and> statement_valid (va_statement a) \<and>
    length (va_proof_bytes a) \<le> 33554432"
proof -
  have "verify_and_decode lib (va_proof_bytes a) =
      Inr \<lparr>vp_program_hash = va_program_hash a, vp_statement = va_statement a\<rparr>"
    and verified: "verify_serialized lib (va_proof_bytes a) (as_str (expected_program_hash engine))
      (va_statement a) = Inr ()"
    using prove_job_inner_eq_Inr [OF assms [unfolded prove_job_def]] by auto
  moreover from verified have "statement_valid (va_statement a)"
    "verify_and_decode lib (va_proof_bytes a) =
      Inr \<lparr>vp_program_hash = FeltHex (as_str (expected_program_hash engine)), vp_statement = va_statement a\<rparr>"
    by (simp_all add: verify_serialized_eq_Inr)
  ultimately show ?thesis
    by (auto simp: verify_and_decode_eq_Inr stark_accepts_def)
qed

theorem proved_job_is_verified_witness:
  "verify_serialized example_prover [1, 9, 1, 1, 10, 1, 55] (as_str (FeltHex_from_u64 9)) example_statement = Inr ()"
  using proved_job_is_verified [OF example_job_proved] by simp

end
