(* ===== verification/Json.thy ===== *)
theory Json
  imports Types
begin

text \<open>
  The JSON shape of the wire types, read off the \<open>serde\<close> attributes of
  \<open>crates/soul-core/src/types.rs\<close>: members in declaration order, snake-case names, the
  internal tags \<open>type\<close> and \<open>status\<close>, and \<open>expires_at\<close> left out when absent. A value is a
  tree whose objects keep the order of their members; turning a tree into text and text
  into typed values is \<open>serde_json\<close> and a parameter of the wire codec.
\<close>

datatype json =
    JNull
  | JBool bool
  | JNum nat
  | JStr string
  | JArr "json list"
  | JObj "(string \<times> json) list"

section \<open>Serialisation\<close>

definition ser_FeltHex :: "FeltHex \<Rightarrow> json" where
  "ser_FeltHex f = JStr (as_str f)"

definition ser_u64 :: "u64 \<Rightarrow> json" where
  "ser_u64 v = JNum (unat v)"

definition ser_ServiceType :: "ServiceType \<Rightarrow> json" where
  "ser_ServiceType s =
     (case s of
        Fibonacci \<Rightarrow> JStr ''fibonacci''
      | HashVerify \<Rightarrow> JStr ''hash_verify''
      | MerkleProof \<Rightarrow> JStr ''merkle_proof'')"

definition ser_JobInput :: "JobInput \<Rightarrow> json" where
  "ser_JobInput input =
     (case input of
        InFibonacci n \<Rightarrow>
          JObj [(''type'', JStr ''fibonacci''), (''n'', ser_u64 n)]
      | InHashVerify hash preimage \<Rightarrow>
          JObj [(''type'', JStr ''hash_verify''), (''hash'', ser_FeltHex hash),
                (''preimage'', ser_FeltHex preimage)]
      | InMerkleProof root leaf proof index \<Rightarrow>
          JObj [(''type'', JStr ''merkle_proof''), (''root'', ser_FeltHex root),
                (''leaf'', ser_FeltHex leaf), (''proof'', JArr (map ser_FeltHex proof)),
                (''index'', ser_u64 index)])"

definition ser_JobRequestContent :: "JobRequestContent \<Rightarrow> json" where
  "ser_JobRequestContent c =
     JObj ([(''protocol'', JStr (rc_protocol c)), (''service'', ser_ServiceType (rc_service c)),
            (''input'', ser_JobInput (rc_input c))] @
           (case rc_expires_at c of None \<Rightarrow> [] | Some e \<Rightarrow> [(''expires_at'', ser_u64 e)]))"

definition ser_JobOutput :: "JobOutput \<Rightarrow> json" where
  "ser_JobOutput out =
     (case out of
        OutFibonacci result \<Rightarrow>
          JObj [(''type'', JStr ''fibonacci''), (''result'', ser_FeltHex result)]
      | OutHashVerify valid \<Rightarrow>
          JObj [(''type'', JStr ''hash_verify''), (''valid'', JBool valid)]
      | OutMerkleProof valid \<Rightarrow>
          JObj [(''type'', JStr ''merkle_proof''), (''valid'', JBool valid)])"

definition ser_ProofStatement :: "ProofStatement \<Rightarrow> json" where
  "ser_ProofStatement s =
     JObj [(''service'', ser_ServiceType (st_service s)), (''program'', JStr (st_program s)),
           (''public_input'', JArr (map ser_FeltHex (st_public_input s))),
           (''public_output'', JArr (map ser_FeltHex (st_public_output s))),
           (''output'', ser_JobOutput (st_output s))]"

definition ser_ProofDescriptor :: "ProofDescriptor \<Rightarrow> json" where
  "ser_ProofDescriptor d =
     JObj [(''format'', JStr (pd_format d)), (''media_type'', JStr (pd_media_type d)),
           (''url'', JStr (pd_url d)), (''sha256'', JStr (pd_sha256 d)),
           (''byte_size'', ser_u64 (pd_byte_size d)),
           (''program_hash'', ser_FeltHex (pd_program_hash d)),
           (''channel'', JStr (pd_channel d))]"

definition ser_JobMetrics :: "JobMetrics \<Rightarrow> json" where
  "ser_JobMetrics m =
     JObj [(''execution_ms'', ser_u64 (execution_ms m)), (''proving_ms'', ser_u64 (proving_ms m)),
           (''verification_ms'', ser_u64 (verification_ms m))]"

definition ser_ErrorCode :: "ErrorCode \<Rightarrow> json" where
  "ser_ErrorCode c =
     (case c of
        InvalidRequest \<Rightarrow> JStr ''invalid_request''
      | UnsupportedService \<Rightarrow> JStr ''unsupported_service''
      | ExpiredCode \<Rightarrow> JStr ''expired''
      | Duplicate \<Rightarrow> JStr ''duplicate''
      | Busy \<Rightarrow> JStr ''busy''
      | ProvingFailed \<Rightarrow> JStr ''proving_failed''
      | ArtifactUnavailable \<Rightarrow> JStr ''artifact_unavailable''
      | Internal \<Rightarrow> JStr ''internal'')"

definition ser_JobError :: "JobError \<Rightarrow> json" where
  "ser_JobError e = JObj [(''code'', ser_ErrorCode (je_code e)), (''message'', JStr (je_message e))]"

definition ser_JobResultContent :: "JobResultContent \<Rightarrow> json" where
  "ser_JobResultContent r =
     (case r of
        Success protocol request_id statement proof metrics \<Rightarrow>
          JObj [(''status'', JStr ''success''), (''protocol'', JStr protocol),
                (''request_id'', JStr request_id), (''statement'', ser_ProofStatement statement),
                (''proof'', ser_ProofDescriptor proof), (''metrics'', ser_JobMetrics metrics)]
      | Error protocol request_id err \<Rightarrow>
          JObj [(''status'', JStr ''error''), (''protocol'', JStr protocol),
                (''request_id'', JStr request_id), (''error'', ser_JobError err)])"

section \<open>The canonical form determines the value\<close>

text \<open>Two values with the same canonical tree are the same value, for every wire type.\<close>

named_theorems ser_inject \<open>canonical trees are injective\<close>

lemma ser_FeltHex_inject [ser_inject]: "ser_FeltHex a = ser_FeltHex b \<longleftrightarrow> a = b"
  by (auto simp: ser_FeltHex_def intro: FeltHex.expand)

lemma ser_u64_inject [ser_inject]: "ser_u64 a = ser_u64 b \<longleftrightarrow> a = b"
  by (simp add: ser_u64_def word_unat_eq_iff)

lemma map_ser_FeltHex_inject [ser_inject]: "map ser_FeltHex xs = map ser_FeltHex ys \<longleftrightarrow> xs = ys"
  by (intro inj_map_eq_map injI) (simp add: ser_inject)

lemma ser_ServiceType_inject [ser_inject]: "ser_ServiceType a = ser_ServiceType b \<longleftrightarrow> a = b"
  by (cases a; cases b; simp add: ser_ServiceType_def)

lemma ser_ServiceType_as_str: "ser_ServiceType s = JStr (ServiceType_as_str s)"
  by (cases s) (simp_all add: ser_ServiceType_def ServiceType_as_str_def)

lemma ser_JobInput_inject [ser_inject]: "ser_JobInput a = ser_JobInput b \<longleftrightarrow> a = b"
  by (cases a; cases b; simp add: ser_JobInput_def ser_inject)

lemma ser_JobRequestContent_inject [ser_inject]:
  "ser_JobRequestContent a = ser_JobRequestContent b \<longleftrightarrow> a = b"
  by (cases a; cases b) (auto simp: ser_JobRequestContent_def ser_inject split: option.splits)

lemma ser_JobOutput_inject [ser_inject]: "ser_JobOutput a = ser_JobOutput b \<longleftrightarrow> a = b"
  by (cases a; cases b; simp add: ser_JobOutput_def ser_inject)

lemma ser_ProofStatement_inject [ser_inject]: "ser_ProofStatement a = ser_ProofStatement b \<longleftrightarrow> a = b"
  by (cases a; cases b) (auto simp: ser_ProofStatement_def ser_inject)

lemma ser_ProofDescriptor_inject [ser_inject]: "ser_ProofDescriptor a = ser_ProofDescriptor b \<longleftrightarrow> a = b"
  by (cases a; cases b) (auto simp: ser_ProofDescriptor_def ser_inject)

lemma ser_JobMetrics_inject [ser_inject]: "ser_JobMetrics a = ser_JobMetrics b \<longleftrightarrow> a = b"
  by (cases a; cases b) (auto simp: ser_JobMetrics_def ser_inject)

lemma ser_ErrorCode_inject [ser_inject]: "ser_ErrorCode a = ser_ErrorCode b \<longleftrightarrow> a = b"
  by (cases a; cases b; simp add: ser_ErrorCode_def)

lemma ser_JobError_inject [ser_inject]: "ser_JobError a = ser_JobError b \<longleftrightarrow> a = b"
  by (cases a; cases b) (auto simp: ser_JobError_def ser_inject)

lemma ser_JobResultContent_inject [ser_inject]:
  "ser_JobResultContent a = ser_JobResultContent b \<longleftrightarrow> a = b"
  by (cases a; cases b; simp add: ser_JobResultContent_def ser_inject)

text \<open>Canonical JSON is unambiguous: two request contents, or two result contents, with
  the same canonical tree are equal, so the text repeated in the \<open>i\<close> tag stands for one
  request only.\<close>

theorem canonical_json_unambiguous:
  "(ser_JobRequestContent c = ser_JobRequestContent c' \<longleftrightarrow> c = c') \<and>
   (ser_JobResultContent r = ser_JobResultContent r' \<longleftrightarrow> r = r')"
  by (simp add: ser_inject)

end
