(* ===== verification/FixtureTool.thy ===== *)
theory FixtureTool
  imports Prover Json
begin

text \<open>
  \<open>crates/soul-prover/src/bin/soul-proof-fixture.rs\<close>: the tool that discovers the program
  hash of a Cairo executable, proves Fibonacci(10) with it and writes the proof, the
  statement, the program manifest and the fixture manifest.

  The file system is a map from paths to contents. A write may fail to open its file or stop
  after some bytes. \<open>to_vec_pretty\<close> is \<open>serde_json::to_vec_pretty\<close> of a tree; the directory
  of the crate is an argument. Exiting for \<open>--help\<close> is the stop \<open>FX_Help\<close>.
\<close>

section \<open>Definitions\<close>

subsection \<open>Writing files\<close>

datatype write_fault = W_Fine | W_Open | W_Stops nat

type_synonym files = "string \<rightharpoonup> bytes"

definition fs_write :: "write_fault \<Rightarrow> string \<Rightarrow> bytes \<Rightarrow> files \<Rightarrow> (unit, unit) result \<times> files" where
  "fs_write fault path bs fs =
     (case fault of
        W_Fine \<Rightarrow> (Inr (), fs(path \<mapsto> bs))
      | W_Open \<Rightarrow> (Inl (), fs)
      | W_Stops k \<Rightarrow> (Inl (), fs(path \<mapsto> take k bs)))"

datatype FixtureError =
    FX_Help
  | FX_MissingPath string
  | FX_UnknownArgument string
  | FX_OutDirRequired
  | FX_Prover ProverError
  | FX_Verification VerificationError
  | FX_CreateDir
  | FX_Serialization
  | FX_Io string

text \<open>The writes of a tool, in order; content that does not serialise is \<open>None\<close>.\<close>

fun write_each ::
  "(string \<Rightarrow> write_fault) \<Rightarrow> (string \<times> bytes option) list \<Rightarrow> files \<Rightarrow> (FixtureError, unit) result \<times> files" where
  "write_each faults [] fs = (Inr (), fs)"
| "write_each faults ((path, None) # writes) fs = (Inl FX_Serialization, fs)"
| "write_each faults ((path, Some bs) # writes) fs =
     (case fs_write (faults path) path bs fs of
        (Inl _, fs') \<Rightarrow> (Inl (FX_Io path), fs')
      | (Inr _, fs') \<Rightarrow> write_each faults writes fs')"

definition json_bytes :: "(json \<Rightarrow> bytes option) \<Rightarrow> json \<Rightarrow> bytes option" where
  "json_bytes to_vec_pretty value = map_option (\<lambda>bs. bs @ [10]) (to_vec_pretty value)"

subsection \<open>Arguments\<close>

fun parse_flags ::
  "string list \<Rightarrow> string option \<Rightarrow> string option \<Rightarrow> (FixtureError, string option \<times> string option) result" where
  "parse_flags [] out_dir executable = Inr (out_dir, executable)"
| "parse_flags (argument # arguments) out_dir executable =
     (if argument = ''--out-dir'' then
        (case arguments of
           [] \<Rightarrow> Inl (FX_MissingPath argument)
         | path # rest \<Rightarrow> parse_flags rest (Some path) executable)
      else if argument = ''--executable'' then
        (case arguments of
           [] \<Rightarrow> Inl (FX_MissingPath argument)
         | path # rest \<Rightarrow> parse_flags rest out_dir (Some path))
      else if argument = ''--help'' \<or> argument = ''-h'' then Inl FX_Help
      else Inl (FX_UnknownArgument argument))"

definition parse_arguments :: "string list \<Rightarrow> (FixtureError, string \<times> string option) result" where
  "parse_arguments arguments =
     and_then (parse_flags arguments None None) (\<lambda>(out_dir, executable).
     and_then (ok_or FX_OutDirRequired out_dir) (\<lambda>out_dir.
     Inr (out_dir, executable)))"

definition default_executable :: "string \<Rightarrow> string" where
  "default_executable manifest_dir =
     path_join manifest_dir ''../soul-cairo/target/dev/soul_cairo.executable.json''"

subsection \<open>The tool\<close>

definition manifest_json :: "VerifiedProofArtifact \<Rightarrow> json" where
  "manifest_json a =
     JObj [(''protocol'', JStr SOUL_WIRE_PROTOCOL), (''program'', JStr CAIRO_PROGRAM),
           (''program_hash'', ser_FeltHex (va_program_hash a))]"

definition fixture_json :: "string \<Rightarrow> VerifiedProofArtifact \<Rightarrow> json" where
  "fixture_json proof_sha256 a =
     JObj [(''format'', JStr PROOF_FORMAT), (''media_type'', JStr PROOF_MEDIA_TYPE),
           (''channel'', JStr PROOF_CHANNEL), (''proof_file'', JStr ''fibonacci-10.proof.json''),
           (''sha256'', JStr proof_sha256), (''byte_size'', JNum (length (va_proof_bytes a))),
           (''statement_file'', JStr ''fibonacci-10.statement.json''),
           (''program_hash'', ser_FeltHex (va_program_hash a)), (''metrics'', ser_JobMetrics (va_metrics a))]"

definition fixture_writes ::
  "(json \<Rightarrow> bytes option) \<Rightarrow> (bytes \<Rightarrow> bytes) \<Rightarrow> string \<Rightarrow> VerifiedProofArtifact \<Rightarrow> (string \<times> bytes option) list" where
  "fixture_writes pretty H out_dir a =
     [(path_join out_dir ''fibonacci-10.proof.json'', Some (va_proof_bytes a)),
      (path_join out_dir ''fibonacci-10.statement.json'', json_bytes pretty (ser_ProofStatement (va_statement a))),
      (path_join out_dir ''manifest.json'', json_bytes pretty (manifest_json a)),
      (path_join out_dir ''fibonacci-10.fixture.json'',
       json_bytes pretty (fixture_json (hex_of_bytes (H (va_proof_bytes a))) a))]"

definition run_fixture where
  "run_fixture lib h pretty create_dir_all faults clock manifest_dir arguments fs =
     (case
        and_then (parse_arguments arguments) (\<lambda>(out_dir, executable).
        and_then (map_err FX_Prover (ProgramManifestGenerator_new h
          (case executable of Some path \<Rightarrow> path | None \<Rightarrow> default_executable manifest_dir))) (\<lambda>generator.
        and_then (map_err FX_Prover (prove_fixture lib clock generator (InFibonacci 10))) (\<lambda>a.
        and_then (map_err FX_Verification
          (verify_serialized lib (va_proof_bytes a) (as_str (va_program_hash a)) (va_statement a))) (\<lambda>_.
        if create_dir_all out_dir then Inr (out_dir, a) else Inl FX_CreateDir))))
      of
        Inl e \<Rightarrow> (Inl e, fs)
      | Inr (out_dir, a) \<Rightarrow> write_each faults (fixture_writes pretty (sha256_digest h) out_dir a) fs)"

text \<open>The exit code of the process.\<close>

definition fixture_main :: "(FixtureError, unit) result \<Rightarrow> nat" where
  "fixture_main outcome = (case outcome of Inr _ \<Rightarrow> 0 | Inl FX_Help \<Rightarrow> 0 | Inl _ \<Rightarrow> 1)"

section \<open>What is written\<close>

lemma write_each_other:
  "path \<notin> fst ` set writes \<Longrightarrow> snd (write_each faults writes fs) path = fs path"
  by (induction faults writes fs rule: write_each.induct)
    (auto simp: fs_write_def split: write_fault.split)

lemma write_each_done:
  assumes "write_each faults writes fs = (Inr (), fs')" and "distinct (map fst writes)"
    and "(path, content) \<in> set writes"
  shows "content \<noteq> None \<and> fs' path = content"
  using assms
proof (induction writes arbitrary: fs)
  case (Cons w writes)
  obtain path' bs where w: "w = (path', Some bs)"
    using Cons.prems(1) by (cases w; cases "snd w") auto
  then have "faults path' = W_Fine"
    using Cons.prems(1) by (cases "faults path'") (auto simp: fs_write_def)
  then have rest: "write_each faults writes (fs(path' \<mapsto> bs)) = (Inr (), fs')"
    using Cons.prems(1) by (simp add: w fs_write_def)
  show ?case
  proof (cases "(path, content) \<in> set writes")
    case True
    with Cons.IH [OF rest] Cons.prems(2) show ?thesis by simp
  next
    case False
    with Cons.prems(3) have "path = path'" "content = Some bs" by (auto simp: w)
    then show ?thesis
      using write_each_other [of path writes faults "fs(path' \<mapsto> bs)"] Cons.prems(2) rest by (simp add: w)
  qed
qed simp

lemma fixture_paths_distinct: "distinct (map fst (fixture_writes pretty H out_dir a))"
  by (simp add: fixture_writes_def)

lemma run_fixture_cases:
  assumes "run_fixture lib h pretty create_dir_all faults clock manifest_dir arguments fs = (outcome, fs')"
  obtains (failed) e where "outcome = Inl e" and "fs' = fs"
  | (writing) out_dir executable a where "parse_arguments arguments = Inr (out_dir, executable)"
      and "prove_fixture lib clock (case executable of Some path \<Rightarrow> path | None \<Rightarrow> default_executable manifest_dir)
        (InFibonacci 10) = Inr a"
      and "verify_serialized lib (va_proof_bytes a) (as_str (va_program_hash a)) (va_statement a) = Inr ()"
      and "write_each faults (fixture_writes pretty (sha256_digest h) out_dir a) fs = (outcome, fs')"
  using assms
  by (auto simp: run_fixture_def and_then_eq_Inr ProgramManifestGenerator_new_def split: sum.splits prod.splits if_splits)

section \<open>Properties\<close>

text \<open>C22: the fixture tool writes nothing it has not verified. If any file has changed, there
  is an artifact whose proof the native verifier accepts for the artifact's own program hash
  and statement, and only the four files of the output directory can have changed; if the
  tool succeeds they hold such a proof, its statement, the manifest with its program hash,
  and the fixture with the digest and the size of the proof. The process exits with code 1
  exactly on the failures.\<close>

theorem fixture_is_verified:
  assumes "run_fixture lib h pretty create_dir_all faults clock manifest_dir arguments fs = (outcome, fs')"
  shows "(fs' \<noteq> fs \<longrightarrow>
      (\<exists>out_dir executable (a :: VerifiedProofArtifact). parse_arguments arguments = Inr (out_dir, executable) \<and>
         verify_serialized lib (va_proof_bytes a) (as_str (va_program_hash a)) (va_statement a) = Inr () \<and>
         {path. fs' path \<noteq> fs path} \<subseteq> path_join out_dir ` {''fibonacci-10.proof.json'',
           ''fibonacci-10.statement.json'', ''manifest.json'', ''fibonacci-10.fixture.json''})) \<and>
    (fixture_main outcome = (if outcome \<in> {Inr (), Inl FX_Help} then 0 else 1)) \<and>
    (outcome = Inr () \<longrightarrow>
      (\<exists>out_dir executable a. parse_arguments arguments = Inr (out_dir, executable) \<and>
         verify_serialized lib (va_proof_bytes a) (as_str (va_program_hash a)) (va_statement a) = Inr () \<and>
         fs' (path_join out_dir ''fibonacci-10.proof.json'') = Some (va_proof_bytes a) \<and>
         fs' (path_join out_dir ''fibonacci-10.statement.json'') =
           json_bytes pretty (ser_ProofStatement (va_statement a)) \<and>
         fs' (path_join out_dir ''manifest.json'') = json_bytes pretty (manifest_json a) \<and>
         fs' (path_join out_dir ''fibonacci-10.fixture.json'') =
           json_bytes pretty (fixture_json (hex_of_bytes (sha256_digest h (va_proof_bytes a))) a)))"
proof -
  have main: "fixture_main outcome = (if outcome \<in> {Inr (), Inl FX_Help} then 0 else 1)"
    by (auto simp: fixture_main_def split: sum.split FixtureError.split)
  show ?thesis
    using assms
  proof (cases rule: run_fixture_cases)
    case (failed e)
    with main show ?thesis by simp
  next
    case (writing out_dir executable a)
    let ?writes = "fixture_writes pretty (sha256_digest h) out_dir a"
    have "{path. fs' path \<noteq> fs path} \<subseteq> fst ` set ?writes"
      using write_each_other [of _ ?writes faults fs] writing(4) by force
    then have only: "{path. fs' path \<noteq> fs path} \<subseteq> path_join out_dir ` {''fibonacci-10.proof.json'',
           ''fibonacci-10.statement.json'', ''manifest.json'', ''fibonacci-10.fixture.json''}"
      by (simp add: fixture_writes_def)
    have files: "fs' path = content" if "outcome = Inr ()" "(path, content) \<in> set ?writes" for path content
      using write_each_done [OF writing(4) [unfolded that(1)] fixture_paths_distinct that(2)] by simp
    show ?thesis
      by (intro conjI impI main exI [of _ out_dir] exI [of _ executable] exI [of _ a] writing(1,3) only files)
        (simp_all add: fixture_writes_def)
  qed
qed

theorem fixture_is_verified_witness:
  "\<exists>fs' (a :: VerifiedProofArtifact). run_fixture example_prover \<lparr>is_file = (\<lambda>_. True), fs_read = (\<lambda>_. Inr []), sha256_digest = (\<lambda>_. [7])\<rparr>
      (\<lambda>_. Some [123, 125]) (\<lambda>_. True) (\<lambda>_. W_Fine) (3, 5, 7) ''crate'' [''--out-dir'', ''out''] Map.empty =
        (Inr (), fs') \<and>
     fs' ''out/fibonacci-10.proof.json'' = Some (va_proof_bytes a) \<and>
     verify_serialized example_prover (va_proof_bytes a) (as_str (va_program_hash a)) (va_statement a) = Inr ()"
proof -
  let ?h = "\<lparr>is_file = (\<lambda>_. True), fs_read = (\<lambda>_. Inr []), sha256_digest = (\<lambda>_. [7])\<rparr>"
  let ?run = "run_fixture example_prover ?h (\<lambda>_. Some [123, 125]) (\<lambda>_. True) (\<lambda>_. W_Fine) (3, 5, 7) ''crate''
    [''--out-dir'', ''out''] Map.empty"
  have "FeltHex (as_str f) = f" for f by (cases f) simp
  then have verified: "verify_serialized example_prover [1, 9, 1, 1, 10, 1, 55] (as_str (FeltHex_from_u64 9))
      example_statement = Inr ()"
    using example_prover_verified example_statement_ok by (simp add: verify_serialized_eq_Inr)
  have parsed: "parse_arguments [''--out-dir'', ''out''] = Inr (''out'', None)"
    by (simp add: parse_arguments_def)
  have proved: "prove_fixture example_prover (3, 5, 7) exe (InFibonacci 10) =
     Inr \<lparr>va_proof_bytes = [1, 9, 1, 1, 10, 1, 55], va_statement = example_statement,
        va_program_hash = FeltHex_from_u64 9,
        va_metrics = \<lparr>execution_ms = 3, proving_ms = 5, verification_ms = 7\<rparr>\<rparr>" for exe
    by (simp add: prove_fixture_def example_inner_proved)
  obtain fs' where run: "?run = (Inr (), fs')"
    using verified parsed proved
    by (simp add: run_fixture_def ProgramManifestGenerator_new_def ensure_executable_def fixture_writes_def
        json_bytes_def fs_write_def)
  from fixture_is_verified [OF run, THEN conjunct2, THEN conjunct2, THEN mp, OF refl]
  obtain out_dir executable and a :: VerifiedProofArtifact where
    "parse_arguments [''--out-dir'', ''out''] = Inr (out_dir, executable)"
    and "verify_serialized example_prover (va_proof_bytes a) (as_str (va_program_hash a)) (va_statement a) = Inr ()"
    and "fs' (path_join out_dir ''fibonacci-10.proof.json'') = Some (va_proof_bytes a)"
    by (elim exE conjE) (rule that, assumption+)
  then show ?thesis
    using run parsed by (auto simp: path_join_def)
qed

end
