(* ===== verification/Wire.thy ===== *)
theory Wire
  imports Json Decimal
begin

text \<open>
  The signed event codec of \<open>crates/soul-core/src/nostr_events.rs\<close>: request and result
  parsing, canonical tag construction, the embedded request and the singleton tag reader.

  The \<open>nostr\<close> and \<open>serde_json\<close> crates are not part of the repository. Their entry points
  are the fields of \<open>wire_lib\<close>, an argument of every definition that uses one, and a signed
  event is the record of the fields the code reads, ids and keys in their printed form.
\<close>

section \<open>Definitions\<close>

record Event =
  ev_id :: string
  ev_pubkey :: string
  ev_created_at :: u64
  ev_kind :: u16
  ev_tags :: "string list list"
  ev_content :: string
  ev_sig :: string

text \<open>
  \<^item> \<open>event_verify\<close>: \<open>Event::verify\<close> succeeds (id and signature);
  \<^item> \<open>event_try_as_json\<close>, \<open>event_from_json\<close>: the event's own JSON codec;
  \<^item> \<open>event_eq\<close>: \<open>PartialEq\<close> of \<open>Event\<close>;
  \<^item> \<open>json_to_string\<close>: \<open>serde_json::to_string\<close> of a canonical tree;
  \<^item> \<open>request_from_str\<close>, \<open>result_from_str\<close>, \<open>value_from_str\<close>: \<open>serde_json::from_str\<close> at
    the three types the code asks for;
  \<^item> \<open>event_from_object\<close>: \<open>serde_json::from_value\<close> of an object as an event;
  \<^item> \<open>tag_parse\<close>: \<open>Tag::parse\<close>; \<open>url_parse\<close>: \<open>Url::parse\<close>.
\<close>

record wire_lib =
  event_verify :: "Event \<Rightarrow> bool"
  event_try_as_json :: "Event \<Rightarrow> string option"
  event_from_json :: "string \<Rightarrow> Event option"
  event_eq :: "Event \<Rightarrow> Event \<Rightarrow> bool"
  json_to_string :: "json \<Rightarrow> string option"
  request_from_str :: "string \<Rightarrow> JobRequestContent option"
  result_from_str :: "string \<Rightarrow> JobResultContent option"
  value_from_str :: "string \<Rightarrow> json option"
  event_from_object :: "(string \<times> json) list \<Rightarrow> Event option"
  tag_parse :: "string list \<Rightarrow> string list option"
  url_parse :: "string \<Rightarrow> Url option"

datatype WireError =
    InvalidEvent
  | UnsupportedKind
  | InvalidTimestamp
  | RequestTooLarge
  | ResultTooLarge
  | MalformedJson
  | NonCanonicalJson
  | MissingTag
  | DuplicateTag
  | InvalidTag
  | ServiceKindMismatch
  | RequestBindingMismatch
  | Validation ValidationError

definition WireError_public_code :: "WireError \<Rightarrow> ErrorCode" where
  "WireError_public_code e =
     (case e of
        UnsupportedKind \<Rightarrow> UnsupportedService
      | ServiceKindMismatch \<Rightarrow> UnsupportedService
      | Validation v \<Rightarrow> (if v = Expired then ExpiredCode else InvalidRequest)
      | _ \<Rightarrow> InvalidRequest)"

definition INPUT_TYPE :: string where
  "INPUT_TYPE = ''text''"

definition TOPIC :: string where
  "TOPIC = ''soul-society''"

definition canonical_json :: "wire_lib \<Rightarrow> JobRequestContent \<Rightarrow> string option" where
  "canonical_json lib c = json_to_string lib (ser_JobRequestContent c)"

definition event_tag_values :: "Event \<Rightarrow> string list list" where
  "event_tag_values event = ev_tags event"

definition optional_scalar_tag :: "Event \<Rightarrow> string \<Rightarrow> (WireError, string option) result" where
  "optional_scalar_tag event key =
     (case filter (\<lambda>values. values \<noteq> [] \<and> hd values = key) (ev_tags event) of
        [] \<Rightarrow> Inr None
      | [values] \<Rightarrow> if length values = 2 then Inr (Some (values ! 1)) else Inl InvalidTag
      | _ \<Rightarrow> Inl DuplicateTag)"

definition request_tags ::
  "wire_lib \<Rightarrow> JobRequestContent \<Rightarrow> u64 option \<Rightarrow> (WireError, string list list) result" where
  "request_tags lib content bid_msats =
     (if (case bid_msats of None \<Rightarrow> False | Some value \<Rightarrow> value > MAX_SAFE_INTEGER)
      then Inl InvalidTag
      else and_then (ok_or MalformedJson (canonical_json lib content)) (\<lambda>input.
        Inr ([[''i'', input, INPUT_TYPE],
              [''protocol'', SOUL_WIRE_PROTOCOL],
              [''service'', ServiceType_as_str (rc_service content)],
              [''t'', TOPIC]]
             @ (case rc_expires_at content of
                  None \<Rightarrow> []
                | Some expires_at \<Rightarrow> [[''expiration'', u64_to_string expires_at]])
             @ (case bid_msats of
                  None \<Rightarrow> []
                | Some bid \<Rightarrow> [[''bid'', u64_to_string bid]]))))"

definition parse_request_event :: "wire_lib \<Rightarrow> Event \<Rightarrow> u64 \<Rightarrow> (WireError, JobRequest) result" where
  "parse_request_event lib event now =
     (if \<not> event_verify lib event then Inl InvalidEvent else
      let kind = ev_kind event in
      if \<not> is_request_kind kind then Inl UnsupportedKind else
      and_then (ok_or UnsupportedKind (from_kind kind)) (\<lambda>service.
      if length (ev_content event) > MAX_REQUEST_BYTES then Inl RequestTooLarge else
      let created_at = ev_created_at event in
      if created_at > saturating_add now MAX_FUTURE_SKEW_SECS
         \<or> saturating_sub now created_at > MAX_REQUEST_AGE_SECS
      then Inl InvalidTimestamp else
      and_then (ok_or MalformedJson (request_from_str lib (ev_content event))) (\<lambda>content.
      and_then (map_err Validation (JobRequestContent_validate content created_at now)) (\<lambda>_.
      if rc_service content \<noteq> service then Inl ServiceKindMismatch else
      and_then (ok_or MalformedJson (canonical_json lib content)) (\<lambda>canonical_input.
      if canonical_input \<noteq> ev_content event then Inl NonCanonicalJson else
      and_then (optional_scalar_tag event ''bid'') (\<lambda>bid_tag.
      and_then
        (case bid_tag of
           None \<Rightarrow> Inr None
         | Some value \<Rightarrow> and_then (ok_or InvalidTag (parse_u64 value)) (\<lambda>v. Inr (Some v)))
        (\<lambda>bid_msats.
      if (case bid_msats of None \<Rightarrow> False | Some value \<Rightarrow> value > MAX_SAFE_INTEGER)
      then Inl InvalidTag else
      and_then (request_tags lib content bid_msats) (\<lambda>tags.
      if event_tag_values event \<noteq> tags then Inl InvalidTag else
      and_then (ok_or MalformedJson (event_try_as_json lib event)) (\<lambda>serialized_event.
      Inr \<lparr>jr_id = ev_id event,
           jr_service = service,
           jr_input = rc_input content,
           jr_bid_msats = (case bid_msats of None \<Rightarrow> 0 | Some v \<Rightarrow> v),
           jr_customer_pubkey = ev_pubkey event,
           jr_created_at = created_at,
           jr_expires_at = rc_expires_at content,
           jr_canonical_input = canonical_input,
           jr_serialized_event = serialized_event\<rparr>)))))))))"

definition result_tags :: "JobRequest \<Rightarrow> JobResultContent \<Rightarrow> string list list" where
  "result_tags request r =
     [[''request'', jr_serialized_event request],
      [''e'', jr_id request],
      [''p'', jr_customer_pubkey request],
      [''i'', jr_canonical_input request, INPUT_TYPE],
      [''status'', JobResultContent_status r],
      [''protocol'', SOUL_WIRE_PROTOCOL],
      [''service'', ServiceType_as_str (jr_service request)],
      [''t'', TOPIC]]"

definition EVENT_KEYS :: "string list" where
  "EVENT_KEYS = [''id'', ''pubkey'', ''created_at'', ''kind'', ''tags'', ''content'', ''sig'']"

definition parse_embedded_request_event :: "wire_lib \<Rightarrow> string \<Rightarrow> (WireError, Event) result" where
  "parse_embedded_request_event lib serialized =
     and_then (ok_or MalformedJson (value_from_str lib serialized)) (\<lambda>value.
     case value of
       JObj object \<Rightarrow>
         if length object \<noteq> length EVENT_KEYS
            \<or> list_ex (\<lambda>key. key \<notin> set (map fst object)) EVENT_KEYS
         then Inl MalformedJson
         else and_then (ok_or MalformedJson (event_from_object lib object)) (\<lambda>event.
           if \<not> event_verify lib event then Inl InvalidEvent else Inr event)
     | _ \<Rightarrow> Inl MalformedJson)"

definition parse_result_event ::
  "wire_lib \<Rightarrow> Event \<Rightarrow> JobRequest \<Rightarrow> u64 \<Rightarrow> (WireError, JobResultContent) result" where
  "parse_result_event lib event request now =
     (if \<not> event_verify lib event then Inl InvalidEvent else
      if ev_kind event \<noteq> result_kind (jr_service request) then Inl ServiceKindMismatch else
      if length (ev_content event) > MAX_RESULT_BYTES then Inl ResultTooLarge else
      let created_at = ev_created_at event in
      if created_at < jr_created_at request
         \<or> created_at > saturating_add now MAX_FUTURE_SKEW_SECS
      then Inl InvalidTimestamp else
      and_then (ok_or MalformedJson (result_from_str lib (ev_content event))) (\<lambda>r.
      and_then (map_err Validation (JobResultContent_validate (url_parse lib) r)) (\<lambda>_.
      if JobResultContent_request_id r \<noteq> jr_id request then Inl RequestBindingMismatch else
      if (case r of
            Success _ _ statement _ _ \<Rightarrow> st_service statement \<noteq> jr_service request
          | Error _ _ _ \<Rightarrow> False)
      then Inl ServiceKindMismatch else
      and_then (ok_or MalformedJson (json_to_string lib (ser_JobResultContent r))) (\<lambda>canonical.
      if canonical \<noteq> ev_content event then Inl NonCanonicalJson else
      let actual_tags = event_tag_values event in
      if length actual_tags \<noteq> 8
         \<or> length (actual_tags ! 0) \<noteq> 2
         \<or> actual_tags ! 0 ! 0 \<noteq> ''request''
      then Inl InvalidTag else
      let embedded_serialized = actual_tags ! 0 ! 1 in
      and_then (parse_embedded_request_event lib embedded_serialized) (\<lambda>embedded_request.
      and_then (ok_or MalformedJson (event_from_json lib (jr_serialized_event request)))
        (\<lambda>expected_request.
      if \<not> event_verify lib expected_request then Inl InvalidEvent else
      if \<not> event_eq lib embedded_request expected_request then Inl RequestBindingMismatch else
      let expected_tags =
        (result_tags request r)[0 := (result_tags request r ! 0)[1 := embedded_serialized]] in
      if actual_tags \<noteq> expected_tags then Inl InvalidTag else
      Inr r))))))"

definition into_nostr_tags ::
  "wire_lib \<Rightarrow> string list list \<Rightarrow> (WireError, string list list) result" where
  "into_nostr_tags lib tags =
     collect_results (map (\<lambda>tag. ok_or InvalidTag (tag_parse lib tag)) tags)"

section \<open>Tags\<close>

lemma request_tags_eq:
  "canonical_json lib c = Some input \<Longrightarrow>
   request_tags lib c bid =
     (if (case bid of None \<Rightarrow> False | Some value \<Rightarrow> value > MAX_SAFE_INTEGER) then Inl InvalidTag
      else Inr ([[''i'', input, INPUT_TYPE], [''protocol'', SOUL_WIRE_PROTOCOL],
                 [''service'', ServiceType_as_str (rc_service c)], [''t'', TOPIC]]
                @ (case rc_expires_at c of None \<Rightarrow> [] | Some e \<Rightarrow> [[''expiration'', u64_to_string e]])
                @ (case bid of None \<Rightarrow> [] | Some b \<Rightarrow> [[''bid'', u64_to_string b]])))"
  by (simp add: request_tags_def)

text \<open>The bid read back from canonical tags is the bid they were built from.\<close>

lemma optional_scalar_tag_bid:
  assumes "request_tags lib c bid = Inr (ev_tags event)"
  shows "optional_scalar_tag event ''bid'' = Inr (map_option u64_to_string bid)"
proof -
  from assms obtain input where input: "canonical_json lib c = Some input"
    by (auto simp: request_tags_def and_then_eq_Inr split: if_splits)
  from assms have tags: "ev_tags event =
      [[''i'', input, INPUT_TYPE], [''protocol'', SOUL_WIRE_PROTOCOL],
       [''service'', ServiceType_as_str (rc_service c)], [''t'', TOPIC]]
      @ (case rc_expires_at c of None \<Rightarrow> [] | Some e \<Rightarrow> [[''expiration'', u64_to_string e]])
      @ (case bid of None \<Rightarrow> [] | Some b \<Rightarrow> [[''bid'', u64_to_string b]])"
    by (auto simp: request_tags_eq [OF input] split: if_splits)
  show ?thesis
    unfolding optional_scalar_tag_def tags
    by (cases "rc_expires_at c"; cases bid) simp_all
qed

lemma request_tags_bid_bound:
  "request_tags lib c (Some b) = Inr tags \<Longrightarrow> b \<le> MAX_SAFE_INTEGER"
  by (auto simp: request_tags_def split: if_splits)

section \<open>Requests\<close>

text \<open>The facts the parser has checked when it accepts an event.\<close>

definition request_window :: "Event \<Rightarrow> u64 \<Rightarrow> bool" where
  "request_window event now \<longleftrightarrow>
     unat (ev_created_at event) \<le> unat now + 300 \<and> unat now \<le> unat (ev_created_at event) + 600"

lemma request_window_guard:
  "\<not> (ev_created_at event > saturating_add now MAX_FUTURE_SKEW_SECS
      \<or> saturating_sub now (ev_created_at event) > MAX_REQUEST_AGE_SECS)
   \<longleftrightarrow> request_window event now"
  using unat_u64_less [of "ev_created_at event"]
  by (auto simp: request_window_def word_less_nat_alt unat_saturating_add unat_saturating_sub constants
      min_def simp del: unat_u64_less split: if_splits)

definition accepted_request :: "wire_lib \<Rightarrow> Event \<Rightarrow> u64 \<Rightarrow> JobRequestContent \<Rightarrow> u64 option \<Rightarrow> string \<Rightarrow> bool" where
  "accepted_request lib event now c bid serialized \<longleftrightarrow>
     event_verify lib event \<and>
     ev_kind event = request_kind (rc_service c) \<and>
     length (ev_content event) \<le> MAX_REQUEST_BYTES \<and>
     request_window event now \<and>
     request_from_str lib (ev_content event) = Some c \<and>
     content_valid c (unat (ev_created_at event)) (unat now) \<and>
     canonical_json lib c = Some (ev_content event) \<and>
     request_tags lib c bid = Inr (ev_tags event) \<and>
     event_try_as_json lib event = Some serialized"

definition request_of :: "Event \<Rightarrow> JobRequestContent \<Rightarrow> u64 option \<Rightarrow> string \<Rightarrow> JobRequest" where
  "request_of event c bid serialized =
     \<lparr>jr_id = ev_id event, jr_service = rc_service c, jr_input = rc_input c,
      jr_bid_msats = (case bid of None \<Rightarrow> 0 | Some v \<Rightarrow> v), jr_customer_pubkey = ev_pubkey event,
      jr_created_at = ev_created_at event, jr_expires_at = rc_expires_at c,
      jr_canonical_input = ev_content event, jr_serialized_event = serialized\<rparr>"

lemma parse_request_event_complete:
  assumes "accepted_request lib event now c bid serialized"
  shows "parse_request_event lib event now = Inr (request_of event c bid serialized)"
proof -
  note facts = assms [unfolded accepted_request_def]
  from facts have tags: "request_tags lib c bid = Inr (ev_tags event)"
    and canonical: "canonical_json lib c = Some (ev_content event)"
    and valid: "JobRequestContent_validate c (ev_created_at event) now = Inr ()"
    and kind: "is_request_kind (ev_kind event)" "from_kind (ev_kind event) = Some (rc_service c)"
    by (auto simp: validators service_kinds)
  have window: "(ev_created_at event > saturating_add now MAX_FUTURE_SKEW_SECS) = False"
    "(saturating_sub now (ev_created_at event) > MAX_REQUEST_AGE_SECS) = False"
    using request_window_guard [where event = event and now = now] facts by auto
  have bid: "optional_scalar_tag event ''bid'' = Inr (map_option u64_to_string bid)"
    using tags by (rule optional_scalar_tag_bid)
  show ?thesis
    using facts tags canonical valid kind window bid request_tags_bid_bound
    by (cases bid)
      (force simp: parse_request_event_def Let_def event_tag_values_def request_of_def not_less)+
qed

lemma parse_request_event_sound:
  assumes "parse_request_event lib event now = Inr req"
  obtains c bid serialized where
    "accepted_request lib event now c bid serialized" and "req = request_of event c bid serialized"
proof -
  from assms obtain service c bid serialized where
    facts: "event_verify lib event" "is_request_kind (ev_kind event)"
      "from_kind (ev_kind event) = Some service"
      "length (ev_content event) \<le> MAX_REQUEST_BYTES"
      "\<not> (ev_created_at event > saturating_add now MAX_FUTURE_SKEW_SECS
          \<or> saturating_sub now (ev_created_at event) > MAX_REQUEST_AGE_SECS)"
      "request_from_str lib (ev_content event) = Some c"
      "JobRequestContent_validate c (ev_created_at event) now = Inr ()"
      "rc_service c = service"
      "canonical_json lib c = Some (ev_content event)"
      "request_tags lib c bid = Inr (ev_tags event)"
      "event_try_as_json lib event = Some serialized"
    and req: "req = request_of event c bid serialized"
    by (auto simp: parse_request_event_def Let_def and_then_eq_Inr event_tag_values_def
        request_of_def not_less split: if_splits)
  from facts have "accepted_request lib event now c bid serialized"
    unfolding request_window_guard
    by (auto simp: accepted_request_def validators from_kind_request)
  then show thesis using req by (rule that)
qed

section \<open>Results\<close>

lemma result_tags_shape:
  "length (result_tags request r) = 8"
  "result_tags request r ! 0 = [''request'', jr_serialized_event request]"
  by (simp_all add: result_tags_def)

definition result_window :: "Event \<Rightarrow> JobRequest \<Rightarrow> u64 \<Rightarrow> bool" where
  "result_window event request now \<longleftrightarrow>
     jr_created_at request \<le> ev_created_at event \<and> unat (ev_created_at event) \<le> unat now + 300"

lemma result_window_guard:
  "\<not> (ev_created_at event < jr_created_at request
      \<or> ev_created_at event > saturating_add now MAX_FUTURE_SKEW_SECS)
   \<longleftrightarrow> result_window event request now"
  using unat_u64_less [of "ev_created_at event"]
  by (auto simp: result_window_def not_less word_le_nat_alt unat_saturating_add constants
      min_def simp del: unat_u64_less split: if_splits)

text \<open>
  The tags of an accepted result are the canonical ones except that the embedded request
  may be any text that reads as the original event.
\<close>

definition accepted_result ::
  "wire_lib \<Rightarrow> Event \<Rightarrow> JobRequest \<Rightarrow> u64 \<Rightarrow> JobResultContent \<Rightarrow> string \<Rightarrow> Event \<Rightarrow> Event \<Rightarrow> bool" where
  "accepted_result lib event request now r embedded embedded_event original \<longleftrightarrow>
     event_verify lib event \<and>
     ev_kind event = result_kind (jr_service request) \<and>
     length (ev_content event) \<le> MAX_RESULT_BYTES \<and>
     result_window event request now \<and>
     result_from_str lib (ev_content event) = Some r \<and>
     result_valid (url_parse lib) r \<and>
     JobResultContent_request_id r = jr_id request \<and>
     (case r of Success _ _ statement _ _ \<Rightarrow> st_service statement = jr_service request
              | Error _ _ _ \<Rightarrow> True) \<and>
     json_to_string lib (ser_JobResultContent r) = Some (ev_content event) \<and>
     ev_tags event = (result_tags request r)[0 := [''request'', embedded]] \<and>
     parse_embedded_request_event lib embedded = Inr embedded_event \<and>
     event_from_json lib (jr_serialized_event request) = Some original \<and>
     event_verify lib original \<and>
     event_eq lib embedded_event original"

lemma parse_result_event_complete:
  assumes "accepted_result lib event request now r embedded embedded_event original"
  shows "parse_result_event lib event request now = Inr r"
proof -
  note facts = assms [unfolded accepted_result_def]
  from facts have valid: "JobResultContent_validate (url_parse lib) r = Inr ()"
    by (simp add: validators)
  have window: "(ev_created_at event < jr_created_at request) = False"
    "(ev_created_at event > saturating_add now MAX_FUTURE_SKEW_SECS) = False"
    using result_window_guard [where event = event and request = request and now = now] facts by auto
  have tags: "length (ev_tags event) = 8" "ev_tags event ! 0 = [''request'', embedded]"
    using facts by (simp_all add: result_tags_shape)
  show ?thesis
    using facts valid window tags
    by (simp add: parse_result_event_def Let_def event_tag_values_def result_tags_shape not_less
        split: JobResultContent.splits)
qed

lemma parse_result_event_sound:
  assumes "parse_result_event lib event request now = Inr r"
  obtains embedded embedded_event original where
    "accepted_result lib event request now r embedded embedded_event original"
proof -
  from assms obtain embedded_event original where
    facts: "event_verify lib event" "ev_kind event = result_kind (jr_service request)"
      "length (ev_content event) \<le> MAX_RESULT_BYTES"
      "\<not> (ev_created_at event < jr_created_at request
          \<or> ev_created_at event > saturating_add now MAX_FUTURE_SKEW_SECS)"
      "result_from_str lib (ev_content event) = Some r"
      "JobResultContent_validate (url_parse lib) r = Inr ()"
      "JobResultContent_request_id r = jr_id request"
      "case r of Success _ _ statement _ _ \<Rightarrow> st_service statement = jr_service request
               | Error _ _ _ \<Rightarrow> True"
      "json_to_string lib (ser_JobResultContent r) = Some (ev_content event)"
      "parse_embedded_request_event lib (ev_tags event ! 0 ! 1) = Inr embedded_event"
      "event_from_json lib (jr_serialized_event request) = Some original"
      "event_verify lib original"
      "event_eq lib embedded_event original"
      "ev_tags event =
         (result_tags request r)[0 := (result_tags request r ! 0)[1 := ev_tags event ! 0 ! 1]]"
    by (auto simp: parse_result_event_def Let_def and_then_eq_Inr event_tag_values_def not_less
        split: if_splits JobResultContent.splits)
  from facts have "accepted_result lib event request now r (ev_tags event ! 0 ! 1) embedded_event original"
    unfolding result_window_guard
    by (simp add: accepted_result_def validators result_tags_shape)
  then show thesis by (rule that)
qed

lemma length_EVENT_KEYS: "length EVENT_KEYS = 7"
  by (simp add: EVENT_KEYS_def)

lemma missing_key_iff: "list_ex (\<lambda>key. key \<notin> A) ks \<longleftrightarrow> \<not> set ks \<subseteq> A"
  by (auto simp: list_ex_iff)

lemma parse_embedded_request_event_Inr:
  "parse_embedded_request_event lib s = Inr e \<longleftrightarrow>
     (\<exists>object. value_from_str lib s = Some (JObj object) \<and> length object = 7 \<and>
        set EVENT_KEYS \<subseteq> set (map fst object) \<and>
        event_from_object lib object = Some e \<and> event_verify lib e)"
proof (cases "value_from_str lib s")
  case (Some v)
  then show ?thesis
    by (cases v)
      (auto simp: parse_embedded_request_event_def and_then_eq_Inr length_EVENT_KEYS missing_key_iff
        simp del: set_map)
qed (simp add: parse_embedded_request_event_def)

text \<open>Seven members that include the seven keys are exactly the seven keys, each once.\<close>

lemma embedded_keys_exact:
  assumes "length object = 7" and "set EVENT_KEYS \<subseteq> set (map fst object)"
  shows "set (map fst object) = set EVENT_KEYS \<and> distinct (map fst object)"
proof -
  have keys: "card (set EVENT_KEYS) = 7"
    by (simp add: EVENT_KEYS_def)
  have upper: "card (set (map fst object)) \<le> 7"
    using assms(1) card_length [of "map fst object"] by simp
  have "set EVENT_KEYS = set (map fst object)"
    using assms(2) keys upper by (intro card_seteq) auto
  moreover from this have "card (set (map fst object)) = length (map fst object)"
    using keys assms(1) by simp
  then have "distinct (map fst object)"
    by (rule card_distinct)
  ultimately show ?thesis by simp
qed

section \<open>A concrete exchange\<close>

text \<open>
  A Fibonacci request at time 1000 under a library that knows this one content, the ground
  on which the properties below are exercised.
\<close>

definition example_content :: JobRequestContent where
  "example_content = JobRequestContent_new (InFibonacci 10) (Some 2000)"

definition example_text :: string where
  "example_text =
     ''{\"protocol\":\"soul-society/1\",\"service\":\"fibonacci\",\"input\":{\"type\":\"fibonacci\",\"n\":10},\"expires_at\":2000}''"

definition example_event :: Event where
  "example_event =
     \<lparr>ev_id = replicate 64 CHR ''a'', ev_pubkey = replicate 64 CHR ''b'', ev_created_at = 1000,
      ev_kind = 5601,
      ev_tags = [[''i'', example_text, ''text''], [''protocol'', ''soul-society/1''],
                 [''service'', ''fibonacci''], [''t'', ''soul-society''],
                 [''expiration'', u64_to_string 2000], [''bid'', u64_to_string 21]],
      ev_content = example_text, ev_sig = replicate 128 CHR ''c''\<rparr>"

definition example_object :: "(string \<times> json) list" where
  "example_object = map (\<lambda>key. (key, JNull)) EVENT_KEYS"

definition example_lib :: wire_lib where
  "example_lib =
     \<lparr>event_verify = (\<lambda>_. True),
      event_try_as_json = (\<lambda>_. Some ''{}''),
      event_from_json = (\<lambda>_. Some example_event),
      event_eq = (\<lambda>a b. a = b),
      json_to_string = (\<lambda>j. if j = ser_JobRequestContent example_content then Some example_text else None),
      request_from_str = (\<lambda>s. if s = example_text then Some example_content else None),
      result_from_str = (\<lambda>_. None),
      value_from_str = (\<lambda>_. Some (JObj example_object)),
      event_from_object = (\<lambda>_. Some example_event),
      tag_parse = Some,
      url_parse = (\<lambda>_. Some example_url)\<rparr>"

definition example_request :: JobRequest where
  "example_request = request_of example_event example_content (Some 21) ''{}''"

lemma example_accepted_as:
  "parse_request_event example_lib (example_event\<lparr>ev_id := i\<rparr>) 1001 = Inr (example_request\<lparr>jr_id := i\<rparr>)"
proof -
  let ?event = "example_event\<lparr>ev_id := i\<rparr>"
  have content: "rc_service example_content = Fibonacci" "rc_expires_at example_content = Some 2000"
    "rc_protocol example_content = SOUL_WIRE_PROTOCOL" "rc_input example_content = InFibonacci 10"
    by (simp_all add: example_content_def JobRequestContent_new_def JobInput_service_def)
  have json: "canonical_json example_lib example_content = Some example_text"
    by (simp add: canonical_json_def example_lib_def)
  have tags: "request_tags example_lib example_content (Some 21) = Inr (ev_tags ?event)"
    by (simp add: request_tags_eq [OF json] content example_event_def constants INPUT_TYPE_def
        TOPIC_def ServiceType_as_str_def)
  have "accepted_request example_lib ?event 1001 example_content (Some 21) ''{}''"
    unfolding accepted_request_def
  proof (intro conjI)
    show "length (ev_content ?event) \<le> MAX_REQUEST_BYTES"
      by (simp add: example_event_def example_text_def MAX_REQUEST_BYTES_def)
    show "content_valid example_content (unat (ev_created_at ?event)) (unat (1001 :: u64))"
      by (simp add: content_valid_def content JobInput_service_def example_event_def)
    show "request_window ?event 1001"
      by (simp add: request_window_def example_event_def)
  qed (use json tags in \<open>simp_all add: example_lib_def example_event_def content service_defs constants\<close>)
  then have "parse_request_event example_lib ?event 1001 =
      Inr (request_of ?event example_content (Some 21) ''{}'')"
    by (rule parse_request_event_complete)
  then show ?thesis
    by (simp add: example_request_def request_of_def)
qed

lemma example_accepted: "parse_request_event example_lib example_event 1001 = Inr example_request"
  using example_accepted_as [of "ev_id example_event"]
  by (simp add: example_request_def request_of_def)

section \<open>Properties\<close>

text \<open>C15: a request event is accepted exactly when it authenticates, its kind is the request
  kind of the content's service, it is at most 16 KiB, at most ten minutes old and five
  minutes ahead, its text is the canonical JSON of the value it parses to, that value
  passes validation, and its tags are exactly the canonical tags for some bid; the accepted
  request then carries the event's id, author, time and text and the content's input.\<close>

theorem request_event_accepted_iff:
  "parse_request_event lib event now = Inr req \<longleftrightarrow>
     (\<exists>c bid serialized.
        event_verify lib event \<and>
        ev_kind event = request_kind (rc_service c) \<and>
        length (ev_content event) \<le> 16 * 1024 \<and>
        unat (ev_created_at event) \<le> unat now + 300 \<and>
        unat now \<le> unat (ev_created_at event) + 600 \<and>
        request_from_str lib (ev_content event) = Some c \<and>
        JobRequestContent_validate c (ev_created_at event) now = Inr () \<and>
        canonical_json lib c = Some (ev_content event) \<and>
        request_tags lib c bid = Inr (ev_tags event) \<and>
        event_try_as_json lib event = Some serialized \<and>
        req = \<lparr>jr_id = ev_id event, jr_service = rc_service c, jr_input = rc_input c,
               jr_bid_msats = (case bid of None \<Rightarrow> 0 | Some v \<Rightarrow> v),
               jr_customer_pubkey = ev_pubkey event, jr_created_at = ev_created_at event,
               jr_expires_at = rc_expires_at c, jr_canonical_input = ev_content event,
               jr_serialized_event = serialized\<rparr>)"
  (is "_ \<longleftrightarrow> ?R")
proof
  assume "parse_request_event lib event now = Inr req"
  then obtain c bid serialized where "accepted_request lib event now c bid serialized"
    and "req = request_of event c bid serialized"
    by (rule parse_request_event_sound)
  then show ?R
    by (auto simp: accepted_request_def request_of_def request_window_def validators
        MAX_REQUEST_BYTES_def)
next
  assume ?R
  then obtain c bid serialized where "accepted_request lib event now c bid serialized"
    and "req = request_of event c bid serialized"
    by (auto simp: accepted_request_def request_of_def request_window_def validators
        MAX_REQUEST_BYTES_def)
  then show "parse_request_event lib event now = Inr req"
    by (simp add: parse_request_event_complete)
qed

text \<open>The tags of an accepted request are complete, ordered and closed: content, protocol,
  service and topic, then the expiry exactly when the content has one, then at most one
  bid in canonical decimal, within the integers JavaScript represents exactly.\<close>

theorem request_tags_exact:
  assumes "parse_request_event lib event now = Inr req"
  shows "\<exists>bid. ev_tags event =
           [[''i'', ev_content event, ''text''], [''protocol'', SOUL_WIRE_PROTOCOL],
            [''service'', ServiceType_as_str (jr_service req)], [''t'', ''soul-society'']]
           @ (case jr_expires_at req of None \<Rightarrow> [] | Some e \<Rightarrow> [[''expiration'', u64_to_string e]])
           @ bid \<and>
         (bid = [] \<and> jr_bid_msats req = 0 \<or> bid = [[''bid'', u64_to_string (jr_bid_msats req)]]) \<and>
         unat (jr_bid_msats req) \<le> 9007199254740991"
proof -
  from assms obtain c bid serialized where
    acc: "accepted_request lib event now c bid serialized"
    and req: "req = request_of event c bid serialized"
    by (rule parse_request_event_sound)
  from acc have json: "canonical_json lib c = Some (ev_content event)"
    and tags: "request_tags lib c bid = Inr (ev_tags event)"
    by (simp_all add: accepted_request_def)
  from tags show ?thesis
    by (intro exI [of _ "case bid of None \<Rightarrow> [] | Some b \<Rightarrow> [[''bid'', u64_to_string b]]"])
      (auto simp: request_tags_eq [OF json] req request_of_def INPUT_TYPE_def TOPIC_def
        MAX_SAFE_INTEGER_def not_less word_le_nat_alt split: if_splits option.splits)
qed

theorem request_tags_exact_witness:
  "ev_tags example_event ! 0 = [''i'', ev_content example_event, ''text''] \<and>
   unat (jr_bid_msats example_request) \<le> 9007199254740991"
  using request_tags_exact [OF example_accepted] by (auto simp del: unat_u64_less)

text \<open>The text of a request binds it: where printing a canonical tree is injective, two
  accepted events with the same content ask for the same service, input and expiry.\<close>

theorem request_content_binding:
  assumes "parse_request_event lib event now = Inr req"
    and "parse_request_event lib event' now' = Inr req'"
    and "ev_content event = ev_content event'"
    and "\<And>a b s. json_to_string lib a = Some s \<Longrightarrow> json_to_string lib b = Some s \<Longrightarrow> a = b"
  shows "jr_service req = jr_service req' \<and> jr_input req = jr_input req' \<and>
         jr_expires_at req = jr_expires_at req'"
proof -
  from assms(1) obtain c bid s where c: "canonical_json lib c = Some (ev_content event)"
    and req: "req = request_of event c bid s"
    by (metis parse_request_event_sound accepted_request_def)
  from assms(2) obtain c' bid' s' where c': "canonical_json lib c' = Some (ev_content event')"
    and req': "req' = request_of event' c' bid' s'"
    by (metis parse_request_event_sound accepted_request_def)
  from c c' assms(3) have "ser_JobRequestContent c = ser_JobRequestContent c'"
    by (intro assms(4)) (auto simp: canonical_json_def)
  then show ?thesis
    by (simp add: ser_inject req req' request_of_def)
qed

theorem request_content_binding_witness:
  "jr_input (example_request\<lparr>jr_id := replicate 64 CHR ''1''\<rparr>) =
   jr_input (example_request\<lparr>jr_id := replicate 64 CHR ''2''\<rparr>)"
proof -
  have "json_to_string example_lib a = Some s \<Longrightarrow> json_to_string example_lib b = Some s \<Longrightarrow> a = b" for a b s
    by (simp add: example_lib_def split: if_splits)
  then show ?thesis
    using request_content_binding [OF example_accepted_as [of "replicate 64 CHR ''1''"]
        example_accepted_as [of "replicate 64 CHR ''2''"]]
    by simp
qed

text \<open>C16: a result event is accepted exactly when it authenticates, has the result kind of
  the request's service, is at most 32 KiB, is not older than the request nor more than
  five minutes ahead, its text is the canonical JSON of a valid result that names the
  request's id (and service, for a success), its tags are the canonical result tags but
  for the embedded request, and the embedded request reads as an authentic event equal to
  the authentic original.\<close>

theorem result_event_accepted_iff:
  "parse_result_event lib event request now = Inr r \<longleftrightarrow>
     (\<exists>embedded embedded_event original.
        event_verify lib event \<and>
        ev_kind event = result_kind (jr_service request) \<and>
        length (ev_content event) \<le> 32 * 1024 \<and>
        unat (jr_created_at request) \<le> unat (ev_created_at event) \<and>
        unat (ev_created_at event) \<le> unat now + 300 \<and>
        result_from_str lib (ev_content event) = Some r \<and>
        JobResultContent_validate (url_parse lib) r = Inr () \<and>
        JobResultContent_request_id r = jr_id request \<and>
        (case r of Success _ _ statement _ _ \<Rightarrow> st_service statement = jr_service request
                 | Error _ _ _ \<Rightarrow> True) \<and>
        json_to_string lib (ser_JobResultContent r) = Some (ev_content event) \<and>
        ev_tags event = [''request'', embedded] # tl (result_tags request r) \<and>
        parse_embedded_request_event lib embedded = Inr embedded_event \<and>
        event_from_json lib (jr_serialized_event request) = Some original \<and>
        event_verify lib original \<and>
        event_eq lib embedded_event original)"
  (is "_ \<longleftrightarrow> ?R")
proof -
  have tags: "(result_tags request r)[0 := x] = x # tl (result_tags request r)" for x
    by (simp add: result_tags_def)
  show ?thesis
  proof
    assume "parse_result_event lib event request now = Inr r"
    then obtain embedded embedded_event original where
      "accepted_result lib event request now r embedded embedded_event original"
      by (rule parse_result_event_sound)
    then have "accepted_result lib event request now r embedded embedded_event original" .
    then show ?R
      unfolding accepted_result_def tags
      by (intro exI [of _ embedded] exI [of _ embedded_event] exI [of _ original])
        (simp add: result_window_def validators MAX_RESULT_BYTES_def word_le_nat_alt)
  next
    assume ?R
    then obtain embedded embedded_event original where
      "accepted_result lib event request now r embedded embedded_event original"
      unfolding accepted_result_def tags
      by (auto simp: result_window_def validators MAX_RESULT_BYTES_def word_le_nat_alt)
    then show "parse_result_event lib event request now = Inr r"
      by (rule parse_result_event_complete)
  qed
qed

text \<open>The embedded request of a result must be an object with exactly the seven event
  members, each once, that reads as an authentic event.\<close>

theorem embedded_request_exact:
  assumes "parse_embedded_request_event lib serialized = Inr event"
  shows "\<exists>object. value_from_str lib serialized = Some (JObj object) \<and>
           distinct (map fst object) \<and>
           set (map fst object) =
             {''id'', ''pubkey'', ''created_at'', ''kind'', ''tags'', ''content'', ''sig''} \<and>
           event_from_object lib object = Some event \<and> event_verify lib event"
proof -
  from assms obtain object where obj: "value_from_str lib serialized = Some (JObj object)"
    "length object = 7" "set EVENT_KEYS \<subseteq> set (map fst object)"
    "event_from_object lib object = Some event" "event_verify lib event"
    unfolding parse_embedded_request_event_Inr by blast
  have "set EVENT_KEYS = {''id'', ''pubkey'', ''created_at'', ''kind'', ''tags'', ''content'', ''sig''}"
    by (simp add: EVENT_KEYS_def)
  then show ?thesis
    using obj embedded_keys_exact [OF obj(2,3)] by (intro exI [of _ object]) metis
qed

theorem embedded_request_exact_witness:
  "parse_embedded_request_event example_lib ''{}'' = Inr example_event \<and>
   (\<exists>object. value_from_str example_lib ''{}'' = Some (JObj object) \<and> distinct (map fst object))"
proof -
  have "parse_embedded_request_event example_lib ''{}'' = Inr example_event"
    by (simp add: parse_embedded_request_event_def example_lib_def example_object_def EVENT_KEYS_def)
  then show ?thesis
    using embedded_request_exact [of example_lib "''{}''" example_event] by blast
qed

end
