(* ===== verification/Dedupe.thy ===== *)
theory Dedupe
  imports Prelude
begin

text \<open>
  \<open>apps/provider/src/dedupe.rs\<close>: the bounded set of claimed request ids. A hash set and a
  queue of its members in insertion order; a claim of a new id inserts it and evicts from
  the front while the set is larger than the capacity. The eviction loop pops only if the
  queue is not empty, so on an inconsistent state it never ends: it is a partial function,
  and the invariant \<open>fifo_ok\<close> is what makes it return.

  \<open>eviction\<close> is the interface of a keyed collection with such a loop. The completed results
  of the event handler provide it as well.
\<close>

section \<open>Definitions\<close>

record State =
  ids :: "string set"
  order :: "string list"

record RequestDeduplicator =
  capacity :: nat
  state :: State

definition RequestDeduplicator_new :: "nat \<Rightarrow> (string, RequestDeduplicator) result" where
  "RequestDeduplicator_new cap =
     (if cap > 0 then Inr \<lparr>capacity = cap, state = \<lparr>ids = {}, order = []\<rparr>\<rparr>
      else Inl ''dedupe capacity must be nonzero'')"

definition pop_oldest :: "State \<Rightarrow> State" where
  "pop_oldest s = s\<lparr>ids := ids s - {hd (order s)}, order := tl (order s)\<rparr>"

partial_function (option) evict :: "nat \<Rightarrow> State \<Rightarrow> State option" where
  "evict cap s =
     (if card (ids s) > cap
      then (if order s = [] then evict cap s else evict cap (pop_oldest s))
      else Some s)"

definition claim :: "RequestDeduplicator \<Rightarrow> string \<Rightarrow> (bool \<times> RequestDeduplicator) option" where
  "claim d key =
     (if key \<in> ids (state d) then Some (False, d)
      else map_option (\<lambda>s. (True, d\<lparr>state := s\<rparr>))
        (evict (capacity d)
          (state d\<lparr>ids := insert key (ids (state d)), order := order (state d) @ [key]\<rparr>)))"

text \<open>Claims one after the other.\<close>

fun claims :: "RequestDeduplicator \<Rightarrow> string list \<Rightarrow> (bool list \<times> RequestDeduplicator) option" where
  "claims d [] = Some ([], d)"
| "claims d (key # rest) =
     (case claim d key of
        None \<Rightarrow> None
      | Some (b, d') \<Rightarrow> map_option (\<lambda>(bs, d''). (b # bs, d'')) (claims d' rest))"

section \<open>Eviction\<close>

text \<open>The queue lists the keys in the order of their insertion, each once.\<close>

definition fifo_ok :: "'k set \<Rightarrow> 'k list \<Rightarrow> bool" where
  "fifo_ok ks ord \<longleftrightarrow> distinct ord \<and> set ord = ks"

text \<open>The last \<open>n\<close> entries of a queue.\<close>

definition newest :: "nat \<Rightarrow> 'k list \<Rightarrow> 'k list" where
  "newest n ord = drop (length ord - n) ord"

locale eviction =
  fixes keys :: "'s \<Rightarrow> 'k set" and queue :: "'s \<Rightarrow> 'k list"
    and pop :: "'s \<Rightarrow> 's" and loop :: "nat \<Rightarrow> 's \<Rightarrow> 's option"
  assumes loop_unfold:
      "loop cap s =
         (if card (keys s) > cap then (if queue s = [] then loop cap s else loop cap (pop s)) else Some s)"
    and keys_pop: "queue s \<noteq> [] \<Longrightarrow> keys (pop s) = keys s - {hd (queue s)}"
    and queue_pop: "queue s \<noteq> [] \<Longrightarrow> queue (pop s) = tl (queue s)"
begin

lemma card_keys: "fifo_ok (keys s) (queue s) \<Longrightarrow> card (keys s) = length (queue s)"
  unfolding fifo_ok_def by (metis distinct_card)

lemma fifo_ok_pop: "fifo_ok (keys s) (queue s) \<Longrightarrow> queue s \<noteq> [] \<Longrightarrow> fifo_ok (keys (pop s)) (queue (pop s))"
  by (cases "queue s") (auto simp: fifo_ok_def keys_pop queue_pop)

lemma loop_returns:
  "fifo_ok (keys s) (queue s) \<Longrightarrow>
     \<exists>s'. loop cap s = Some s' \<and> fifo_ok (keys s') (queue s') \<and> queue s' = newest cap (queue s)"
proof (induction "length (queue s)" arbitrary: s)
  case 0
  then have "queue s = []" and "card (keys s) = 0"
    by (auto simp: card_keys)
  with 0 show ?case
    by (subst loop_unfold) (simp add: newest_def)
next
  case (Suc n)
  show ?case
  proof (cases "card (keys s) > cap")
    case False
    then have "length (queue s) \<le> cap"
      using Suc.prems by (simp add: card_keys)
    with False Suc.prems show ?thesis
      by (subst loop_unfold) (simp add: newest_def)
  next
    case True
    have ne: "queue s \<noteq> []"
      using Suc.hyps(2) by auto
    then have n: "n = length (queue (pop s))"
      using Suc.hyps(2) by (simp add: queue_pop flip: Suc.hyps(2))
    obtain s' where s': "loop cap (pop s) = Some s'" "fifo_ok (keys s') (queue s')"
      "queue s' = newest cap (queue (pop s))"
      using Suc.hyps(1) [OF n fifo_ok_pop [OF Suc.prems ne]] by blast
    have "cap < length (queue s)"
      using True Suc.prems by (simp add: card_keys)
    then have "newest cap (queue (pop s)) = newest cap (queue s)"
      using ne by (cases "queue s") (auto simp: newest_def queue_pop Suc_diff_le)
    with True ne s' show ?thesis
      by (subst loop_unfold) auto
  qed
qed

text \<open>What popping keeps, the loop keeps.\<close>

lemma loop_keeps:
  assumes "fifo_ok (keys s) (queue s)" and "loop cap s = Some s'" and "P s"
    and "\<And>t. fifo_ok (keys t) (queue t) \<Longrightarrow> queue t \<noteq> [] \<Longrightarrow> P t \<Longrightarrow> P (pop t)"
  shows "P s'"
  using assms(1-3)
proof (induction "length (queue s)" arbitrary: s)
  case 0
  then have "queue s = []" and "card (keys s) = 0"
    by (auto simp: card_keys)
  with 0 show ?case
    by (subst (asm) loop_unfold) simp
next
  case (Suc n)
  have ne: "queue s \<noteq> []"
    using Suc.hyps(2) by auto
  then have n: "n = length (queue (pop s))"
    using Suc.hyps(2) by (simp add: queue_pop flip: Suc.hyps(2))
  show ?case
  proof (cases "card (keys s) > cap")
    case False
    with Suc.prems show ?thesis by (subst (asm) loop_unfold) simp
  next
    case True
    with Suc.prems(2) ne have "loop cap (pop s) = Some s'"
      by (subst (asm) loop_unfold) simp
    from Suc.hyps(1) [OF n fifo_ok_pop [OF Suc.prems(1) ne] this assms(4) [OF Suc.prems(1) ne Suc.prems(3)]]
    show ?thesis .
  qed
qed

lemma loop_evicts:
  assumes "fifo_ok (keys s) (queue s)"
  obtains s' where "loop cap s = Some s'" "fifo_ok (keys s') (queue s')" "queue s' = newest cap (queue s)"
  using loop_returns [OF assms] by blast

end

lemma fifo_ok_snoc: "fifo_ok ks ord \<Longrightarrow> k \<notin> ks \<Longrightarrow> fifo_ok (insert k ks) (ord @ [k])"
  by (auto simp: fifo_ok_def)

lemma length_newest: "length (newest n ord) = min n (length ord)"
  by (simp add: newest_def)

interpretation dedupe: eviction ids order pop_oldest evict
  by unfold_locales (simp_all add: pop_oldest_def evict.simps [of _ s for s])

section \<open>Claims\<close>

text \<open>
  A deduplicator is well formed when its queue and set agree and fit the capacity. Its
  abstraction is the queue: the window of the ids claimed last.
\<close>

definition dedupe_ok :: "RequestDeduplicator \<Rightarrow> bool" where
  "dedupe_ok d \<longleftrightarrow>
     0 < capacity d \<and> fifo_ok (ids (state d)) (order (state d)) \<and> length (order (state d)) \<le> capacity d"

abbreviation window :: "RequestDeduplicator \<Rightarrow> string list" where
  "window d \<equiv> order (state d)"

text \<open>What claiming does to a window of at most \<open>n\<close> ids.\<close>

fun window_claims :: "nat \<Rightarrow> string list \<Rightarrow> string list \<Rightarrow> bool list \<times> string list" where
  "window_claims n w [] = ([], w)"
| "window_claims n w (k # ks) =
     (let (bs, w') = window_claims n (if k \<in> set w then w else newest n (w @ [k])) ks
      in ((k \<notin> set w) # bs, w'))"

lemma RequestDeduplicator_new_ok: "RequestDeduplicator_new cap = Inr d \<Longrightarrow> dedupe_ok d"
  by (auto simp: RequestDeduplicator_new_def dedupe_ok_def fifo_ok_def split: if_splits)

lemma claim_window:
  assumes "dedupe_ok d"
  shows "\<exists>d'. claim d key = Some (key \<notin> set (window d), d') \<and> dedupe_ok d' \<and> capacity d' = capacity d \<and>
    window d' = (if key \<in> set (window d) then window d else newest (capacity d) (window d @ [key]))"
proof (cases "key \<in> ids (state d)")
  case True
  with assms show ?thesis by (auto simp: claim_def dedupe_ok_def fifo_ok_def)
next
  case False
  let ?s = "state d\<lparr>ids := insert key (ids (state d)), order := order (state d) @ [key]\<rparr>"
  have "fifo_ok (ids ?s) (order ?s)"
    using assms False by (simp add: dedupe_ok_def fifo_ok_snoc)
  then obtain s' where "evict (capacity d) ?s = Some s'" "fifo_ok (ids s') (order s')"
    "order s' = newest (capacity d) (order ?s)"
    by (rule dedupe.loop_evicts)
  moreover have "key \<notin> set (window d)"
    using assms False by (simp add: dedupe_ok_def fifo_ok_def)
  ultimately show ?thesis
    using assms False by (simp add: claim_def dedupe_ok_def length_newest)
qed

lemma claims_window:
  "dedupe_ok d \<Longrightarrow>
     \<exists>d'. claims d ks = Some (fst (window_claims (capacity d) (window d) ks), d') \<and> dedupe_ok d' \<and>
          capacity d' = capacity d \<and> window d' = snd (window_claims (capacity d) (window d) ks)"
proof (induction ks arbitrary: d)
  case (Cons k ks)
  obtain d' where d': "claim d k = Some (k \<notin> set (window d), d')" "dedupe_ok d'" "capacity d' = capacity d"
    "window d' = (if k \<in> set (window d) then window d else newest (capacity d) (window d @ [k]))"
    using claim_window [OF Cons.prems] by blast
  with Cons.IH [OF d'(2)] show ?case
    by (auto simp: case_prod_beta)
qed simp

text \<open>An id with fewer than \<open>n\<close> successful claims after it is still in the window.\<close>

lemma window_keeps:
  assumes "w = xs @ k # ys" and "length ys + length (filter (\<lambda>b. b) (fst (window_claims n w ks))) < n"
  shows "k \<in> set (snd (window_claims n w ks))"
  using assms
proof (induction ks arbitrary: w xs ys)
  case (Cons j ks)
  show ?case
  proof (cases "j \<in> set w")
    case True
    then have "length ys + length (filter (\<lambda>b. b) (fst (window_claims n w ks))) < n"
      using Cons.prems(2) by (simp add: case_prod_beta)
    from Cons.IH [OF Cons.prems(1) this] True show ?thesis
      by (simp add: case_prod_beta)
  next
    case False
    then have less: "length (ys @ [j]) + length (filter (\<lambda>b. b) (fst (window_claims n (newest n (w @ [j])) ks))) < n"
      using Cons.prems(2) by (simp add: case_prod_beta)
    then have "newest n (w @ [j]) = drop (length (w @ [j]) - n) xs @ k # ys @ [j]"
      using Cons.prems(1) by (simp add: newest_def)
    from Cons.IH [OF this less] False show ?thesis
      by (simp add: case_prod_beta)
  qed
qed simp

lemma window_claims_append:
  "window_claims n w (ks @ ks') =
     (fst (window_claims n w ks) @ fst (window_claims n (snd (window_claims n w ks)) ks'),
      snd (window_claims n (snd (window_claims n w ks)) ks'))"
  by (induction ks arbitrary: w) (simp_all add: case_prod_beta)

lemma length_window_claims: "length (fst (window_claims n w ks)) = length ks"
  by (induction ks arbitrary: w) (simp_all add: case_prod_beta)

section \<open>Properties\<close>

text \<open>C31: every claim on a well-formed deduplicator returns, keeps it well formed, and is
  the first-in first-out window over the ids: it succeeds exactly for an id outside the
  window, leaves the window alone otherwise, and on success appends the id and keeps the
  newest ids up to the capacity, so that the set never exceeds it.\<close>

theorem claim_is_window:
  assumes "dedupe_ok d"
  shows "\<exists>d'. claim d key = Some (key \<notin> set (window d), d') \<and> dedupe_ok d' \<and> capacity d' = capacity d \<and>
    window d' = (if key \<in> set (window d) then window d else newest (capacity d) (window d @ [key])) \<and>
    card (ids (state d')) \<le> capacity d"
proof -
  obtain d' where d': "claim d key = Some (key \<notin> set (window d), d')" "dedupe_ok d'" "capacity d' = capacity d"
    "window d' = (if key \<in> set (window d) then window d else newest (capacity d) (window d @ [key]))"
    using claim_window [OF assms] by blast
  moreover have "card (ids (state d')) \<le> capacity d"
    using d'(2,3) dedupe.card_keys [of "state d'"] by (simp add: dedupe_ok_def)
  ultimately show ?thesis by blast
qed

theorem claim_is_window_witness:
  "\<exists>d'. claim \<lparr>capacity = 2, state = \<lparr>ids = {''a'', ''b''}, order = [''a'', ''b'']\<rparr>\<rparr> ''c'' = Some (True, d') \<and>
     window d' = [''b'', ''c'']"
  using claim_is_window [of "\<lparr>capacity = 2, state = \<lparr>ids = {''a'', ''b''}, order = [''a'', ''b'']\<rparr>\<rparr>" "''c''"]
  by (auto simp: dedupe_ok_def fifo_ok_def newest_def)

text \<open>C19: no id is claimed twice within the bound: from a new deduplicator of capacity
  \<open>cap\<close>, any sequence of claims returns, and when the claims at two positions of the same
  id both succeed, at least \<open>cap\<close> claims strictly between them succeeded.\<close>

theorem claimed_once_within_capacity:
  assumes "RequestDeduplicator_new cap = Inr d"
  shows "\<exists>bs d'. claims d ks = Some (bs, d') \<and> length bs = length ks \<and>
    (\<forall>xs ys zs k. ks = xs @ k # ys @ k # zs \<longrightarrow> bs ! length xs \<longrightarrow> bs ! (length xs + 1 + length ys) \<longrightarrow>
       cap \<le> length (filter (\<lambda>b. b) (take (length ys) (drop (length xs + 1) bs))))"
proof -
  have cap: "capacity d = cap" "window d = []" "0 < cap"
    using assms by (auto simp: RequestDeduplicator_new_def split: if_splits)
  define bs where "bs = fst (window_claims cap [] ks)"
  have run: "\<exists>d'. claims d ks = Some (bs, d')"
    using claims_window [OF RequestDeduplicator_new_ok [OF assms], of ks] by (auto simp: cap bs_def)
  have "cap \<le> length (filter (\<lambda>b. b) (take (length ys) (drop (length xs + 1) bs)))"
    if ks: "ks = xs @ k # ys @ k # zs" and first: "bs ! length xs"
      and second: "bs ! (length xs + 1 + length ys)" for xs ys zs k
  proof (rule ccontr)
    assume few: "\<not> ?thesis"
    define w where "w = snd (window_claims cap [] xs)"
    define w1 where "w1 = newest cap (w @ [k])"
    define cs where "cs = fst (window_claims cap w1 ys)"
    define w2 where "w2 = snd (window_claims cap w1 ys)"
    have bs: "bs = fst (window_claims cap [] xs) @ fst (window_claims cap w (k # ys @ k # zs))"
      by (simp add: bs_def ks window_claims_append w_def)
    then have "k \<notin> set w"
      using first by (simp add: nth_append length_window_claims case_prod_beta)
    then have split: "bs = fst (window_claims cap [] xs) @ True # cs @ fst (window_claims cap w2 (k # zs))"
      using bs by (simp add: case_prod_beta window_claims_append w1_def cs_def w2_def)
    then have "k \<notin> set w2"
      using second by (simp add: nth_append length_window_claims cs_def case_prod_beta)
    moreover have "length (filter (\<lambda>b. b) cs) < cap"
      using few split by (simp add: length_window_claims cs_def)
    then have "k \<in> set w2"
      unfolding w2_def cs_def using cap(3)
      by (intro window_keeps [of w1 "drop (length w + 1 - cap) w" k "[]"]) (simp_all add: w1_def newest_def)
    ultimately show False by simp
  qed
  with run show ?thesis
    by (auto simp: bs_def length_window_claims)
qed

theorem claimed_once_within_capacity_witness:
  "\<exists>bs d'. claims \<lparr>capacity = 2, state = \<lparr>ids = {}, order = []\<rparr>\<rparr> [''a'', ''b'', ''c'', ''a''] = Some (bs, d') \<and>
     (bs ! 0 \<longrightarrow> bs ! 3 \<longrightarrow> 2 \<le> length (filter (\<lambda>b. b) (take 2 (drop 1 bs))))"
proof -
  have "RequestDeduplicator_new 2 = Inr \<lparr>capacity = 2, state = \<lparr>ids = {}, order = []\<rparr>\<rparr>"
    by (simp add: RequestDeduplicator_new_def)
  from claimed_once_within_capacity [OF this, of "[''a'', ''b'', ''c'', ''a'']"]
  obtain bs d' where run: "claims \<lparr>capacity = 2, state = \<lparr>ids = {}, order = []\<rparr>\<rparr> [''a'', ''b'', ''c'', ''a''] = Some (bs, d')"
    and gap: "\<And>xs ys zs k. [''a'', ''b'', ''c'', ''a''] = xs @ k # ys @ k # zs \<Longrightarrow> bs ! length xs \<Longrightarrow>
      bs ! (length xs + 1 + length ys) \<Longrightarrow> 2 \<le> length (filter (\<lambda>b. b) (take (length ys) (drop (length xs + 1) bs)))"
    by blast
  from gap [of "[]" "''a''" "[''b'', ''c'']" "[]"] run show ?thesis
    by (auto simp: numeral_eq_Suc)
qed

end
