(* ===== verification/Artifacts.thy ===== *)
theory Artifacts
  imports Constants Decimal
begin

text \<open>
  \<open>apps/provider/src/artifacts.rs\<close>: the content-addressed proof store in memory and in a
  directory, and the HTTP handlers that serve it.

  A directory is a map from names to inodes, so that the hard link of \<open>put\<close> and the file
  handle it writes through alias as they do in the program. Each await point of \<open>put\<close> is a
  phase and \<open>put_step\<close> runs one phase; every system call can fail, which the argument
  \<open>faults\<close> decides. Concurrent calls of \<open>put\<close> are the step relation \<open>store_step\<close> that
  lets any call advance. SHA-256 is a parameter \<open>H\<close> from bytes to the 32 bytes of a digest.
\<close>

section \<open>Definitions\<close>

datatype ArtifactError = InvalidSize | DigestCollisionOrCorruption | Io

record StoredArtifact =
  sha256 :: string
  byte_size :: u64

definition validate_proof_size :: "nat \<Rightarrow> (ArtifactError, unit) result" where
  "validate_proof_size len =
     (if len = 0 \<or> len > unat MAX_PROOF_BYTES then Inl InvalidSize else Inr ())"

definition sha256_hex :: "(bytes \<Rightarrow> bytes) \<Rightarrow> bytes \<Rightarrow> string" where
  "sha256_hex H bs = hex_of_bytes (H bs)"

definition is_sha256 :: "string \<Rightarrow> bool" where
  "is_sha256 value \<longleftrightarrow> length value = 64 \<and> list_all lower_hex_byte value"

subsection \<open>The store in memory\<close>

type_synonym memory_store = "string \<rightharpoonup> bytes"

definition memory_put ::
  "(bytes \<Rightarrow> bytes) \<Rightarrow> memory_store \<Rightarrow> bytes \<Rightarrow> (ArtifactError, StoredArtifact) result \<times> memory_store" where
  "memory_put H artifacts proof =
     (case validate_proof_size (length proof) of
        Inl e \<Rightarrow> (Inl e, artifacts)
      | Inr _ \<Rightarrow>
          let sha = sha256_hex H proof; stored = \<lparr>sha256 = sha, byte_size = of_nat (length proof)\<rparr> in
          case artifacts sha of
            Some existing \<Rightarrow>
              if existing \<noteq> proof then (Inl DigestCollisionOrCorruption, artifacts)
              else (Inr stored, artifacts)
          | None \<Rightarrow> (Inr stored, artifacts(sha \<mapsto> proof)))"

definition memory_get :: "memory_store \<Rightarrow> string \<Rightarrow> (ArtifactError, bytes option) result" where
  "memory_get artifacts sha = (if \<not> is_sha256 sha then Inr None else Inr (artifacts sha))"

subsection \<open>The store in a directory\<close>

datatype node = Regular bytes | Symlink | Directory

record fs =
  entries :: "string \<rightharpoonup> nat"
  inodes :: "nat \<Rightarrow> node"
  next_inode :: nat

text \<open>Which calls fail; a failing write stops after some bytes.\<close>

record faults =
  stat_fails :: bool
  read_fails :: bool
  open_fails :: bool
  write_stops :: "nat option"
  sync_fails :: bool
  link_fails :: bool
  remove_fails :: bool

text \<open>The constructor creates the directory, and fails when it cannot.\<close>

definition FileProofArtifactStore_new :: "(string \<Rightarrow> bool) \<Rightarrow> string \<Rightarrow> (ArtifactError, string) result" where
  "FileProofArtifactStore_new creates directory = (if creates directory then Inr directory else Inl Io)"

text \<open>Paths are relative to the store's directory.\<close>

definition artifact_path :: "string \<Rightarrow> string" where
  "artifact_path sha = sha @ ''.json''"

text \<open>The sequence number is a 64-bit counter of the process.\<close>

definition temporary_path :: "string \<Rightarrow> nat \<Rightarrow> nat \<Rightarrow> string" where
  "temporary_path sha pid sequence =
     ''.'' @ sha @ ''.'' @ dec_string pid @ ''.'' @ dec_string (sequence mod 2 ^ 64) @ ''.tmp''"

definition file_get ::
  "(bytes \<Rightarrow> bytes) \<Rightarrow> fs \<Rightarrow> faults \<Rightarrow> string \<Rightarrow> (ArtifactError, bytes option) result" where
  "file_get H dir f sha =
     (if \<not> is_sha256 sha then Inr None
      else if stat_fails f then Inl Io
      else case entries dir (artifact_path sha) of
        None \<Rightarrow> Inr None
      | Some inode \<Rightarrow>
          (case inodes dir inode of
             Regular content \<Rightarrow>
               if length content = 0 \<or> length content > unat MAX_PROOF_BYTES
               then Inl DigestCollisionOrCorruption
               else if read_fails f then Inl Io
               else and_then (validate_proof_size (length content)) (\<lambda>_.
                 if sha256_hex H content \<noteq> sha then Inl DigestCollisionOrCorruption
                 else Inr (Some content))
           | _ \<Rightarrow> Inl DigestCollisionOrCorruption))"

text \<open>
  The phases of \<open>put\<close>: the first lookup, then opening, writing, syncing and linking the
  temporary file, the lookup after a lost race, and the removal of the temporary file,
  which carries the result of the block before it.
\<close>

datatype put_phase =
    PutBegin
  | PutOpen string
  | PutWrite string nat
  | PutSync string nat
  | PutLink string nat
  | PutRecheck string
  | PutCleanup string "(ArtifactError, unit) result"
  | PutDone "(ArtifactError, StoredArtifact) result"

fun put_step ::
  "(bytes \<Rightarrow> bytes) \<Rightarrow> nat \<Rightarrow> faults \<Rightarrow> bytes \<Rightarrow> put_phase \<Rightarrow> fs \<Rightarrow> nat \<Rightarrow> put_phase \<times> fs \<times> nat" where
  "put_step H pid f proof PutBegin dir sequence =
     (case and_then (validate_proof_size (length proof)) (\<lambda>_. file_get H dir f (sha256_hex H proof)) of
        Inl e \<Rightarrow> (PutDone (Inl e), dir, sequence)
      | Inr (Some existing) \<Rightarrow>
          if existing \<noteq> proof then (PutDone (Inl DigestCollisionOrCorruption), dir, sequence)
          else (PutDone (Inr \<lparr>sha256 = sha256_hex H proof, byte_size = of_nat (length proof)\<rparr>), dir, sequence)
      | Inr None \<Rightarrow> (PutOpen (temporary_path (sha256_hex H proof) pid sequence), dir, sequence + 1))"
| "put_step H pid f proof (PutOpen tmp) dir sequence =
     (if open_fails f \<or> entries dir tmp \<noteq> None then (PutCleanup tmp (Inl Io), dir, sequence)
      else (PutWrite tmp (next_inode dir),
            dir\<lparr>entries := (entries dir)(tmp \<mapsto> next_inode dir),
                inodes := (inodes dir)(next_inode dir := Regular []),
                next_inode := next_inode dir + 1\<rparr>,
            sequence))"
| "put_step H pid f proof (PutWrite tmp inode) dir sequence =
     (case write_stops f of
        Some n \<Rightarrow> (PutCleanup tmp (Inl Io),
                   dir\<lparr>inodes := (inodes dir)(inode := Regular (take n proof))\<rparr>, sequence)
      | None \<Rightarrow> (PutSync tmp inode, dir\<lparr>inodes := (inodes dir)(inode := Regular proof)\<rparr>, sequence))"
| "put_step H pid f proof (PutSync tmp inode) dir sequence =
     (if sync_fails f then (PutCleanup tmp (Inl Io), dir, sequence) else (PutLink tmp inode, dir, sequence))"
| "put_step H pid f proof (PutLink tmp inode) dir sequence =
     (if link_fails f then (PutCleanup tmp (Inl Io), dir, sequence)
      else case entries dir tmp of
        None \<Rightarrow> (PutCleanup tmp (Inl Io), dir, sequence)
      | Some linked \<Rightarrow>
          if entries dir (artifact_path (sha256_hex H proof)) \<noteq> None then (PutRecheck tmp, dir, sequence)
          else (PutCleanup tmp (Inr ()),
                dir\<lparr>entries := (entries dir)(artifact_path (sha256_hex H proof) \<mapsto> linked)\<rparr>, sequence))"
| "put_step H pid f proof (PutRecheck tmp) dir sequence =
     (PutCleanup tmp
        (and_then (file_get H dir f (sha256_hex H proof)) (\<lambda>found.
         and_then (ok_or DigestCollisionOrCorruption found) (\<lambda>existing.
         if existing = proof then Inr () else Inl DigestCollisionOrCorruption))),
      dir, sequence)"
| "put_step H pid f proof (PutCleanup tmp write_result) dir sequence =
     (PutDone (and_then write_result (\<lambda>_.
        Inr \<lparr>sha256 = sha256_hex H proof, byte_size = of_nat (length proof)\<rparr>)),
      if remove_fails f then dir else dir\<lparr>entries := (entries dir)(tmp := None)\<rparr>,
      sequence)"
| "put_step H pid f proof (PutDone r) dir sequence = (PutDone r, dir, sequence)"

text \<open>A call that nothing interrupts, with the faults of its successive phases.\<close>

fun phase_rank :: "put_phase \<Rightarrow> nat" where
  "phase_rank PutBegin = 7"
| "phase_rank (PutOpen _) = 6"
| "phase_rank (PutWrite _ _) = 5"
| "phase_rank (PutSync _ _) = 4"
| "phase_rank (PutLink _ _) = 3"
| "phase_rank (PutRecheck _) = 2"
| "phase_rank (PutCleanup _ _) = 1"
| "phase_rank (PutDone _) = 0"

lemma put_step_rank:
  "phase_rank (fst (put_step H pid f proof PutBegin dir sequence)) < 7"
  "phase_rank (fst (put_step H pid f proof (PutOpen tmp) dir sequence)) < 6"
  "phase_rank (fst (put_step H pid f proof (PutWrite tmp inode) dir sequence)) < 5"
  "phase_rank (fst (put_step H pid f proof (PutSync tmp inode) dir sequence)) < 4"
  "phase_rank (fst (put_step H pid f proof (PutLink tmp inode) dir sequence)) < 3"
  "phase_rank (fst (put_step H pid f proof (PutRecheck tmp) dir sequence)) < 2"
  "phase_rank (fst (put_step H pid f proof (PutCleanup tmp r) dir sequence)) < 1"
  by (simp_all split: sum.split option.split)

declare put_step.simps [simp del]

function put_run ::
  "(bytes \<Rightarrow> bytes) \<Rightarrow> nat \<Rightarrow> (nat \<Rightarrow> faults) \<Rightarrow> bytes \<Rightarrow> put_phase \<Rightarrow> fs \<Rightarrow> nat \<Rightarrow>
   (ArtifactError, StoredArtifact) result \<times> fs \<times> nat" where
  "put_run H pid fs proof phase dir sequence =
     (case phase of
        PutDone r \<Rightarrow> (r, dir, sequence)
      | _ \<Rightarrow> (case put_step H pid (fs (phase_rank phase)) proof phase dir sequence of
               (phase', dir', sequence') \<Rightarrow> put_run H pid fs proof phase' dir' sequence'))"
  by pat_completeness auto
termination
  by (relation "measure (\<lambda>(_, _, _, _, phase, _, _). phase_rank phase)")
    (auto simp: case_prod_unfold put_step_rank [simplified])

declare put_run.simps [simp del]

definition file_put ::
  "(bytes \<Rightarrow> bytes) \<Rightarrow> nat \<Rightarrow> (nat \<Rightarrow> faults) \<Rightarrow> fs \<Rightarrow> nat \<Rightarrow> bytes \<Rightarrow>
   (ArtifactError, StoredArtifact) result \<times> fs \<times> nat" where
  "file_put H pid fs dir sequence proof = put_run H pid fs proof PutBegin dir sequence"

subsection \<open>Concurrent calls\<close>

record store_system =
  sys_dir :: fs
  sys_sequence :: nat
  sys_puts :: "(bytes \<times> put_phase) list"

inductive store_step :: "(bytes \<Rightarrow> bytes) \<Rightarrow> nat \<Rightarrow> store_system \<Rightarrow> store_system \<Rightarrow> bool"
  for H pid where
  put_called:
    "store_step H pid s (s\<lparr>sys_puts := sys_puts s @ [(proof, PutBegin)]\<rparr>)"
| put_advances:
    "i < length (sys_puts s) \<Longrightarrow> sys_puts s ! i = (proof, phase) \<Longrightarrow>
     put_step H pid f proof phase (sys_dir s) (sys_sequence s) = (phase', dir', sequence') \<Longrightarrow>
     store_step H pid s
       \<lparr>sys_dir = dir', sys_sequence = sequence', sys_puts = (sys_puts s)[i := (proof, phase')]\<rparr>"

subsection \<open>HTTP\<close>

text \<open>A response; a later header of a name replaces the earlier one. The conversion of a
  string to a header value is a parameter that may refuse it.\<close>

record Response =
  status :: nat
  headers :: "string \<rightharpoonup> string"
  body :: bytes

definition immutable_response :: "(string \<Rightarrow> string option) \<Rightarrow> string \<Rightarrow> bytes \<Rightarrow> bool \<Rightarrow> Response" where
  "immutable_response header_from_str sha bs head_only =
     (let fixed = [''content-type'' \<mapsto> PROOF_MEDIA_TYPE,
                   ''cache-control'' \<mapsto> ''public, max-age=31536000, immutable'',
                   ''x-content-type-options'' \<mapsto> ''nosniff'',
                   ''access-control-expose-headers'' \<mapsto> ''content-length, etag''];
          sized = (case header_from_str (dec_string (length bs)) of
                     Some value \<Rightarrow> fixed(''content-length'' \<mapsto> value) | None \<Rightarrow> fixed);
          tagged = (case header_from_str (CHR 0x22 # sha @ [CHR 0x22]) of
                      Some value \<Rightarrow> sized(''etag'' \<mapsto> value) | None \<Rightarrow> sized)
      in \<lparr>status = 200, headers = tagged, body = (if head_only then [] else bs)\<rparr>)"

definition empty_response :: "nat \<Rightarrow> Response" where
  "empty_response code = \<lparr>status = code, headers = Map.empty, body = []\<rparr>"

definition get_artifact ::
  "(string \<Rightarrow> string option) \<Rightarrow> (string \<Rightarrow> (ArtifactError, bytes option) result) \<Rightarrow> string \<Rightarrow> Response" where
  "get_artifact header_from_str get artifact =
     (case strip_suffix ''.json'' artifact of
        None \<Rightarrow> empty_response 404
      | Some sha \<Rightarrow>
          (case get sha of
             Inr (Some bs) \<Rightarrow> immutable_response header_from_str sha bs False
           | Inr None \<Rightarrow> empty_response 404
           | Inl _ \<Rightarrow> empty_response 500))"

definition head_artifact ::
  "(string \<Rightarrow> string option) \<Rightarrow> (string \<Rightarrow> (ArtifactError, bytes option) result) \<Rightarrow> string \<Rightarrow> Response" where
  "head_artifact header_from_str get artifact =
     (case strip_suffix ''.json'' artifact of
        None \<Rightarrow> empty_response 404
      | Some sha \<Rightarrow>
          (case get sha of
             Inr (Some bs) \<Rightarrow> immutable_response header_from_str sha bs True
           | Inr None \<Rightarrow> empty_response 404
           | Inl _ \<Rightarrow> empty_response 500))"

section \<open>Names\<close>

lemma dec_string_inject: "dec_string m = dec_string n \<longleftrightarrow> m = n"
proof
  assume eq: "dec_string m = dec_string n"
  have "parse_unsigned (Suc (m + n)) (dec_string m) = Some m"
    "parse_unsigned (Suc (m + n)) (dec_string n) = Some n"
    by (rule parse_unsigned_dec_string, simp)+
  then show "m = n" unfolding eq by simp
qed simp

lemma dec_string_digits: "c \<in> set (dec_string n) \<Longrightarrow> is_ascii_digit c"
proof (induction n rule: dec_string.induct)
  case (1 n)
  then show ?case
    by (cases "n < 10") (auto simp: dec_string.simps [of n])
qed

lemma dec_string_no_dot [simp]: "CHR ''.'' \<notin> set (dec_string n)"
  using dec_string_digits [of "CHR ''.''" n] by (auto simp: is_ascii_digit_iff)

lemma last_field_inject:
  assumes "xs @ c # ds = ys @ c # es" and "c \<notin> set ds" and "c \<notin> set es"
  shows "ds = es"
proof -
  have field: "takeWhile (\<lambda>x. x \<noteq> c) (rev (zs @ c # fs)) = rev fs" if "c \<notin> set fs" for zs fs
    using that takeWhile_append2 [of "rev fs" "\<lambda>x. x \<noteq> c" "c # rev zs"] by auto
  have "rev ds = rev es"
    using field [OF assms(2), of xs] field [OF assms(3), of ys] assms(1) by simp
  then show ?thesis by simp
qed

lemma temporary_path_inject:
  assumes "temporary_path sha pid q = temporary_path sha' pid q'"
  shows "q mod 2 ^ 64 = q' mod 2 ^ 64"
proof -
  from assms have
    "(''.'' @ sha @ ''.'' @ dec_string pid) @ CHR ''.'' # dec_string (q mod 2 ^ 64) =
     (''.'' @ sha' @ ''.'' @ dec_string pid) @ CHR ''.'' # dec_string (q' mod 2 ^ 64)"
    by (simp add: temporary_path_def)
  from last_field_inject [OF this] show ?thesis
    by (simp add: dec_string_inject)
qed

lemma temporary_not_artifact [simp]: "temporary_path sha pid q \<noteq> artifact_path sha'"
proof
  assume "temporary_path sha pid q = artifact_path sha'"
  then have "last (temporary_path sha pid q) = last (artifact_path sha')" by simp
  then show False by (simp add: temporary_path_def artifact_path_def)
qed

lemma artifact_path_inject [simp]: "artifact_path a = artifact_path b \<longleftrightarrow> a = b"
  by (simp add: artifact_path_def)

section \<open>What one phase does\<close>

definition valid_size :: "bytes \<Rightarrow> bool" where
  "valid_size bs \<longleftrightarrow> 0 < length bs \<and> length bs \<le> 33554432"

lemma validate_proof_size_ok: "validate_proof_size (length bs) = Inr () \<longleftrightarrow> valid_size bs"
  by (auto simp: validate_proof_size_def valid_size_def constants)

definition final_content :: "fs \<Rightarrow> string \<Rightarrow> bytes option" where
  "final_content dir sha =
     (case entries dir (artifact_path sha) of
        Some inode \<Rightarrow> (case inodes dir inode of Regular bs \<Rightarrow> Some bs | _ \<Rightarrow> None)
      | None \<Rightarrow> None)"

text \<open>Inodes in use were allocated, and what an artifact's name leads to is its content.\<close>

definition dir_ok :: "(bytes \<Rightarrow> bytes) \<Rightarrow> fs \<Rightarrow> bool" where
  "dir_ok H dir \<longleftrightarrow>
     (\<forall>name inode. entries dir name = Some inode \<longrightarrow> inode < next_inode dir) \<and>
     (\<forall>sha. is_sha256 sha \<longrightarrow> entries dir (artifact_path sha) \<noteq> None \<longrightarrow>
        (\<exists>bs. final_content dir sha = Some bs \<and> sha256_hex H bs = sha \<and> valid_size bs))"

lemma file_get_eq_Some:
  "file_get H dir f sha = Inr (Some bs) \<Longrightarrow> final_content dir sha = Some bs \<and> sha256_hex H bs = sha \<and> is_sha256 sha"
  by (auto simp: file_get_def final_content_def and_then_eq_Inr split: if_splits option.splits node.splits)

fun phase_tmp :: "put_phase \<Rightarrow> string option" where
  "phase_tmp (PutOpen tmp) = Some tmp"
| "phase_tmp (PutWrite tmp _) = Some tmp"
| "phase_tmp (PutSync tmp _) = Some tmp"
| "phase_tmp (PutLink tmp _) = Some tmp"
| "phase_tmp (PutRecheck tmp) = Some tmp"
| "phase_tmp (PutCleanup tmp _) = Some tmp"
| "phase_tmp _ = None"

fun phase_ok :: "(bytes \<Rightarrow> bytes) \<Rightarrow> fs \<Rightarrow> bytes \<Rightarrow> put_phase \<Rightarrow> bool" where
  "phase_ok H dir proof PutBegin \<longleftrightarrow> True"
| "phase_ok H dir proof (PutOpen tmp) \<longleftrightarrow> valid_size proof"
| "phase_ok H dir proof (PutWrite tmp inode) \<longleftrightarrow>
     valid_size proof \<and> entries dir -` {Some inode} = {tmp}"
| "phase_ok H dir proof (PutSync tmp inode) \<longleftrightarrow>
     valid_size proof \<and> entries dir tmp = Some inode \<and> inodes dir inode = Regular proof"
| "phase_ok H dir proof (PutLink tmp inode) \<longleftrightarrow>
     valid_size proof \<and> entries dir tmp = Some inode \<and> inodes dir inode = Regular proof"
| "phase_ok H dir proof (PutRecheck tmp) \<longleftrightarrow> valid_size proof"
| "phase_ok H dir proof (PutCleanup tmp r) \<longleftrightarrow>
     (r = Inr () \<longrightarrow> final_content dir (sha256_hex H proof) = Some proof)"
| "phase_ok H dir proof (PutDone r) \<longleftrightarrow>
     (\<forall>stored. r = Inr stored \<longrightarrow> final_content dir (sha256_hex H proof) = Some proof \<and>
        stored = \<lparr>sha256 = sha256_hex H proof, byte_size = of_nat (length proof)\<rparr>)"

lemma only_name:
  assumes "entries dir -` {Some inode} = {tmp}"
  shows "entries dir tmp = Some inode" and "entries dir name = Some inode \<Longrightarrow> name = tmp"
proof -
  have "tmp \<in> entries dir -` {Some inode}" by (simp add: assms)
  then show "entries dir tmp = Some inode" by simp
  assume "entries dir name = Some inode"
  then have "name \<in> entries dir -` {Some inode}" by simp
  then show "name = tmp" by (simp add: assms)
qed

text \<open>What a phase leaves alone in the directory.\<close>

definition phase_frame :: "put_phase \<Rightarrow> fs \<Rightarrow> fs \<Rightarrow> bool" where
  "phase_frame phase dir dir' \<longleftrightarrow>
     next_inode dir \<le> next_inode dir' \<and>
     (\<forall>name. entries dir' name = entries dir name \<or> phase_tmp phase = Some name \<or>
        (\<exists>sha tmp. name = artifact_path sha \<and> entries dir name = None \<and>
           phase_tmp phase = Some tmp \<and> entries dir' name = entries dir tmp)) \<and>
     (\<forall>name inode. phase_tmp phase = Some name \<longrightarrow> entries dir' name = Some inode \<longrightarrow>
        entries dir name = Some inode \<or> next_inode dir \<le> inode) \<and>
     (\<forall>inode. inode < next_inode dir \<longrightarrow>
        inodes dir' inode = inodes dir inode \<or> (\<exists>tmp. phase = PutWrite tmp inode))"

lemma frame_next: "phase_frame phase dir dir' \<Longrightarrow> next_inode dir \<le> next_inode dir'"
  by (simp add: phase_frame_def)

lemma frame_entries:
  assumes "phase_frame phase dir dir'"
  obtains "entries dir' name = entries dir name" | "phase_tmp phase = Some name"
  | sha tmp where "name = artifact_path sha" "entries dir name = None" "phase_tmp phase = Some tmp"
      "entries dir' name = entries dir tmp"
  using assms unfolding phase_frame_def by blast

lemma frame_keeps:
  "phase_frame phase dir dir' \<Longrightarrow> entries dir name = Some inode \<Longrightarrow> phase_tmp phase \<noteq> Some name \<Longrightarrow>
     entries dir' name = Some inode"
  by (erule frame_entries [where name = name]) simp_all

lemma frame_own:
  "phase_frame phase dir dir' \<Longrightarrow> phase_tmp phase = Some name \<Longrightarrow> entries dir' name = Some inode \<Longrightarrow>
     entries dir name = Some inode \<or> next_inode dir \<le> inode"
  by (simp add: phase_frame_def)

lemma frame_inodes:
  "phase_frame phase dir dir' \<Longrightarrow> inode < next_inode dir \<Longrightarrow> (\<And>tmp. phase \<noteq> PutWrite tmp inode) \<Longrightarrow>
     inodes dir' inode = inodes dir inode"
  unfolding phase_frame_def by blast

lemma put_step_frame:
  "put_step H pid f proof phase dir sequence = (phase', dir', sequence') \<Longrightarrow> phase_frame phase dir dir'"
  by (cases phase)
    (auto simp: put_step.simps phase_frame_def split: sum.splits option.splits if_splits)

lemma put_step_sequence:
  "put_step H pid f proof phase dir sequence = (phase', dir', sequence') \<Longrightarrow>
     sequence \<le> sequence' \<and>
     (phase_tmp phase' = None \<or> phase_tmp phase' = phase_tmp phase \<or>
      sequence' = sequence + 1 \<and> phase_tmp phase' = Some (temporary_path (sha256_hex H proof) pid sequence))"
  by (cases phase)
    (auto simp: put_step.simps split: sum.splits option.splits if_splits)

lemma final_content_eq:
  "final_content dir sha = Some bs \<longleftrightarrow>
     (\<exists>inode. entries dir (artifact_path sha) = Some inode \<and> inodes dir inode = Regular bs)"
  by (auto simp: final_content_def split: option.splits node.splits)

text \<open>A frame keeps every artifact that is there, as long as it is not being written.\<close>

lemma frame_final:
  assumes frame: "phase_frame phase dir dir'" and ok: "dir_ok H dir" "phase_ok H dir proof phase"
    and tmp: "\<And>sha. phase_tmp phase \<noteq> Some (artifact_path sha)"
    and content: "final_content dir sha = Some bs"
  shows "final_content dir' sha = Some bs"
proof -
  obtain inode where inode: "entries dir (artifact_path sha) = Some inode" "inodes dir inode = Regular bs"
    using content by (auto simp: final_content_eq)
  have "inode < next_inode dir"
    using ok(1) inode(1) by (auto simp: dir_ok_def)
  moreover have "phase \<noteq> PutWrite t inode" for t
    using ok(2) only_name(2) [OF _ inode(1), of t] tmp [of sha] by auto
  ultimately have "inodes dir' inode = Regular bs"
    using frame_inodes [OF frame] inode(2) by simp
  moreover have "entries dir' (artifact_path sha) = Some inode"
    using frame_keeps [OF frame inode(1) tmp] .
  ultimately show ?thesis by (auto simp: final_content_eq)
qed

text \<open>A frame keeps what another call relies on.\<close>

lemma frame_other:
  assumes frame: "phase_frame phase dir dir'" and ok: "dir_ok H dir" "phase_ok H dir proof phase"
    and tmp: "\<And>sha. phase_tmp phase \<noteq> Some (artifact_path sha)"
    and other: "phase_ok H dir proof' other" and tmp': "\<And>sha. phase_tmp other \<noteq> Some (artifact_path sha)"
    and distinct: "phase_tmp other = None \<or> phase_tmp other \<noteq> phase_tmp phase"
  shows "phase_ok H dir' proof' other"
proof -
  have final: "final_content dir sha = Some bs \<Longrightarrow> final_content dir' sha = Some bs" for sha bs
    using frame_final [OF frame ok tmp] .
  have alloc: "entries dir name = Some inode \<Longrightarrow> inode < next_inode dir" for name inode
    using ok(1) by (auto simp: dir_ok_def)
  have kept: "entries dir' t = Some inode \<and> inodes dir' inode = inodes dir inode"
    if "phase_tmp other = Some t" "entries dir t = Some inode" for t inode
  proof -
    have "phase \<noteq> PutWrite t' inode" for t'
      using ok(2) only_name(2) [OF _ that(2), of t'] that(1) distinct by auto
    then have "inodes dir' inode = inodes dir inode"
      using frame_inodes [OF frame alloc [OF that(2)]] by simp
    moreover have "phase_tmp phase \<noteq> Some t"
      using that(1) distinct by auto
    then have "entries dir' t = Some inode"
      by (rule frame_keeps [OF frame that(2)])
    ultimately show ?thesis by simp
  qed
  show ?thesis
  proof (cases other)
    case (PutWrite t inode)
    have "entries dir -` {Some inode} = {t}"
      using other PutWrite by simp
    note here = only_name(1) [OF this] and only = only_name(2) [OF this]
    have uniq: "name = t" if "entries dir' name = Some inode" for name
    proof -
      show ?thesis
      proof (rule frame_entries [OF frame, of name])
        assume "entries dir' name = entries dir name"
        with that have "entries dir name = Some inode" by simp
        then show ?thesis by (rule only)
      next
        assume "phase_tmp phase = Some name"
        from frame_own [OF frame this that] alloc [OF here] have "entries dir name = Some inode"
          by auto
        then show ?thesis by (rule only)
      next
        fix tmp assume tmp: "phase_tmp phase = Some tmp" "entries dir' name = entries dir tmp"
        with that have "entries dir tmp = Some inode" by simp
        then have "tmp = t" by (rule only)
        then show ?thesis using tmp(1) distinct PutWrite by simp
      qed
    qed
    have "entries dir' t = Some inode"
      using kept [of t inode] here PutWrite by simp
    then have "entries dir' -` {Some inode} = {t}"
      by (auto dest: uniq)
    then show ?thesis
      using other PutWrite by simp
  next
    case (PutSync t inode)
    with other kept [of t inode] show ?thesis by simp
  next
    case (PutLink t inode)
    with other kept [of t inode] show ?thesis by simp
  qed (use other final in simp_all)
qed

text \<open>A phase keeps the directory well formed and establishes what the next one relies on.\<close>

lemma put_step_links:
  assumes "put_step H pid f proof phase dir sequence = (phase', dir', sequence')"
    and "phase_tmp phase \<noteq> Some (artifact_path sha)"
    and "entries dir (artifact_path sha) = None" and "entries dir' (artifact_path sha) \<noteq> None"
  shows "sha = sha256_hex H proof \<and> (\<exists>tmp inode. phase = PutLink tmp inode) \<and>
    (\<exists>tmp. phase' = PutCleanup tmp (Inr ()))"
  using assms
  by (cases phase) (auto simp: put_step.simps split: sum.splits option.splits if_splits)

lemma put_step_own:
  assumes step: "put_step H pid f proof phase dir sequence = (phase', dir', sequence')"
    and ok: "dir_ok H dir" "phase_ok H dir proof phase"
    and tmp: "\<And>sha. phase_tmp phase \<noteq> Some (artifact_path sha)"
  shows "dir_ok H dir' \<and> phase_ok H dir' proof phase'"
proof -
  note frame = put_step_frame [OF step]
  have final: "final_content dir sha = Some bs \<Longrightarrow> final_content dir' sha = Some bs" for sha bs
    using frame_final [OF frame ok tmp] .
  have alloc: "entries dir name = Some inode \<Longrightarrow> inode < next_inode dir" for name inode
    using ok(1) by (auto simp: dir_ok_def)
  have fresh: "entries dir name \<noteq> Some (next_inode dir)" for name
    using alloc by blast
  have own: "phase_ok H dir' proof phase'"
  proof (cases phase)
    case PutBegin
    with step show ?thesis
      by (auto simp: put_step.simps and_then_eq_Inr validate_proof_size_ok dest!: file_get_eq_Some
          split: sum.splits option.splits if_splits)
  next
    case (PutRecheck t)
    with step show ?thesis
      by (auto simp: put_step.simps and_then_eq_Inr dest!: file_get_eq_Some split: if_splits)
  next
    case (PutCleanup t r)
    with step ok(2) final [of "sha256_hex H proof" "proof"] show ?thesis
      by (cases r) (auto simp: put_step.simps)
  next
    case (PutOpen t)
    with step ok(2) fresh show ?thesis
      by (auto simp: put_step.simps vimage_def split: if_splits)
  next
    case (PutWrite t inode)
    with step ok(2) show ?thesis
      by (auto simp: put_step.simps split: option.splits)
  next
    case (PutSync t inode)
    with step ok(2) show ?thesis
      by (auto simp: put_step.simps split: if_splits)
  next
    case (PutLink t inode)
    with step ok(2) show ?thesis
      by (auto simp: put_step.simps final_content_eq split: if_splits)
  next
    case (PutDone r)
    with step ok(2) show ?thesis
      by (simp add: put_step.simps)
  qed
  have "\<exists>bs. final_content dir' sha = Some bs \<and> sha256_hex H bs = sha \<and> valid_size bs"
    if sha: "is_sha256 sha" "entries dir' (artifact_path sha) \<noteq> None" for sha
  proof (cases "entries dir (artifact_path sha)")
    case None
    with put_step_links [OF step tmp None sha(2)] own ok(2) show ?thesis by auto
  next
    case (Some inode)
    with ok(1) sha(1) obtain bs where "final_content dir sha = Some bs" "sha256_hex H bs = sha" "valid_size bs"
      unfolding dir_ok_def by (metis option.distinct(1))
    with final show ?thesis by blast
  qed
  moreover have "inode < next_inode dir'" if "entries dir' name = Some inode" for name inode
  proof -
    have "next_inode dir \<le> next_inode dir'"
      using frame by (simp add: phase_frame_def)
    moreover have "inode < next_inode dir \<or> inode < next_inode dir'"
      using step that alloc
      by (cases phase)
        (auto simp: put_step.simps less_Suc_eq split: sum.splits option.splits if_splits)
    ultimately show ?thesis by linarith
  qed
  ultimately show ?thesis
    using own by (auto simp: dir_ok_def)
qed

section \<open>Concurrent calls\<close>

definition call_ok :: "(bytes \<Rightarrow> bytes) \<Rightarrow> nat \<Rightarrow> store_system \<Rightarrow> nat \<Rightarrow> bool" where
  "call_ok H pid s i \<longleftrightarrow>
     phase_ok H (sys_dir s) (fst (sys_puts s ! i)) (snd (sys_puts s ! i)) \<and>
     (\<forall>t. phase_tmp (snd (sys_puts s ! i)) = Some t \<longrightarrow>
        (\<exists>sha q. q < sys_sequence s \<and> t = temporary_path sha pid q))"

definition system_ok :: "(bytes \<Rightarrow> bytes) \<Rightarrow> nat \<Rightarrow> store_system \<Rightarrow> bool" where
  "system_ok H pid s \<longleftrightarrow>
     dir_ok H (sys_dir s) \<and>
     (\<forall>i < length (sys_puts s). call_ok H pid s i) \<and>
     (\<forall>i < length (sys_puts s). \<forall>j < length (sys_puts s). i \<noteq> j \<longrightarrow>
        phase_tmp (snd (sys_puts s ! i)) = None \<or>
        phase_tmp (snd (sys_puts s ! i)) \<noteq> phase_tmp (snd (sys_puts s ! j)))"

lemma call_ok_artifact: "call_ok H pid s i \<Longrightarrow> phase_tmp (snd (sys_puts s ! i)) \<noteq> Some (artifact_path sha)"
  using temporary_not_artifact [THEN not_sym] by (auto simp: call_ok_def)

text \<open>A name that the counter has not reached is not in use.\<close>

lemma fresh_temporary:
  assumes "call_ok H pid s i" and "sys_sequence s < 2 ^ 64"
  shows "phase_tmp (snd (sys_puts s ! i)) \<noteq> Some (temporary_path sha pid (sys_sequence s))"
proof
  assume "phase_tmp (snd (sys_puts s ! i)) = Some (temporary_path sha pid (sys_sequence s))"
  then obtain sha' q where "q < sys_sequence s"
    "temporary_path sha pid (sys_sequence s) = temporary_path sha' pid q"
    using assms(1) unfolding call_ok_def by blast
  from temporary_path_inject [OF this(2)] this(1) assms(2) show False by simp
qed

lemma put_advances_ok:
  assumes ok: "system_ok H pid s" and i: "i < length (sys_puts s)" "sys_puts s ! i = (p, phase)"
    and step: "put_step H pid f p phase (sys_dir s) (sys_sequence s) = (phase', dir', sequence')"
    and small: "sequence' \<le> 2 ^ 64"
  defines "s' \<equiv> \<lparr>sys_dir = dir', sys_sequence = sequence', sys_puts = (sys_puts s)[i := (p, phase')]\<rparr>"
  shows "system_ok H pid s'"
    and "final_content (sys_dir s) sha = Some bs \<Longrightarrow> final_content dir' sha = Some bs"
proof -
  have dir: "dir_ok H (sys_dir s)" and calls: "\<And>j. j < length (sys_puts s) \<Longrightarrow> call_ok H pid s j"
    and distinct: "\<And>j k. j < length (sys_puts s) \<Longrightarrow> k < length (sys_puts s) \<Longrightarrow> j \<noteq> k \<Longrightarrow>
        phase_tmp (snd (sys_puts s ! j)) = None \<or>
        phase_tmp (snd (sys_puts s ! j)) \<noteq> phase_tmp (snd (sys_puts s ! k))"
    using ok by (auto simp: system_ok_def)
  have own: "phase_ok H (sys_dir s) p phase" and artifact: "phase_tmp phase \<noteq> Some (artifact_path sha)" for sha
    using calls [OF i(1)] call_ok_artifact [OF calls [OF i(1)]] i(2) by (auto simp: call_ok_def)
  note frame = put_step_frame [OF step]
  show "final_content (sys_dir s) sha = Some bs \<Longrightarrow> final_content dir' sha = Some bs"
    by (rule frame_final [OF frame dir own artifact])
  have new: "dir_ok H dir'" "phase_ok H dir' p phase'"
    using put_step_own [OF step dir own artifact] by auto
  have seq: "sys_sequence s \<le> sequence'" and tmp: "phase_tmp phase' = None \<or> phase_tmp phase' = phase_tmp phase \<or>
      sequence' = sys_sequence s + 1 \<and>
      phase_tmp phase' = Some (temporary_path (sha256_hex H p) pid (sys_sequence s))"
    using put_step_sequence [OF step] by auto
  have "call_ok H pid s' j" if j: "j < length (sys_puts s)" for j
  proof (cases "j = i")
    case True
    have "\<exists>sha q. q < sequence' \<and> t = temporary_path sha pid q" if "phase_tmp phase' = Some t" for t
    proof (cases "phase_tmp phase = Some t")
      case True
      then obtain sha q where "q < sys_sequence s" "t = temporary_path sha pid q"
        using calls [OF i(1)] i(2) by (auto simp: call_ok_def)
      with seq show ?thesis by (metis order_less_le_trans)
    next
      case False
      with tmp that have "sys_sequence s < sequence'" "t = temporary_path (sha256_hex H p) pid (sys_sequence s)"
        by auto
      then show ?thesis by blast
    qed
    with True new(2) i(1) show ?thesis
      by (simp add: call_ok_def s'_def)
  next
    case False
    have "phase_ok H dir' (fst (sys_puts s ! j)) (snd (sys_puts s ! j))"
      using frame_other [OF frame dir own artifact _ call_ok_artifact [OF calls [OF j]]]
        calls [OF j] distinct [OF j i(1) False] i(2) by (simp add: call_ok_def)
    moreover have "\<exists>sha q. q < sequence' \<and> t = temporary_path sha pid q"
      if "phase_tmp (snd (sys_puts s ! j)) = Some t" for t
      using calls [OF j] that seq unfolding call_ok_def by (meson order_less_le_trans)
    ultimately show ?thesis
      using False by (simp add: call_ok_def s'_def)
  qed
  moreover
  have clash: "phase_tmp (snd (sys_puts s ! j)) = None \<or> phase_tmp (snd (sys_puts s ! j)) \<noteq> phase_tmp phase'"
    if j: "j < length (sys_puts s)" "j \<noteq> i" for j
    using tmp distinct [OF j(1) i(1) j(2)] i(2) small
      fresh_temporary [OF calls [OF j(1)], of "sha256_hex H p"]
    by auto
  have "phase_tmp (snd (sys_puts s' ! j)) = None \<or> phase_tmp (snd (sys_puts s' ! j)) \<noteq> phase_tmp (snd (sys_puts s' ! k))"
    if "j < length (sys_puts s)" "k < length (sys_puts s)" "j \<noteq> k" for j k
    using clash [of j] clash [of k] distinct [OF that] that i(1)
    by (cases "j = i"; cases "k = i") (auto simp: s'_def)
  ultimately show "system_ok H pid s'"
    using new(1) by (simp add: system_ok_def s'_def)
qed

lemma store_step_ok:
  assumes step: "store_step H pid s s'" and ok: "system_ok H pid s" and small: "sys_sequence s' \<le> 2 ^ 64"
  shows "system_ok H pid s'"
    and "final_content (sys_dir s) sha = Some bs \<Longrightarrow> final_content (sys_dir s') sha = Some bs"
proof -
  show "system_ok H pid s'"
    using step
  proof cases
    case (put_called p)
    with ok show ?thesis
      by (auto simp: system_ok_def call_ok_def nth_append less_Suc_eq)
  next
    case put_advances
    with put_advances_ok(1) [OF ok put_advances(2,3,4)] small show ?thesis by simp
  qed
  show "final_content (sys_dir s) sha = Some bs \<Longrightarrow> final_content (sys_dir s') sha = Some bs"
    using step
  proof cases
    case put_advances
    with put_advances_ok(2) [OF ok put_advances(2,3,4)] small
    show "final_content (sys_dir s) sha = Some bs \<Longrightarrow> final_content (sys_dir s') sha = Some bs"
      by simp
  qed simp
qed

lemma store_step_sequence: "store_step H pid s s' \<Longrightarrow> sys_sequence s \<le> sys_sequence s'"
  by (auto elim!: store_step.cases dest: put_step_sequence)

lemma store_steps_ok:
  assumes "(store_step H pid)\<^sup>*\<^sup>* s s'" and "system_ok H pid s" and "sys_sequence s' \<le> 2 ^ 64"
  shows "system_ok H pid s' \<and> (\<forall>sha bs. final_content (sys_dir s) sha = Some bs \<longrightarrow>
    final_content (sys_dir s') sha = Some bs)"
  using assms
proof (induction rule: rtranclp_induct)
  case (step u v)
  then have "sys_sequence u \<le> 2 ^ 64"
    using store_step_sequence [of H pid u v] by linarith
  with step store_step_ok [OF step.hyps(2)] show ?case by blast
qed simp

section \<open>Uninterrupted calls and the interface of a store\<close>

lemma put_step_rank_less:
  "phase_rank phase \<noteq> 0 \<Longrightarrow>
     phase_rank (fst (put_step H pid f p phase dir sequence)) < phase_rank phase"
  using put_step_rank by (cases phase) simp_all

lemma put_run_step:
  "phase_rank phase \<noteq> 0 \<Longrightarrow>
     put_run H pid fs p phase dir sequence =
       (case put_step H pid (fs (phase_rank phase)) p phase dir sequence of
          (phase', dir', sequence') \<Rightarrow> put_run H pid fs p phase' dir' sequence')"
  by (subst put_run.simps) (cases phase; simp)

lemma put_run_ok:
  assumes "put_run H pid fs p phase dir sequence = (r, dir', sequence')"
    and "dir_ok H dir" and "phase_ok H dir p phase"
    and "phase_tmp phase = None \<or> (\<exists>sha q. phase_tmp phase = Some (temporary_path sha pid q))"
  shows "dir_ok H dir' \<and> phase_ok H dir' p (PutDone r) \<and>
    (\<forall>sha bs. final_content dir sha = Some bs \<longrightarrow> final_content dir' sha = Some bs)"
  using assms
proof (induction "phase_rank phase" arbitrary: phase dir sequence rule: less_induct)
  case less
  show ?case
  proof (cases "phase_rank phase = 0")
    case True
    then obtain r' where "phase = PutDone r'" by (cases phase) simp_all
    with less.prems show ?thesis by (simp add: put_run.simps)
  next
    case unfinished: False
    obtain phase1 dir1 sequence1 where
      step: "put_step H pid (fs (phase_rank phase)) p phase dir sequence = (phase1, dir1, sequence1)"
      using prod_cases3 by blast
    have tmp: "phase_tmp phase \<noteq> Some (artifact_path sha)" for sha
      using less.prems(4) temporary_not_artifact [THEN not_sym] by auto
    have rank: "phase_rank phase1 < phase_rank phase"
      using put_step_rank_less [OF unfinished] step by (metis fst_conv)
    have run: "put_run H pid fs p phase1 dir1 sequence1 = (r, dir', sequence')"
      using less.prems(1) step put_run_step [OF unfinished] by simp
    have own: "dir_ok H dir1" "phase_ok H dir1 p phase1"
      using put_step_own [OF step less.prems(2,3) tmp] by auto
    have "phase_tmp phase1 = None \<or> (\<exists>sha q. phase_tmp phase1 = Some (temporary_path sha pid q))"
      using put_step_sequence [OF step] less.prems(4) by metis
    from less.hyps [OF rank run own this] frame_final [OF put_step_frame [OF step] less.prems(2,3) tmp]
    show ?thesis by blast
  qed
qed

text \<open>
  What the processor and the HTTP handlers rely on: \<open>f\<close> is the weather of a call, \<open>content\<close>
  the proof a digest stands for. A successful \<open>put\<close> publishes the bytes under their digest,
  no call withdraws or changes a published proof, and \<open>get\<close> returns published proofs with
  that digest only, and does so when nothing fails.
\<close>

locale artifact_store =
  fixes H :: "bytes \<Rightarrow> bytes" and inv :: "'s \<Rightarrow> bool"
    and put :: "'f \<Rightarrow> 's \<Rightarrow> bytes \<Rightarrow> (ArtifactError, StoredArtifact) result \<times> 's"
    and get :: "'f \<Rightarrow> 's \<Rightarrow> string \<Rightarrow> (ArtifactError, bytes option) result"
    and content :: "'s \<Rightarrow> string \<Rightarrow> bytes option" and healthy :: "'f \<Rightarrow> bool"
  assumes put_inv: "inv s \<Longrightarrow> put f s p = (r, s') \<Longrightarrow> inv s'"
    and put_stored: "inv s \<Longrightarrow> put f s p = (Inr stored, s') \<Longrightarrow>
      content s' (sha256_hex H p) = Some p \<and>
      stored = \<lparr>sha256 = sha256_hex H p, byte_size = of_nat (length p)\<rparr>"
    and put_keeps: "inv s \<Longrightarrow> put f s p = (r, s') \<Longrightarrow> content s sha = Some bs \<Longrightarrow> content s' sha = Some bs"
    and get_sound: "inv s \<Longrightarrow> get f s sha = Inr (Some bs) \<Longrightarrow>
      content s sha = Some bs \<and> sha256_hex H bs = sha \<and> is_sha256 sha"
    and get_complete: "inv s \<Longrightarrow> content s sha = Some bs \<Longrightarrow> is_sha256 sha \<Longrightarrow> healthy f \<Longrightarrow>
      get f s sha = Inr (Some bs)"
begin

abbreviation puts :: "('f \<times> bytes) list \<Rightarrow> 's \<Rightarrow> 's" where
  "puts calls s \<equiv> fold (\<lambda>(f, p) s. snd (put f s p)) calls s"

lemma puts_keep: "inv s \<Longrightarrow> inv (puts calls s) \<and> (content s sha = Some bs \<longrightarrow> content (puts calls s) sha = Some bs)"
proof (induction calls arbitrary: s)
  case (Cons c calls)
  obtain f p where c: "c = (f, p)" by (cases c)
  obtain r s' where put: "put f s p = (r, s')" by (cases "put f s p")
  have "inv s'" and "content s sha = Some bs \<longrightarrow> content s' sha = Some bs"
    using put_inv [OF Cons.prems put] put_keeps [OF Cons.prems put] by auto
  with Cons.IH [of s'] show ?case by (auto simp: c put)
qed simp

text \<open>A stored proof is what every later lookup of its digest can return.\<close>

lemma stored_proof_served:
  assumes "inv s" and put: "put f s p = (Inr stored, s')" and "is_sha256 (sha256_hex H p)"
  shows "get g (puts calls s') (sha256 stored) = Inr (Some bs) \<Longrightarrow> bs = p"
    and "healthy g \<Longrightarrow> get g (puts calls s') (sha256 stored) = Inr (Some p)"
proof -
  have s': "inv s'" "content s' (sha256_hex H p) = Some p" "sha256 stored = sha256_hex H p"
    using put_inv [OF assms(1) put] put_stored [OF assms(1) put] by simp_all
  then have later: "inv (puts calls s')" "content (puts calls s') (sha256_hex H p) = Some p"
    using puts_keep [OF s'(1)] by blast+
  show "bs = p" if "get g (puts calls s') (sha256 stored) = Inr (Some bs)"
    using conjunct1 [OF get_sound [OF later(1) that]] later(2) unfolding s'(3) by simp
  show "get g (puts calls s') (sha256 stored) = Inr (Some p)" if "healthy g"
    unfolding s'(3) by (rule get_complete [OF later assms(3) that])
qed

end

lemma is_sha256_hex: "length (H p) = 32 \<Longrightarrow> is_sha256 (sha256_hex H p)"
  by (simp add: is_sha256_def sha256_hex_def)

definition memory_ok :: "(bytes \<Rightarrow> bytes) \<Rightarrow> memory_store \<Rightarrow> bool" where
  "memory_ok H m \<longleftrightarrow> (\<forall>sha bs. m sha = Some bs \<longrightarrow> sha256_hex H bs = sha \<and> valid_size bs)"

lemma memory_put_cases:
  assumes "memory_put H m p = (r, m')"
  shows "(m' = m \<and> (\<forall>stored. r = Inr stored \<longrightarrow> m (sha256_hex H p) = Some p)) \<or>
    (m (sha256_hex H p) = None \<and> valid_size p \<and> m' = m(sha256_hex H p \<mapsto> p))"
    and "r = Inr stored \<Longrightarrow> stored = \<lparr>sha256 = sha256_hex H p, byte_size = of_nat (length p)\<rparr>"
  using assms validate_proof_size_ok [of p]
  by (auto simp: memory_put_def Let_def split: sum.splits option.splits if_splits)

interpretation memory: artifact_store H "memory_ok H" "\<lambda>_ :: unit. memory_put H" "\<lambda>_. memory_get"
  "\<lambda>m. m" "\<lambda>_. True"
  for H
proof unfold_locales
  fix m m' :: memory_store and p r
  assume ok: "memory_ok H m" and put: "memory_put H m p = (r, m')"
  from memory_put_cases(1) [OF put] ok show "memory_ok H m'"
    by (elim disjE) (simp_all add: memory_ok_def)
next
  fix m m' :: memory_store and p stored
  assume put: "memory_put H m p = (Inr stored, m')"
  from memory_put_cases [OF put]
  show "m' (sha256_hex H p) = Some p \<and> stored = \<lparr>sha256 = sha256_hex H p, byte_size = of_nat (length p)\<rparr>"
    by auto
next
  fix m m' :: memory_store and p r sha bs
  assume put: "memory_put H m p = (r, m')" and "m sha = Some bs"
  with memory_put_cases(1) [OF put] show "m' sha = Some bs" by auto
next
  fix m :: memory_store and sha bs
  assume "memory_ok H m" and "memory_get m sha = Inr (Some bs)"
  then have "is_sha256 sha" "m sha = Some bs"
    by (simp_all add: memory_get_def split: if_splits)
  with \<open>memory_ok H m\<close> show "m sha = Some bs \<and> sha256_hex H bs = sha \<and> is_sha256 sha"
    unfolding memory_ok_def by blast
qed (simp add: memory_get_def)

definition no_faults :: faults where
  "no_faults = \<lparr>stat_fails = False, read_fails = False, open_fails = False, write_stops = None,
     sync_fails = False, link_fails = False, remove_fails = False\<rparr>"

definition file_store_put ::
  "(bytes \<Rightarrow> bytes) \<Rightarrow> nat \<Rightarrow> (nat \<Rightarrow> faults) \<Rightarrow> fs \<times> nat \<Rightarrow> bytes \<Rightarrow>
   (ArtifactError, StoredArtifact) result \<times> (fs \<times> nat)" where
  "file_store_put H pid fs s p = file_put H pid fs (fst s) (snd s) p"

lemma file_get_complete:
  assumes "dir_ok H dir" and "final_content dir sha = Some bs" and "is_sha256 sha"
    and "\<not> stat_fails f" and "\<not> read_fails f"
  shows "file_get H dir f sha = Inr (Some bs)"
proof -
  obtain inode where "entries dir (artifact_path sha) = Some inode" "inodes dir inode = Regular bs"
    using assms(2) by (auto simp: final_content_eq)
  moreover have "sha256_hex H bs = sha" "valid_size bs"
    using assms(1-3) calculation by (auto simp: dir_ok_def)
  ultimately show ?thesis
    using assms(3-5) validate_proof_size_ok [of bs]
    by (auto simp: file_get_def valid_size_def constants)
qed

lemma file_store_put_ok:
  assumes "dir_ok H (fst s)" and "file_store_put H pid f s p = (r, s')"
  shows "dir_ok H (fst s') \<and> phase_ok H (fst s') p (PutDone r) \<and>
    (\<forall>sha bs. final_content (fst s) sha = Some bs \<longrightarrow> final_content (fst s') sha = Some bs)"
proof -
  have "put_run H pid f p PutBegin (fst s) (snd s) = (r, fst s', snd s')"
    using assms(2) by (simp add: file_store_put_def file_put_def)
  from put_run_ok [OF this assms(1)] show ?thesis by simp
qed

interpretation directory: artifact_store H "\<lambda>s. dir_ok H (fst s)" "file_store_put H pid"
  "\<lambda>f s. file_get H (fst s) (f 0)" "\<lambda>s. final_content (fst s)"
  "\<lambda>f. \<not> stat_fails (f 0) \<and> \<not> read_fails (f 0)"
  for H pid
proof unfold_locales
  fix s s' :: "fs \<times> nat" and f p r
  assume "dir_ok H (fst s)" and "file_store_put H pid f s p = (r, s')"
  from file_store_put_ok [OF this] show "dir_ok H (fst s')" by simp
next
  fix s s' :: "fs \<times> nat" and f p stored
  assume "dir_ok H (fst s)" and "file_store_put H pid f s p = (Inr stored, s')"
  from file_store_put_ok [OF this]
  show "final_content (fst s') (sha256_hex H p) = Some p \<and>
      stored = \<lparr>sha256 = sha256_hex H p, byte_size = of_nat (length p)\<rparr>"
    by simp
next
  fix s s' :: "fs \<times> nat" and f p r sha bs
  assume "dir_ok H (fst s)" and "file_store_put H pid f s p = (r, s')"
    and "final_content (fst s) sha = Some bs"
  with file_store_put_ok show "final_content (fst s') sha = Some bs" by blast
qed (use file_get_eq_Some file_get_complete in blast)+

section \<open>An instance\<close>

definition empty_dir :: fs where
  "empty_dir = \<lparr>entries = Map.empty, inodes = (\<lambda>_. Regular []), next_inode = 0\<rparr>"

definition zero_hash :: "bytes \<Rightarrow> bytes" where
  "zero_hash _ = replicate 32 0"

lemma first_put:
  assumes "validate_proof_size (length proof) = Inr ()"
  shows "\<exists>stored dir' sequence'. file_put H pid (\<lambda>_. no_faults) empty_dir 0 proof = (Inr stored, dir', sequence') \<and>
     sequence' \<le> 2 ^ 64"
proof -
  have tmp: "artifact_path sha \<noteq> temporary_path sha' pid 0" for sha sha'
    using temporary_not_artifact [THEN not_sym] .
  have get: "file_get H empty_dir no_faults sha = Inr None" for sha
    by (simp add: file_get_def empty_dir_def no_faults_def)
  show ?thesis
    using tmp get assms
    by (simp add: file_put_def put_run.simps put_step.simps no_faults_def empty_dir_def)
qed

lemma example_put:
  "\<exists>stored dir' sequence'. file_put zero_hash 7 (\<lambda>_. no_faults) empty_dir 0 [1] = (Inr stored, dir', sequence') \<and>
     sequence' \<le> 2 ^ 64"
  by (rule first_put) (simp add: validate_proof_size_def constants)

text \<open>A call that nothing interrupts is one way for a lone call to run.\<close>

lemma put_run_steps:
  assumes "put_run H pid fs p phase dir sequence = (r, dir', sequence')"
  shows "(store_step H pid)\<^sup>*\<^sup>* \<lparr>sys_dir = dir, sys_sequence = sequence, sys_puts = [(p, phase)]\<rparr>
    \<lparr>sys_dir = dir', sys_sequence = sequence', sys_puts = [(p, PutDone r)]\<rparr>"
  using assms
proof (induction "phase_rank phase" arbitrary: phase dir sequence rule: less_induct)
  case less
  obtain phase1 dir1 sequence1 where
    one: "put_step H pid (fs (phase_rank phase)) p phase dir sequence = (phase1, dir1, sequence1)"
    using prod_cases3 by blast
  show ?case
  proof (cases "phase_rank phase = 0")
    case True
    then obtain r' where "phase = PutDone r'" by (cases phase) auto
    with less.prems show ?thesis by (simp add: put_run.simps)
  next
    case False
    then have "put_run H pid fs p phase1 dir1 sequence1 = (r, dir', sequence')"
      using less.prems one put_run.simps [of H pid fs p phase dir sequence] by (cases phase) simp_all
    moreover have "phase_rank phase1 < phase_rank phase"
      using False one put_step_rank [of H pid "fs (phase_rank phase)" p]
      by (cases phase) (auto, (metis fst_conv)+)
    ultimately have rest: "(store_step H pid)\<^sup>*\<^sup>*
        \<lparr>sys_dir = dir1, sys_sequence = sequence1, sys_puts = [(p, phase1)]\<rparr>
        \<lparr>sys_dir = dir', sys_sequence = sequence', sys_puts = [(p, PutDone r)]\<rparr>"
      using less.hyps by blast
    have "store_step H pid \<lparr>sys_dir = dir, sys_sequence = sequence, sys_puts = [(p, phase)]\<rparr>
        \<lparr>sys_dir = dir1, sys_sequence = sequence1, sys_puts = [(p, phase1)]\<rparr>"
      using put_advances [of 0 "\<lparr>sys_dir = dir, sys_sequence = sequence, sys_puts = [(p, phase)]\<rparr>"] one by simp
    with rest show ?thesis by (rule converse_rtranclp_into_rtranclp [rotated])
  qed
qed

section \<open>Properties\<close>

text \<open>C14: concurrent puts are safe whatever fails and however they interleave: starting from
  a directory whose artifacts match their names, at every reachable state of up to two to
  the 64 temporary files, every artifact still has the digest it is named by and an allowed
  size, no artifact that was there has changed, and every call that returned success has
  published its bytes under their digest. In particular a half-written file is never
  published, although the link shares its inode with the temporary file.\<close>

theorem concurrent_puts_safe:
  assumes "(store_step H pid)\<^sup>*\<^sup>* s s'" and "dir_ok H (sys_dir s)" and "sys_puts s = []"
    and "sys_sequence s' \<le> 2 ^ 64"
  shows "dir_ok H (sys_dir s') \<and>
    (\<forall>sha bs. final_content (sys_dir s) sha = Some bs \<longrightarrow> final_content (sys_dir s') sha = Some bs) \<and>
    (\<forall>p stored. (p, PutDone (Inr stored)) \<in> set (sys_puts s') \<longrightarrow>
       final_content (sys_dir s') (sha256 stored) = Some p \<and> sha256 stored = sha256_hex H p \<and>
       byte_size stored = of_nat (length p))"
proof -
  have "system_ok H pid s"
    using assms(2,3) by (simp add: system_ok_def)
  note ok = store_steps_ok [OF assms(1) this assms(4)]
  have "final_content (sys_dir s') (sha256 stored) = Some p \<and> sha256 stored = sha256_hex H p \<and>
      byte_size stored = of_nat (length p)"
    if "(p, PutDone (Inr stored)) \<in> set (sys_puts s')" for p stored
  proof -
    from that obtain i where "i < length (sys_puts s')" "sys_puts s' ! i = (p, PutDone (Inr stored))"
      by (auto simp: in_set_conv_nth)
    then have "call_ok H pid s' i" "sys_puts s' ! i = (p, PutDone (Inr stored))"
      using ok by (simp_all add: system_ok_def)
    then show ?thesis by (simp add: call_ok_def)
  qed
  with ok show ?thesis unfolding system_ok_def by blast
qed

theorem concurrent_puts_safe_witness:
  "\<exists>stored s'. (store_step zero_hash 7)\<^sup>*\<^sup>* \<lparr>sys_dir = empty_dir, sys_sequence = 0, sys_puts = []\<rparr> s' \<and>
     ([1], PutDone (Inr stored)) \<in> set (sys_puts s') \<and>
     final_content (sys_dir s') (sha256 stored) = Some [1]"
proof -
  let ?s = "\<lparr>sys_dir = empty_dir, sys_sequence = 0, sys_puts = []\<rparr>"
  obtain stored dir' sequence' where
    put: "put_run zero_hash 7 (\<lambda>_. no_faults) [1] PutBegin empty_dir 0 = (Inr stored, dir', sequence')"
    and small: "sequence' \<le> 2 ^ 64"
    using example_put by (auto simp: file_put_def)
  have "store_step zero_hash 7 ?s \<lparr>sys_dir = empty_dir, sys_sequence = 0, sys_puts = [([1], PutBegin)]\<rparr>"
    using put_called [of zero_hash 7 ?s "[1]"] by simp
  with put_run_steps [OF put] have run: "(store_step zero_hash 7)\<^sup>*\<^sup>* ?s
      \<lparr>sys_dir = dir', sys_sequence = sequence', sys_puts = [([1], PutDone (Inr stored))]\<rparr>"
    by (rule converse_rtranclp_into_rtranclp [rotated])
  have "dir_ok zero_hash empty_dir" by (simp add: dir_ok_def empty_dir_def)
  with concurrent_puts_safe [OF run] small run show ?thesis
    by (intro exI [of _ stored]
        exI [of _ "\<lparr>sys_dir = dir', sys_sequence = sequence', sys_puts = [([1], PutDone (Inr stored))]\<rparr>"]) auto
qed

text \<open>C39: a proof the directory store has accepted stays available: whatever is put
  afterwards and whatever fails, a lookup of the returned digest never yields other bytes,
  and yields these when the lookup itself does not fail. The stored metadata is the
  digest and the length.\<close>

theorem stored_proof_available:
  assumes "dir_ok H dir" and "length (H p) = 32"
    and "file_put H pid faults dir sequence p = (Inr stored, dir', sequence')"
  shows "stored = \<lparr>sha256 = sha256_hex H p, byte_size = of_nat (length p)\<rparr> \<and>
    (let later = fst (fold (\<lambda>(f, q) s. snd (file_store_put H pid f s q)) calls (dir', sequence')) in
     (\<forall>f bs. file_get H later f (sha256 stored) = Inr (Some bs) \<longrightarrow> bs = p) \<and>
     (\<forall>f. \<not> stat_fails f \<longrightarrow> \<not> read_fails f \<longrightarrow> file_get H later f (sha256 stored) = Inr (Some p)))"
proof -
  have put: "file_store_put H pid faults (dir, sequence) p = (Inr stored, (dir', sequence'))"
    using assms(3) by (simp add: file_store_put_def)
  have ok: "dir_ok H (fst (dir, sequence))" using assms(1) by simp
  note served = directory.stored_proof_served [OF ok put is_sha256_hex [where H = H and p = p, OF assms(2)]]
  have meta: "stored = \<lparr>sha256 = sha256_hex H p, byte_size = of_nat (length p)\<rparr>"
    using directory.put_stored [OF ok put] by simp
  have "bs = p" if "file_get H (fst (fold (\<lambda>(f, q) s. snd (file_store_put H pid f s q)) calls (dir', sequence')))
      f (sha256 stored) = Inr (Some bs)" for f bs
    using served(1) [where g = "\<lambda>_. f"] that by simp
  moreover have "file_get H (fst (fold (\<lambda>(f, q) s. snd (file_store_put H pid f s q)) calls (dir', sequence')))
      f (sha256 stored) = Inr (Some p)" if "\<not> stat_fails f" "\<not> read_fails f" for f
    using served(2) [where g = "\<lambda>_. f"] that by simp
  ultimately show ?thesis
    unfolding Let_def using meta by blast
qed

theorem stored_proof_available_witness:
  "\<exists>stored dir' sequence'. file_put zero_hash 7 (\<lambda>_. no_faults) empty_dir 0 [1] = (Inr stored, dir', sequence') \<and>
     file_get zero_hash dir' no_faults (sha256 stored) = Inr (Some [1])"
proof -
  obtain stored dir' sequence' where
    put: "file_put zero_hash 7 (\<lambda>_. no_faults) empty_dir 0 [1] = (Inr stored, dir', sequence')"
    using example_put by blast
  have "dir_ok zero_hash empty_dir" "length (zero_hash [1]) = 32"
    by (simp_all add: dir_ok_def empty_dir_def zero_hash_def)
  from stored_proof_available [OF this put, of "[]"] put show ?thesis
    by (auto simp: no_faults_def)
qed

lemma immutable_response_fields:
  "status (immutable_response h sha bs b) = 200"
  "body (immutable_response h sha bs False) = bs"
  "headers (immutable_response h sha bs b) ''content-type'' = Some PROOF_MEDIA_TYPE"
  "immutable_response h sha bs True = (immutable_response h sha bs False)\<lparr>body := []\<rparr>"
  by (simp_all add: immutable_response_def Let_def split: option.split)

text \<open>What a GET of a stored proof is answered: its bytes, to be cached for ever under the digest
  as the entity tag, and no header but the six of the source. The two values that
  \<open>HeaderValue::from_str\<close> makes are left out when it refuses them.\<close>

definition proof_response :: "(string \<Rightarrow> string option) \<Rightarrow> string \<Rightarrow> bytes \<Rightarrow> Response \<Rightarrow> bool" where
  "proof_response header_from_str sha bs r \<longleftrightarrow>
     status r = 200 \<and> body r = bs \<and>
     headers r ''content-type'' = Some PROOF_MEDIA_TYPE \<and>
     headers r ''cache-control'' = Some ''public, max-age=31536000, immutable'' \<and>
     headers r ''x-content-type-options'' = Some ''nosniff'' \<and>
     headers r ''access-control-expose-headers'' = Some ''content-length, etag'' \<and>
     headers r ''content-length'' = header_from_str (dec_string (length bs)) \<and>
     headers r ''etag'' = header_from_str (CHR 0x22 # sha @ [CHR 0x22]) \<and>
     dom (headers r) \<subseteq> {''content-type'', ''cache-control'', ''x-content-type-options'',
       ''access-control-expose-headers'', ''content-length'', ''etag''}"

lemma immutable_proof_response: "proof_response h sha bs (immutable_response h sha bs False)"
  by (auto simp: proof_response_def immutable_response_def Let_def split: option.splits if_splits)

text \<open>What a lookup in a directory finds, on every branch.\<close>

lemma file_get_cases:
  assumes "dir_ok H dir" and "is_sha256 sha"
  shows "(if stat_fails f then file_get H dir f sha = Inl Io
    else case final_content dir sha of
      None \<Rightarrow> file_get H dir f sha = Inr None
    | Some bs \<Rightarrow> sha256_hex H bs = sha \<and>
        file_get H dir f sha = (if read_fails f then Inl Io else Inr (Some bs)))"
proof (cases "entries dir (artifact_path sha)")
  case None
  with assms(2) show ?thesis by (simp add: file_get_def final_content_def)
next
  case (Some inode)
  with assms obtain bs where bs: "final_content dir sha = Some bs" "sha256_hex H bs = sha" "valid_size bs"
    by (auto simp: dir_ok_def)
  moreover from this Some have "inodes dir inode = Regular bs"
    by (simp add: final_content_def split: node.splits)
  ultimately show ?thesis
    using Some assms(2) validate_proof_size_ok [of bs] by (auto simp: file_get_def valid_size_def constants)
qed

text \<open>C40: the proof endpoint, on every path: for a directory whose artifacts match their names,
  a GET of a digest followed by \<open>.json\<close> is answered 500 if the file system fails under it,
  404 if nothing is stored under the digest, and otherwise 200 with the stored bytes, whose
  digest it is, and exactly the immutable headers, the digest being the entity tag; any
  other path is answered 404; the 404 and 500 have neither headers nor body; and HEAD
  answers every path with the status and the headers of GET and no body.\<close>

theorem http_serves_by_digest:
  assumes "dir_ok H dir"
  shows "(let r = get_artifact header_from_str (file_get H dir f) path in
    (\<forall>sha. path = sha @ ''.json'' \<longrightarrow> is_sha256 sha \<longrightarrow>
       (if stat_fails f then r = empty_response 500
        else case final_content dir sha of
          None \<Rightarrow> r = empty_response 404
        | Some bs \<Rightarrow> sha256_hex H bs = sha \<and>
            (if read_fails f then r = empty_response 500 else proof_response header_from_str sha bs r))) \<and>
    ((\<forall>sha. is_sha256 sha \<longrightarrow> path \<noteq> sha @ ''.json'') \<longrightarrow> r = empty_response 404) \<and>
    head_artifact header_from_str (file_get H dir f) path = r\<lparr>body := []\<rparr>)"
proof (cases "strip_suffix ''.json'' path")
  case None
  then have "path \<noteq> sha @ ''.json''" for sha
    by auto
  with None show ?thesis
    by (simp add: get_artifact_def head_artifact_def empty_response_def)
next
  case (Some sha)
  then have path: "path = sha @ ''.json''" by simp
  show ?thesis
  proof (cases "is_sha256 sha")
    case True
    with path file_get_cases [OF assms True, of f] immutable_proof_response [of header_from_str sha] show ?thesis
      by (auto simp: get_artifact_def head_artifact_def empty_response_def immutable_response_fields(4)
          split: option.splits if_splits)
  next
    case False
    with path show ?thesis
      by (simp add: get_artifact_def head_artifact_def empty_response_def file_get_def)
  qed
qed

theorem http_serves_by_digest_witness:
  "\<exists>dir sha r. dir_ok zero_hash dir \<and> is_sha256 sha \<and>
     r = get_artifact Some (file_get zero_hash dir no_faults) (sha @ ''.json'') \<and> status r = 200 \<and> body r = [1] \<and>
     headers r ''etag'' = Some (CHR 0x22 # sha @ [CHR 0x22]) \<and>
     headers (head_artifact Some (file_get zero_hash dir no_faults) (sha @ ''.json'')) ''cache-control'' =
       Some ''public, max-age=31536000, immutable''"
proof -
  define sha where "sha = sha256_hex zero_hash [1]"
  obtain stored dir sequence where "file_put zero_hash 7 (\<lambda>_. no_faults) empty_dir 0 [1] = (Inr stored, dir, sequence)"
    using example_put by blast
  then have put: "file_store_put zero_hash 7 (\<lambda>_. no_faults) (empty_dir, 0) [1] = (Inr stored, dir, sequence)"
    by (simp add: file_store_put_def)
  have "dir_ok zero_hash (fst (empty_dir, 0 :: nat))" by (simp add: dir_ok_def empty_dir_def)
  from directory.put_inv [OF this put] directory.put_stored [OF this put]
  have dir: "dir_ok zero_hash dir" "final_content dir sha = Some [1]"
    by (simp_all add: sha_def)
  have sha: "is_sha256 sha"
    unfolding sha_def by (rule is_sha256_hex) (simp add: zero_hash_def)
  from http_serves_by_digest [OF dir(1), of Some no_faults "sha @ ''.json''"] dir(2) sha
  have "proof_response Some sha [1] (get_artifact Some (file_get zero_hash dir no_faults) (sha @ ''.json''))"
    and "head_artifact Some (file_get zero_hash dir no_faults) (sha @ ''.json'') =
      (get_artifact Some (file_get zero_hash dir no_faults) (sha @ ''.json''))\<lparr>body := []\<rparr>"
    by (auto simp: Let_def no_faults_def)
  with dir(1) sha show ?thesis
    by (intro exI [of _ dir] exI [of _ sha]) (simp add: proof_response_def)
qed

end
