(* ===== verification/Processor.thy ===== *)
theory Processor
  imports Prover Artifacts
begin

text \<open>
  \<open>apps/provider/src/processor.rs\<close>: one job from request to result content. A slot of the
  semaphore is held while the engine runs; the verified statement is compared with the
  request, the proof is stored, and the descriptor that names it is validated. The engine,
  which may unwind on its worker thread, and the store are arguments, the latter with the
  laws of \<open>artifact_store\<close>; so are the join and the parser of the URL crate.
\<close>

section \<open>Definitions\<close>

datatype ProcessingError =
    P_Busy
  | P_Worker
  | P_Proving
  | P_RequestBinding
  | P_Artifact ArtifactError
  | P_Descriptor

definition ProcessingError_public_code :: "ProcessingError \<Rightarrow> ErrorCode" where
  "ProcessingError_public_code e =
     (case e of
        P_Busy \<Rightarrow> Busy
      | P_Artifact _ \<Rightarrow> ArtifactUnavailable
      | P_Proving \<Rightarrow> ProvingFailed
      | P_RequestBinding \<Rightarrow> ProvingFailed
      | P_Worker \<Rightarrow> Internal
      | P_Descriptor \<Rightarrow> Internal)"

definition ProcessingError_public_message :: "ProcessingError \<Rightarrow> string" where
  "ProcessingError_public_message e =
     (case e of
        P_Busy \<Rightarrow> ''provider is at proof capacity; retry later''
      | P_Artifact _ \<Rightarrow> ''proof artifact is temporarily unavailable''
      | P_Proving \<Rightarrow> ''proof generation failed''
      | P_RequestBinding \<Rightarrow> ''proof generation failed''
      | P_Worker \<Rightarrow> ''provider could not complete the request''
      | P_Descriptor \<Rightarrow> ''provider could not complete the request'')"

definition statement_matches_request :: "ProofStatement \<Rightarrow> JobInput \<Rightarrow> bool" where
  "statement_matches_request statement input \<longleftrightarrow>
     (if st_service statement \<noteq> JobInput_service input then False
      else case input of
        InFibonacci n \<Rightarrow> st_public_input statement = [FeltHex_from_u64 n]
      | InHashVerify hash _ \<Rightarrow> st_public_input statement = [hash]
      | InMerkleProof root leaf _ index \<Rightarrow> st_public_input statement = [root, leaf, FeltHex_from_u64 index])"

text \<open>The engine of the provider: \<open>prove_job\<close> with its error as text.\<close>

definition engine_prove_job where
  "engine_prove_job lib describe clock engine input = map_err describe (prove_job lib clock engine input)"

record url_lib =
  ul_join :: "Url \<Rightarrow> string \<Rightarrow> Url option"
  ul_parse :: "string \<Rightarrow> Url option"

record ProofProcessor =
  public_base_url :: Url
  proving_slots :: nat

definition ProofProcessor_new :: "Url \<Rightarrow> nat \<Rightarrow> (string, ProofProcessor) result" where
  "ProofProcessor_new base max_concurrent_proofs =
     (if 1 \<le> max_concurrent_proofs \<and> max_concurrent_proofs \<le> 16
      then Inr \<lparr>public_base_url = base, proving_slots = max_concurrent_proofs\<rparr>
      else Inl ''proof concurrency must be in 1..=16'')"

text \<open>
  The steps of \<open>process\<close> between its await points: taking a slot, what becomes of the
  worker's outcome, storing the proof, and building the result from what was stored.
\<close>

definition acquire_slot :: "ProofProcessor \<Rightarrow> (ProcessingError, ProofProcessor) result" where
  "acquire_slot p =
     (if proving_slots p = 0 then Inl P_Busy else Inr (p\<lparr>proving_slots := proving_slots p - 1\<rparr>))"

definition release_slot :: "ProofProcessor \<Rightarrow> ProofProcessor" where
  "release_slot p = p\<lparr>proving_slots := proving_slots p + 1\<rparr>"

definition worker_outcome ::
  "(string, VerifiedProofArtifact) result unwind \<Rightarrow> (ProcessingError, VerifiedProofArtifact) result" where
  "worker_outcome joined =
     and_then (map_err (\<lambda>_. P_Worker) (catch_unwind joined)) (\<lambda>proved.
     map_err (\<lambda>_. P_Proving) proved)"

definition check_binding ::
  "JobRequest \<Rightarrow> VerifiedProofArtifact \<Rightarrow> (ProcessingError, unit) result" where
  "check_binding request artifact =
     (if \<not> statement_matches_request (va_statement artifact) (jr_input request)
      then Inl P_RequestBinding else Inr ())"

definition describe_result ::
  "url_lib \<Rightarrow> Url \<Rightarrow> JobRequest \<Rightarrow> VerifiedProofArtifact \<Rightarrow> StoredArtifact \<Rightarrow>
   (ProcessingError, JobResultContent) result" where
  "describe_result ul base request artifact stored =
     and_then (ok_or P_Descriptor (ul_join ul base (''v1/proofs/'' @ sha256 stored @ ''.json''))) (\<lambda>url.
     let descriptor =
       \<lparr>pd_format = PROOF_FORMAT, pd_media_type = PROOF_MEDIA_TYPE, pd_url = url_serialization url,
        pd_sha256 = sha256 stored, pd_byte_size = byte_size stored,
        pd_program_hash = va_program_hash artifact, pd_channel = PROOF_CHANNEL\<rparr> in
     and_then (map_err (\<lambda>_. P_Descriptor) (ProofDescriptor_validate (ul_parse ul) descriptor)) (\<lambda>_.
     let result = JobResultContent_success (jr_id request) (va_statement artifact) descriptor (va_metrics artifact) in
     and_then (map_err (\<lambda>_. P_Descriptor) (JobResultContent_validate (ul_parse ul) result)) (\<lambda>_.
     Inr result)))"

text \<open>A call that nothing interrupts.\<close>

definition process ::
  "url_lib \<Rightarrow> (JobInput \<Rightarrow> (string, VerifiedProofArtifact) result unwind) \<Rightarrow>
   ('s \<Rightarrow> bytes \<Rightarrow> (ArtifactError, StoredArtifact) result \<times> 's) \<Rightarrow>
   ProofProcessor \<Rightarrow> 's \<Rightarrow> JobRequest \<Rightarrow>
   (ProcessingError, JobResultContent) result \<times> ProofProcessor \<times> 's" where
  "process ul prove put p store request =
     (case acquire_slot p of
        Inl e \<Rightarrow> (Inl e, p, store)
      | Inr held \<Rightarrow>
          (case worker_outcome (prove (jr_input request)) of
             Inl e \<Rightarrow> (Inl e, release_slot held, store)
           | Inr artifact \<Rightarrow>
               let freed = release_slot held in
               case check_binding request artifact of
                 Inl e \<Rightarrow> (Inl e, freed, store)
               | Inr _ \<Rightarrow>
                   (case put store (va_proof_bytes artifact) of
                      (Inl e, store') \<Rightarrow> (Inl (P_Artifact e), freed, store')
                    | (Inr stored, store') \<Rightarrow>
                        (describe_result ul (public_base_url p) request artifact stored, freed, store'))))"

section \<open>What the steps give\<close>

lemma statement_matches_iff:
  "statement_matches_request s input \<longleftrightarrow>
     st_service s = JobInput_service input \<and> st_public_input s = public_words input"
  by (cases input) (auto simp: statement_matches_request_def)

lemma worker_outcome_eq_Inr [simp]: "worker_outcome joined = Inr a \<longleftrightarrow> joined = Returned (Inr a)"
  by (auto simp: worker_outcome_def and_then_eq_Inr)

lemma release_acquired: "acquire_slot p = Inr held \<Longrightarrow> release_slot held = p"
  by (auto simp: acquire_slot_def release_slot_def split: if_splits)

lemma describe_result_eq_Inr:
  "describe_result ul base request artifact stored = Inr r \<longleftrightarrow>
     (\<exists>url d. ul_join ul base (''v1/proofs/'' @ sha256 stored @ ''.json'') = Some url \<and>
        d = \<lparr>pd_format = PROOF_FORMAT, pd_media_type = PROOF_MEDIA_TYPE, pd_url = url_serialization url,
             pd_sha256 = sha256 stored, pd_byte_size = byte_size stored,
             pd_program_hash = va_program_hash artifact, pd_channel = PROOF_CHANNEL\<rparr> \<and>
        r = Success SOUL_WIRE_PROTOCOL (jr_id request) (va_statement artifact) d (va_metrics artifact) \<and>
        result_valid (ul_parse ul) r)"
  by (auto simp: describe_result_def and_then_eq_Inr Let_def validators JobResultContent_success_def)

lemma process_eq_Inr:
  assumes "process ul prove put p store request = (Inr r, p', store')"
  shows "\<exists>artifact stored. 0 < proving_slots p \<and> prove (jr_input request) = Returned (Inr artifact) \<and>
    statement_matches_request (va_statement artifact) (jr_input request) \<and>
    put store (va_proof_bytes artifact) = (Inr stored, store') \<and>
    describe_result ul (public_base_url p) request artifact stored = Inr r \<and> p' = p"
proof -
  from assms obtain held artifact stored where
    "acquire_slot p = Inr held" "worker_outcome (prove (jr_input request)) = Inr artifact"
    "check_binding request artifact = Inr ()" "put store (va_proof_bytes artifact) = (Inr stored, store')"
    "describe_result ul (public_base_url p) request artifact stored = Inr r" "p' = release_slot held"
    by (auto simp: process_def Let_def split: sum.splits prod.splits)
  then show ?thesis
    using release_acquired [of p held]
    by (auto simp: check_binding_def acquire_slot_def split: if_splits)
qed

text \<open>With the engine of the provider, the stored proof is one the native verifier accepts for
  the engine's program hash and the statement of the result.\<close>

lemma process_engine_eq_Inr:
  assumes "process ul (\<lambda>input. Returned (engine_prove_job lib describe clock engine input)) put p store request =
    (Inr r, p', store')"
  obtains a stored where "put store (va_proof_bytes a) = (Inr stored, store')"
    and "verify_serialized lib (va_proof_bytes a) (as_str (expected_program_hash engine)) (va_statement a) = Inr ()"
    and "va_program_hash a = expected_program_hash engine"
    and "statement_matches_request (va_statement a) (jr_input request)"
    and "describe_result ul (public_base_url p) request a stored = Inr r"
proof -
  obtain a stored where stored: "put store (va_proof_bytes a) = (Inr stored, store')"
    and proved: "engine_prove_job lib describe clock engine (jr_input request) = Inr a"
    and about: "statement_matches_request (va_statement a) (jr_input request)"
      "describe_result ul (public_base_url p) request a stored = Inr r"
    using process_eq_Inr [OF assms] by auto
  have "prove_job_inner lib clock (engine_executable engine) (jr_input request)
      (Some (expected_program_hash engine)) = Inr a"
    using proved by (simp add: engine_prove_job_def prove_job_def)
  note checked = prove_job_inner_eq_Inr [OF this]
  moreover from checked have "va_program_hash a = expected_program_hash engine"
    by (auto simp: verify_serialized_eq_Inr)
  ultimately show thesis
    using that [OF stored] about by blast
qed

lemma process_keeps_slots: "fst (snd (process ul prove put p store request)) = p"
  using release_acquired
  by (auto simp: process_def Let_def split: sum.splits prod.splits)

text \<open>The fixed public messages make valid error results.\<close>

definition printable :: "string \<Rightarrow> bool" where
  "printable s \<longleftrightarrow> list_all (\<lambda>c. 32 \<le> (of_char c :: nat) \<and> (of_char c :: nat) < 127) s"

lemma printable_message:
  assumes "printable s" and "length s \<le> 160"
  shows "je_message (JobError_new code s) = s" and "s \<noteq> [] \<Longrightarrow> message_valid s"
proof -
  have ascii: "list_all (\<lambda>c. (of_char c :: nat) < 128) s"
    using assms(1) by (auto simp: printable_def list_all_iff)
  note chars = utf8_chars_ascii [OF ascii]
  have plain: "\<not> is_control c" if "c \<in> set (utf8_chars s)" for c
    using assms(1) that by (auto simp: chars printable_def list_all_iff is_control_def)
  then have "filter (\<lambda>c. \<not> is_control c) (utf8_chars s) = utf8_chars s"
    by (simp add: filter_id_conv)
  moreover have "utf8_encode (utf8_chars s) = s"
    using valid_utf8_ascii [OF ascii] by (simp add: valid_utf8_def)
  ultimately show "je_message (JobError_new code s) = s"
    using assms(2) by (simp add: JobError_new_def) (simp add: chars)
  show "s \<noteq> [] \<Longrightarrow> message_valid s"
    using assms(2) plain by (auto simp: message_valid_def list_all_iff) (simp add: chars)
qed

lemma public_message_printable:
  "printable (ProcessingError_public_message e)" "length (ProcessingError_public_message e) \<le> 160"
  "ProcessingError_public_message e \<noteq> []"
  by (cases e; simp add: ProcessingError_public_message_def printable_def of_char_def)+

lemma public_message_ok:
  "je_message (JobError_new code (ProcessingError_public_message e)) = ProcessingError_public_message e"
  "message_valid (ProcessingError_public_message e)"
  using printable_message [OF public_message_printable(1,2)] public_message_printable(3) by simp_all

lemma error_result_valid:
  "is_lower_hex request_id 64 \<Longrightarrow>
     result_valid url_parse (JobResultContent_error request_id code (ProcessingError_public_message e))"
  by (simp add: JobResultContent_error_def public_message_ok)

section \<open>An instance\<close>

definition example_urls :: url_lib where
  "example_urls =
     \<lparr>ul_join = (\<lambda>base path. Some (base\<lparr>url_serialization := url_serialization base @ path\<rparr>)),
      ul_parse = (\<lambda>_. Some example_url)\<rparr>"

definition example_engine :: "JobInput \<Rightarrow> (string, VerifiedProofArtifact) result unwind" where
  "example_engine input =
     Returned (engine_prove_job example_prover (\<lambda>_. ''proving failed'') (3, 5, 7)
       \<lparr>engine_executable = ''soul'', expected_program_hash = FeltHex_from_u64 9\<rparr> input)"

definition example_processor :: ProofProcessor where
  "example_processor = \<lparr>public_base_url = example_url, proving_slots = 1\<rparr>"

definition example_job_request :: JobRequest where
  "example_job_request =
     \<lparr>jr_id = replicate 64 CHR ''a'', jr_service = Fibonacci, jr_input = InFibonacci 10, jr_bid_msats = 0,
      jr_customer_pubkey = replicate 64 CHR ''b'', jr_created_at = 1000, jr_expires_at = None,
      jr_canonical_input = ''{}'', jr_serialized_event = ''{}''\<rparr>"

lemma example_engine_proves:
  "example_engine (InFibonacci 10) = Returned (Inr
     \<lparr>va_proof_bytes = [1, 9, 1, 1, 10, 1, 55], va_statement = example_statement,
      va_program_hash = FeltHex_from_u64 9,
      va_metrics = \<lparr>execution_ms = 3, proving_ms = 5, verification_ms = 7\<rparr>\<rparr>)"
  by (simp add: example_engine_def engine_prove_job_def example_job_proved)

lemma example_processing:
  assumes "prove (InFibonacci 10) = Returned (Inr
     \<lparr>va_proof_bytes = bs, va_statement = example_statement, va_program_hash = FeltHex_from_u64 9,
      va_metrics = \<lparr>execution_ms = 3, proving_ms = 5, verification_ms = 7\<rparr>\<rparr>)"
    and "bs \<noteq> []" and "length bs \<le> 100"
  shows "\<exists>r store'. process example_urls prove (memory_put zero_hash) example_processor Map.empty
     example_job_request = (Inr r, example_processor, store')"
proof -
  let ?artifact = "\<lparr>va_proof_bytes = bs, va_statement = example_statement,
      va_program_hash = FeltHex_from_u64 9,
      va_metrics = \<lparr>execution_ms = 3, proving_ms = 5, verification_ms = 7\<rparr>\<rparr>"
  let ?stored = "\<lparr>sha256 = sha256_hex zero_hash bs, byte_size = of_nat (length bs)\<rparr>"
  have sha: "is_lower_hex (sha256_hex zero_hash bs) 64"
    by (simp add: is_lower_hex_def sha256_hex_def zero_hash_def)
  have size: "unat (of_nat (length bs) :: u64) = length bs" "0 < length bs"
    using assms(2,3) by (simp_all add: unat_of_nat)
  have "statement_matches_request example_statement (InFibonacci 10)"
    by (simp add: statement_matches_iff example_statement_def JobInput_service_def)
  then have "check_binding example_job_request ?artifact = Inr ()"
    by (simp add: check_binding_def example_job_request_def)
  moreover have "memory_put zero_hash Map.empty bs =
      (Inr ?stored, [sha256_hex zero_hash bs \<mapsto> bs])"
    using size assms(3)
    by (simp add: memory_put_def validate_proof_size_def constants Let_def word_less_nat_alt)
  moreover have "\<exists>r. describe_result example_urls example_url example_job_request ?artifact ?stored = Inr r"
    using sha example_statement_ok(1) size assms(3)
    by (simp add: describe_result_eq_Inr example_urls_def descriptor_valid_def metrics_valid_def
        example_job_request_def is_lower_hex_def list_all_replicate lower_hex_byte_def constants
        example_url_def word_less_nat_alt word_le_nat_alt)
  ultimately show ?thesis
    using assms(1)
    by (auto simp: process_def acquire_slot_def release_slot_def worker_outcome_def example_processor_def
        example_job_request_def)
qed

lemma example_processed:
  "\<exists>r store'. process example_urls example_engine (memory_put zero_hash) example_processor Map.empty
     example_job_request = (Inr r, example_processor, store')"
  by (rule example_processing [where bs = "[1, 9, 1, 1, 10, 1, 55]"]) (simp_all add: example_engine_proves)

section \<open>Properties\<close>

text \<open>C20: a success is earned: when \<open>process\<close> returns a result, the engine returned an
  artifact for the request's input whose statement is about the request's service and
  public inputs, the result carries that statement, the proof of the descriptor is stored
  under its digest with its size, and the result passes the wire validator. Whatever
  happens, error paths and a panicking worker included, the slot is given back.\<close>

theorem processed_result_exact:
  assumes "artifact_store H store_ok put get content healthy" and "store_ok store"
    and "process ul prove (put f) p store request = (Inr r, p', store')"
  shows "(\<exists>artifact d. prove (jr_input request) = Returned (Inr artifact) \<and>
      r = Success SOUL_WIRE_PROTOCOL (jr_id request) (va_statement artifact) d (va_metrics artifact) \<and>
      st_service (va_statement artifact) = JobInput_service (jr_input request) \<and>
      st_public_input (va_statement artifact) = public_words (jr_input request) \<and>
      pd_program_hash d = va_program_hash artifact \<and>
      pd_sha256 d = sha256_hex H (va_proof_bytes artifact) \<and>
      pd_byte_size d = of_nat (length (va_proof_bytes artifact)) \<and>
      content store' (pd_sha256 d) = Some (va_proof_bytes artifact)) \<and>
    result_valid (ul_parse ul) r \<and> store_ok store' \<and>
    (\<forall>store request. fst (snd (process ul prove (put f) p store request)) = p)"
proof -
  obtain artifact stored where ran: "prove (jr_input request) = Returned (Inr artifact)"
    "statement_matches_request (va_statement artifact) (jr_input request)"
    "describe_result ul (public_base_url p) request artifact stored = Inr r"
    and put: "put f store (va_proof_bytes artifact) = (Inr stored, store')"
    using process_eq_Inr [OF assms(3)] by blast
  have "store_ok store'" "content store' (sha256_hex H (va_proof_bytes artifact)) = Some (va_proof_bytes artifact)"
    "stored = \<lparr>sha256 = sha256_hex H (va_proof_bytes artifact),
               byte_size = of_nat (length (va_proof_bytes artifact))\<rparr>"
    using artifact_store.put_inv [OF assms(1,2) put] artifact_store.put_stored [OF assms(1,2) put] by auto
  with ran show ?thesis
    by (auto simp: describe_result_eq_Inr statement_matches_iff process_keeps_slots)
qed

theorem processed_result_exact_witness:
  "\<exists>r store'. process example_urls example_engine (memory_put zero_hash) example_processor Map.empty
     example_job_request = (Inr r, example_processor, store') \<and>
     result_valid (ul_parse example_urls) r \<and> memory_ok zero_hash store'"
proof -
  obtain r store' where
    run: "process example_urls example_engine (memory_put zero_hash) example_processor Map.empty
      example_job_request = (Inr r, example_processor, store')"
    using example_processed by blast
  have "memory_ok zero_hash Map.empty" by (simp add: memory_ok_def)
  from processed_result_exact [OF memory.artifact_store_axioms this run] run show ?thesis by blast
qed

end
