(* ===== verification/Handler.thy ===== *)
theory Handler
  imports Wire Dedupe Processor "HOL-Library.Multiset"
begin

text \<open>
  \<open>apps/provider/src/nostr/handler.rs\<close>: the handler of one signed request, from its
  authentication to the signed result, with the cache of completed results, and the
  dispatch of concurrent deliveries behind a bounded intake.

  \<open>handle_event\<close> is the function without interruption. It takes its three locks one after
  the other and awaits the processor in between, so a delivery is also a \<open>task\<close> whose
  phases the relation \<open>handler_step\<close> interleaves with those of every other delivery. A
  loop that does not end is \<open>None\<close>.
\<close>

section \<open>Completed results\<close>

record CompletedResults =
  cr_capacity :: nat
  cr_events :: "string \<rightharpoonup> Event"
  cr_order :: "string list"

definition CompletedResults_new :: "nat \<Rightarrow> CompletedResults" where
  "CompletedResults_new cap = \<lparr>cr_capacity = cap, cr_events = Map.empty, cr_order = []\<rparr>"

definition pop_completed :: "CompletedResults \<Rightarrow> CompletedResults" where
  "pop_completed c = c\<lparr>cr_events := (cr_events c)(hd (cr_order c) := None), cr_order := tl (cr_order c)\<rparr>"

partial_function (option) evict_completed :: "nat \<Rightarrow> CompletedResults \<Rightarrow> CompletedResults option" where
  "evict_completed cap c =
     (if card (dom (cr_events c)) > cap
      then (if cr_order c = [] then evict_completed cap c else evict_completed cap (pop_completed c))
      else Some c)"

definition CompletedResults_insert :: "CompletedResults \<Rightarrow> string \<Rightarrow> Event \<Rightarrow> CompletedResults option" where
  "CompletedResults_insert c request_id event =
     (if cr_events c request_id \<noteq> None then Some c
      else evict_completed (cr_capacity c)
        (c\<lparr>cr_events := (cr_events c)(request_id \<mapsto> event), cr_order := cr_order c @ [request_id]\<rparr>))"

interpretation completed: eviction "\<lambda>c. dom (cr_events c)" cr_order pop_completed evict_completed
proof unfold_locales
  show "evict_completed cap c =
      (if card (dom (cr_events c)) > cap
       then (if cr_order c = [] then evict_completed cap c else evict_completed cap (pop_completed c))
       else Some c)" for cap c
    by (rule evict_completed.simps)
qed (auto simp: pop_completed_def)

section \<open>One request\<close>

datatype JobHandlingError =
    HE_InvalidRequest WireError
  | HE_ResultEncoding
  | HE_ResultTooLarge
  | HE_Signing

record 's shared =
  dedupe :: RequestDeduplicator
  completed :: CompletedResults
  processor :: ProofProcessor
  store :: 's

text \<open>What the handler calls: the wire library, the URL crate, the engine, and the signature
  of an event with the given kind, content and tags.\<close>

record handler_lib =
  hl_wire :: wire_lib
  hl_urls :: url_lib
  hl_prove :: "JobInput \<Rightarrow> (string, VerifiedProofArtifact) result unwind"
  hl_sign :: "u16 \<Rightarrow> string \<Rightarrow> string list list \<Rightarrow> Event option"

definition SignedJobHandler_new :: "nat \<Rightarrow> ProofProcessor \<Rightarrow> 's \<Rightarrow> (string, 's shared) result" where
  "SignedJobHandler_new dedupe_capacity p s =
     and_then (RequestDeduplicator_new dedupe_capacity) (\<lambda>d.
     Inr \<lparr>dedupe = d, completed = CompletedResults_new dedupe_capacity, processor = p, store = s\<rparr>)"

definition completed_result :: "'s shared \<Rightarrow> string \<Rightarrow> Event option" where
  "completed_result sh request_id = cr_events (completed sh) request_id"

definition remember_result :: "'s shared \<Rightarrow> string \<Rightarrow> Event \<Rightarrow> 's shared option" where
  "remember_result sh request_id event =
     map_option (\<lambda>c. sh\<lparr>completed := c\<rparr>) (CompletedResults_insert (completed sh) request_id event)"

text \<open>The content of a failed job.\<close>

definition error_content :: "JobRequest \<Rightarrow> ProcessingError \<Rightarrow> JobResultContent" where
  "error_content request e =
     JobResultContent_error (jr_id request) (ProcessingError_public_code e) (ProcessingError_public_message e)"

text \<open>From the result content to the signed event.\<close>

definition sign_result ::
  "handler_lib \<Rightarrow> JobRequest \<Rightarrow> JobResultContent \<Rightarrow> (JobHandlingError, Event) result" where
  "sign_result hl request r =
     and_then (ok_or HE_ResultEncoding (json_to_string (hl_wire hl) (ser_JobResultContent r))) (\<lambda>content.
     if length content > MAX_RESULT_BYTES then Inl HE_ResultTooLarge else
     and_then (map_err HE_InvalidRequest (into_nostr_tags (hl_wire hl) (result_tags request r))) (\<lambda>tags.
     ok_or HE_Signing (hl_sign hl (result_kind (jr_service request)) content tags)))"

definition handle_event ::
  "handler_lib \<Rightarrow> ('s \<Rightarrow> bytes \<Rightarrow> (ArtifactError, StoredArtifact) result \<times> 's) \<Rightarrow>
   Event \<Rightarrow> u64 \<Rightarrow> 's shared \<Rightarrow> ((JobHandlingError, Event option) result \<times> 's shared) option" where
  "handle_event hl put event now sh =
     (case parse_request_event (hl_wire hl) event now of
        Inl e \<Rightarrow> Some (Inl (HE_InvalidRequest e), sh)
      | Inr request \<Rightarrow>
          (case completed_result sh (jr_id request) of
             Some ev \<Rightarrow> Some (Inr (Some ev), sh)
           | None \<Rightarrow>
               (case claim (dedupe sh) (jr_id request) of
                  None \<Rightarrow> None
                | Some (False, d) \<Rightarrow> Some (Inr None, sh\<lparr>dedupe := d\<rparr>)
                | Some (True, d) \<Rightarrow>
                    (case process (hl_urls hl) (hl_prove hl) put (processor sh) (store sh) request of
                       (outcome, p, s) \<Rightarrow>
                         let sh' = sh\<lparr>dedupe := d, processor := p, store := s\<rparr>;
                             r = (case outcome of Inr r \<Rightarrow> r | Inl e \<Rightarrow> error_content request e) in
                         case sign_result hl request r of
                           Inl e \<Rightarrow> Some (Inl e, sh')
                         | Inr ev \<Rightarrow>
                             map_option (\<lambda>sh''. (Inr (Some ev), sh'')) (remember_result sh' (jr_id request) ev)))))"

section \<open>Concurrent deliveries\<close>

text \<open>
  The phases of a delivery. The last one keeps the request, whether it was claimed and the
  outcome.
\<close>

datatype task =
    T_Received Event u64
  | T_Lookup JobRequest
  | T_Claim JobRequest
  | T_Acquire JobRequest
  | T_Proving JobRequest
  | T_Store JobRequest VerifiedProofArtifact
  | T_Sign JobRequest JobResultContent
  | T_Remember JobRequest Event
  | T_Done "JobRequest option" bool "(JobHandlingError, Event option) result"

text \<open>One phase; \<open>None\<close> if it does not return or there is nothing left to do.\<close>

fun task_step ::
  "handler_lib \<Rightarrow> ('s \<Rightarrow> bytes \<Rightarrow> (ArtifactError, StoredArtifact) result \<times> 's) \<Rightarrow>
   task \<Rightarrow> 's shared \<Rightarrow> (task \<times> 's shared) option" where
  "task_step hl put (T_Received event now) sh =
     (case parse_request_event (hl_wire hl) event now of
        Inl e \<Rightarrow> Some (T_Done None False (Inl (HE_InvalidRequest e)), sh)
      | Inr request \<Rightarrow> Some (T_Lookup request, sh))"
| "task_step hl put (T_Lookup request) sh =
     (case completed_result sh (jr_id request) of
        Some ev \<Rightarrow> Some (T_Done (Some request) False (Inr (Some ev)), sh)
      | None \<Rightarrow> Some (T_Claim request, sh))"
| "task_step hl put (T_Claim request) sh =
     (case claim (dedupe sh) (jr_id request) of
        None \<Rightarrow> None
      | Some (False, d) \<Rightarrow> Some (T_Done (Some request) False (Inr None), sh\<lparr>dedupe := d\<rparr>)
      | Some (True, d) \<Rightarrow> Some (T_Acquire request, sh\<lparr>dedupe := d\<rparr>))"
| "task_step hl put (T_Acquire request) sh =
     (case acquire_slot (processor sh) of
        Inl e \<Rightarrow> Some (T_Sign request (error_content request e), sh)
      | Inr held \<Rightarrow> Some (T_Proving request, sh\<lparr>processor := held\<rparr>))"
| "task_step hl put (T_Proving request) sh =
     (let freed = sh\<lparr>processor := release_slot (processor sh)\<rparr> in
      case worker_outcome (hl_prove hl (jr_input request)) of
        Inl e \<Rightarrow> Some (T_Sign request (error_content request e), freed)
      | Inr artifact \<Rightarrow>
          (case check_binding request artifact of
             Inl e \<Rightarrow> Some (T_Sign request (error_content request e), freed)
           | Inr _ \<Rightarrow> Some (T_Store request artifact, freed)))"
| "task_step hl put (T_Store request artifact) sh =
     (case put (store sh) (va_proof_bytes artifact) of
        (Inl e, s) \<Rightarrow> Some (T_Sign request (error_content request (P_Artifact e)), sh\<lparr>store := s\<rparr>)
      | (Inr stored, s) \<Rightarrow>
          (case describe_result (hl_urls hl) (public_base_url (processor sh)) request artifact stored of
             Inl e \<Rightarrow> Some (T_Sign request (error_content request e), sh\<lparr>store := s\<rparr>)
           | Inr r \<Rightarrow> Some (T_Sign request r, sh\<lparr>store := s\<rparr>)))"
| "task_step hl put (T_Sign request r) sh =
     (case sign_result hl request r of
        Inl e \<Rightarrow> Some (T_Done (Some request) True (Inl e), sh)
      | Inr ev \<Rightarrow> Some (T_Remember request ev, sh))"
| "task_step hl put (T_Remember request ev) sh =
     map_option (\<lambda>sh'. (T_Done (Some request) True (Inr (Some ev)), sh')) (remember_result sh (jr_id request) ev)"
| "task_step hl put (T_Done _ _ _) sh = None"

definition MAX_INFLIGHT_EVENTS :: nat where
  "MAX_INFLIGHT_EVENTS = 64"

text \<open>
  What the engine, the signer and the store do may differ from phase to phase, which the
  choice \<open>f\<close> of a step stands for. The provider is the shared state, the free dispatch slots, the tasks and the results handed
  to the relays. A notification is dropped when no slot is free. A task that is done sends
  its result, if it has one, and gives its slot back.
\<close>

record 's provider =
  pr_shared :: "'s shared"
  pr_slots :: nat
  pr_tasks :: "(task \<times> bool) list"  \<comment> \<open>with whether the slot is still held\<close>
  pr_sent :: "Event list"

inductive handler_step ::
  "('f \<Rightarrow> handler_lib) \<Rightarrow> ('f \<Rightarrow> 's \<Rightarrow> bytes \<Rightarrow> (ArtifactError, StoredArtifact) result \<times> 's) \<Rightarrow>
   's provider \<Rightarrow> 's provider \<Rightarrow> bool"
  for hl put where
  notified:
    "0 < pr_slots p \<Longrightarrow>
     handler_step hl put p
       (p\<lparr>pr_slots := pr_slots p - 1, pr_tasks := pr_tasks p @ [(T_Received event now, True)]\<rparr>)"
| dropped:
    "pr_slots p = 0 \<Longrightarrow> handler_step hl put p p"
| advanced:
    "i < length (pr_tasks p) \<Longrightarrow> pr_tasks p ! i = (t, True) \<Longrightarrow>
     task_step (hl f) (put f) t (pr_shared p) = Some (t', sh) \<Longrightarrow>
     handler_step hl put p (p\<lparr>pr_shared := sh, pr_tasks := (pr_tasks p)[i := (t', True)]\<rparr>)"
| dispatched:
    "i < length (pr_tasks p) \<Longrightarrow> pr_tasks p ! i = (T_Done request claimed outcome, True) \<Longrightarrow>
     handler_step hl put p
       (p\<lparr>pr_slots := pr_slots p + 1, pr_tasks := (pr_tasks p)[i := (T_Done request claimed outcome, False)],
          pr_sent := pr_sent p @ (case outcome of Inr (Some ev) \<Rightarrow> [ev] | _ \<Rightarrow> [])\<rparr>)"

definition provider_start :: "'s shared \<Rightarrow> 's provider" where
  "provider_start sh = \<lparr>pr_shared = sh, pr_slots = MAX_INFLIGHT_EVENTS, pr_tasks = [], pr_sent = []\<rparr>"

section \<open>What a phase changes\<close>

fun task_claim :: "task \<Rightarrow> string list" where
  "task_claim (T_Acquire r) = [jr_id r]"
| "task_claim (T_Proving r) = [jr_id r]"
| "task_claim (T_Store r _) = [jr_id r]"
| "task_claim (T_Sign r _) = [jr_id r]"
| "task_claim (T_Remember r _) = [jr_id r]"
| "task_claim (T_Done (Some r) True _) = [jr_id r]"
| "task_claim _ = []"

fun is_proving :: "task \<Rightarrow> bool" where
  "is_proving (T_Proving _) \<longleftrightarrow> True"
| "is_proving _ \<longleftrightarrow> False"

text \<open>The ids claimed so far, in the order of the deliveries that claimed them.\<close>

definition claimed_ids :: "'s provider \<Rightarrow> string list" where
  "claimed_ids p = concat (map (\<lambda>(t, _). task_claim t) (pr_tasks p))"

definition proving_tasks :: "'s provider \<Rightarrow> nat" where
  "proving_tasks p = length (filter (\<lambda>(t, _). is_proving t) (pr_tasks p))"

definition held_slots :: "'s provider \<Rightarrow> nat" where
  "held_slots p = length (filter snd (pr_tasks p))"

text \<open>A task that answered, with its request and its answer.\<close>

definition answered :: "'s provider \<Rightarrow> JobRequest \<Rightarrow> Event \<Rightarrow> bool" where
  "answered p request ev \<longleftrightarrow>
     (\<exists>claimed held. (T_Done (Some request) claimed (Inr (Some ev)), held) \<in> set (pr_tasks p))"

lemma task_step_processor:
  "task_step hl put t sh = Some (t', sh') \<Longrightarrow>
     proving_slots (processor sh') + of_bool (is_proving t') = proving_slots (processor sh) + of_bool (is_proving t)"
  by (cases t)
    (auto simp: acquire_slot_def release_slot_def Let_def remember_result_def
      split: sum.splits option.splits prod.splits bool.splits if_splits)

lemma task_step_same_locks:
  "task_step hl put t sh = Some (t', sh') \<Longrightarrow> (\<And>r. t \<noteq> T_Claim r) \<Longrightarrow> (\<And>r ev. t \<noteq> T_Remember r ev) \<Longrightarrow>
     dedupe sh' = dedupe sh \<and> completed sh' = completed sh \<and> task_claim t' = task_claim t \<and>
     (\<forall>r c ev. t' = T_Done (Some r) c (Inr (Some ev)) \<longrightarrow> cr_events (completed sh) (jr_id r) = Some ev)"
  by (cases t)
    (auto simp: Let_def completed_result_def split: sum.splits option.splits prod.splits bool.splits)

lemma task_step_claim:
  assumes "task_step hl put (T_Claim r) sh = Some (t', sh')" and "dedupe_ok (dedupe sh)"
  shows "completed sh' = completed sh \<and> dedupe_ok (dedupe sh') \<and> capacity (dedupe sh') = capacity (dedupe sh) \<and>
    (if jr_id r \<in> set (window (dedupe sh))
     then t' = T_Done (Some r) False (Inr None) \<and> window (dedupe sh') = window (dedupe sh)
     else t' = T_Acquire r \<and> window (dedupe sh') = newest (capacity (dedupe sh)) (window (dedupe sh) @ [jr_id r]))"
proof -
  obtain d where d: "claim (dedupe sh) (jr_id r) = Some (jr_id r \<notin> set (window (dedupe sh)), d)"
    "dedupe_ok d" "capacity d = capacity (dedupe sh)"
    "window d = (if jr_id r \<in> set (window (dedupe sh)) then window (dedupe sh)
       else newest (capacity (dedupe sh)) (window (dedupe sh) @ [jr_id r]))"
    using claim_window [OF assms(2)] by blast
  with assms(1) show ?thesis
    by (cases "jr_id r \<in> set (window (dedupe sh))") auto
qed

lemma remember_new:
  assumes "cr_events (completed sh) k = None" and "fifo_ok (dom (cr_events (completed sh))) (cr_order (completed sh))"
    and "length (cr_order (completed sh)) < cr_capacity (completed sh)"
  shows "remember_result sh k ev = Some (sh\<lparr>completed := (completed sh)
    \<lparr>cr_events := (cr_events (completed sh))(k \<mapsto> ev), cr_order := cr_order (completed sh) @ [k]\<rparr>\<rparr>)"
proof -
  have "card (dom (cr_events (completed sh))) = length (cr_order (completed sh))"
    using assms(2) by (rule completed.card_keys)
  moreover have "finite (dom (cr_events (completed sh)))"
    using assms(2) unfolding fifo_ok_def by (metis List.finite_set)
  ultimately have "card (insert k (dom (cr_events (completed sh)))) \<le> cr_capacity (completed sh)"
    using assms(3) by (simp add: card_insert_if)
  then show ?thesis
    using assms(1) by (simp add: remember_result_def CompletedResults_insert_def evict_completed.simps)
qed

section \<open>The invariant of concurrent deliveries\<close>

text \<open>
  While no more requests have been claimed than are remembered, the window of the
  deduplicator is the set of the claimed ids, which are distinct, and every answer given is
  the one in the cache, put there by the delivery that claimed the request.
\<close>

definition claims_ok :: "nat \<Rightarrow> 's provider \<Rightarrow> bool" where
  "claims_ok cap p \<longleftrightarrow>
     (let d = dedupe (pr_shared p); c = completed (pr_shared p) in
      dedupe_ok d \<and> capacity d = cap \<and> distinct (claimed_ids p) \<and> set (window d) = set (claimed_ids p) \<and>
      fifo_ok (dom (cr_events c)) (cr_order c) \<and> cr_capacity c = cap \<and>
      (\<forall>k \<in> set (cr_order c). \<exists>r ev held.
         (T_Done (Some r) True (Inr (Some ev)), held) \<in> set (pr_tasks p) \<and> jr_id r = k) \<and>
      (\<forall>r ev. answered p r ev \<longrightarrow> cr_events c (jr_id r) = Some ev))"

definition provider_ok :: "nat \<Rightarrow> nat \<Rightarrow> 's provider \<Rightarrow> bool" where
  "provider_ok cap slots p \<longleftrightarrow>
     pr_slots p + held_slots p = MAX_INFLIGHT_EVENTS \<and>
     proving_slots (processor (pr_shared p)) + proving_tasks p = slots \<and>
     (length (claimed_ids p) \<le> cap \<longrightarrow> claims_ok cap p)"

lemma split_at:
  assumes "i < length xs" and "xs ! i = x"
  obtains us vs where "xs = us @ x # vs" and "\<And>y. xs[i := y] = us @ y # vs"
  using assms id_take_nth_drop [of i xs] upd_conv_take_nth_drop [of i xs] by (metis (no_types, lifting))

text \<open>Replacing one task.\<close>

lemma advanced_counts:
  assumes "pr_tasks p = us @ (t, b) # vs" and "pr_tasks p' = us @ (t', b') # vs"
  shows "claimed_ids p = concat (map (\<lambda>(t, _). task_claim t) us) @ task_claim t @
           concat (map (\<lambda>(t, _). task_claim t) vs)"
    and "claimed_ids p' = concat (map (\<lambda>(t, _). task_claim t) us) @ task_claim t' @
           concat (map (\<lambda>(t, _). task_claim t) vs)"
    and "proving_tasks p' + of_bool (is_proving t) = proving_tasks p + of_bool (is_proving t')"
    and "held_slots p' + of_bool b = held_slots p + of_bool b'"
  using assms by (simp_all add: claimed_ids_def proving_tasks_def held_slots_def)

lemma task_step_answers:
  "task_step hl put t sh = Some (t', sh') \<Longrightarrow> task_claim t' = task_claim t \<or> (\<exists>r. t = T_Claim r)"
  by (cases t) (auto simp: Let_def split: sum.splits option.splits prod.splits bool.splits)

lemma task_step_not_done: "task_step hl put t sh = Some x \<Longrightarrow> t \<noteq> T_Done r c out"
  by auto

lemma length_claims_step:
  assumes "task_step hl put t sh = Some (t', sh')"
  shows "length (task_claim t) \<le> length (task_claim t')"
  using task_step_answers [OF assms] by auto

lemma completed_bound:
  assumes "claims_ok cap p" and "pr_tasks p = us @ (t, b) # vs" and "task_claim t = [k]"
    and "\<And>r c out. t \<noteq> T_Done r c out"
  shows "k \<notin> set (cr_order (completed (pr_shared p)))"
    and "length (cr_order (completed (pr_shared p))) < length (claimed_ids p)"
proof -
  define us' vs' where "us' = concat (map (\<lambda>(t, _). task_claim t) us)"
    and "vs' = concat (map (\<lambda>(t, _). task_claim t) vs)"
  have claimed: "claimed_ids p = us' @ k # vs'"
    using assms(2,3) by (simp add: claimed_ids_def us'_def vs'_def)
  have dist: "distinct (us' @ k # vs')"
    using assms(1) by (simp add: claims_ok_def Let_def claimed)
  have sub: "set (cr_order (completed (pr_shared p))) \<subseteq> set (us' @ vs')"
  proof
    fix j assume "j \<in> set (cr_order (completed (pr_shared p)))"
    then obtain r ev held where "(T_Done (Some r) True (Inr (Some ev)), held) \<in> set (pr_tasks p)" "jr_id r = j"
      using assms(1) by (auto simp: claims_ok_def Let_def)
    then have "(T_Done (Some r) True (Inr (Some ev)), held) \<in> set us \<union> set vs" "jr_id r = j"
      using assms(2,4) by auto
    then show "j \<in> set (us' @ vs')"
      by (force simp: us'_def vs'_def)
  qed
  then show "k \<notin> set (cr_order (completed (pr_shared p)))"
    using dist by auto
  have "distinct (cr_order (completed (pr_shared p)))"
    using assms(1) by (simp add: claims_ok_def Let_def fifo_ok_def)
  then have "length (cr_order (completed (pr_shared p))) = card (set (cr_order (completed (pr_shared p))))"
    by (simp add: distinct_card)
  also have "\<dots> \<le> card (set (us' @ vs'))"
    using sub by (intro card_mono) simp_all
  also have "\<dots> \<le> length (us' @ vs')" by (rule card_length)
  finally show "length (cr_order (completed (pr_shared p))) < length (claimed_ids p)"
    by (simp add: claimed)
qed

lemma claims_ok_advance:
  assumes ok: "claims_ok cap p" and small: "length (claimed_ids p') \<le> cap"
    and tasks: "pr_tasks p = us @ (t, True) # vs" and step: "task_step hl put t (pr_shared p) = Some (t', sh')"
    and p': "p' = p\<lparr>pr_shared := sh', pr_tasks := us @ (t', True) # vs\<rparr>"
  shows "claims_ok cap p'"
proof -
  define d c where "d = dedupe (pr_shared p)" and "c = completed (pr_shared p)"
  have d: "dedupe_ok d" "capacity d = cap" "distinct (claimed_ids p)" "set (window d) = set (claimed_ids p)"
    and c: "fifo_ok (dom (cr_events c)) (cr_order c)" "cr_capacity c = cap"
    and finished: "\<And>k. k \<in> set (cr_order c) \<Longrightarrow> \<exists>r ev held.
         (T_Done (Some r) True (Inr (Some ev)), held) \<in> set (pr_tasks p) \<and> jr_id r = k"
    and answers: "\<And>r ev. answered p r ev \<Longrightarrow> cr_events c (jr_id r) = Some ev"
    using ok by (simp_all add: claims_ok_def Let_def d_def c_def)
  have tasks': "pr_tasks p' = us @ (t', True) # vs" and shared': "pr_shared p' = sh'"
    by (simp_all add: p')
  note counts = advanced_counts [OF tasks tasks']
  have undone: "t \<noteq> T_Done r b out" for r b out
    using task_step_not_done [OF step] .
  have finished': "\<exists>r ev held. (T_Done (Some r) True (Inr (Some ev)), held) \<in> set (pr_tasks p') \<and> jr_id r = k"
    if "k \<in> set (cr_order c)" for k
  proof -
    from finished [OF that] obtain r ev held where
      "(T_Done (Some r) True (Inr (Some ev)), held) \<in> set (pr_tasks p)" "jr_id r = k"
      by blast
    then have "(T_Done (Some r) True (Inr (Some ev)), held) \<in> set (pr_tasks p')"
      using undone by (auto simp: tasks tasks')
    with \<open>jr_id r = k\<close> show ?thesis by blast
  qed
  have answers': "answered p r ev \<or> (\<exists>b. t' = T_Done (Some r) b (Inr (Some ev)))" if "answered p' r ev" for r ev
    using that by (auto simp: answered_def tasks tasks')
  consider (claiming) r where "t = T_Claim r" | (remembering) r ev where "t = T_Remember r ev"
    | (other) "\<And>r. t \<noteq> T_Claim r" "\<And>r ev. t \<noteq> T_Remember r ev"
    by blast
  then show ?thesis
  proof cases
    case claiming
    note claimed = task_step_claim [OF step [unfolded claiming], folded d_def c_def, OF d(1)]
    show ?thesis
    proof (cases "jr_id r \<in> set (window d)")
      case True
      with claimed have t': "t' = T_Done (Some r) False (Inr None)" and w: "window (dedupe sh') = window d"
        by auto
      then have "claimed_ids p' = claimed_ids p"
        using counts(1,2) by (simp add: claiming)
      with claimed w d c finished' answers answers' t' show ?thesis
        by (auto simp: claims_ok_def Let_def shared')
    next
      case False
      with claimed have t': "t' = T_Acquire r" and w: "window (dedupe sh') = newest cap (window d @ [jr_id r])"
        using d(2) by auto
      then have "mset (claimed_ids p') = add_mset (jr_id r) (mset (claimed_ids p))"
        using counts(1,2) by (simp add: claiming)
      then have set': "set (claimed_ids p') = insert (jr_id r) (set (claimed_ids p))"
        and len': "length (claimed_ids p') = Suc (length (claimed_ids p))"
        and dist': "distinct (claimed_ids p')"
        using d(3,4) False
        by (metis set_mset_mset set_mset_add_mset_insert, metis size_mset size_add_mset,
            metis distinct.simps(2) mset.simps(2) mset_eq_imp_distinct_iff)
      have "distinct (window d)"
        using d(1) by (simp add: dedupe_ok_def fifo_ok_def)
      then have "length (window d) = length (claimed_ids p)"
        using d(3,4) by (metis distinct_card)
      then have "newest cap (window d @ [jr_id r]) = window d @ [jr_id r]"
        using small len' by (simp add: newest_def)
      with claimed w set' dist' d c finished' answers answers' t' show ?thesis
        by (auto simp: claims_ok_def Let_def shared')
    qed
  next
    case remembering
    have "task_claim t = [jr_id r]" by (simp add: remembering)
    note bound = completed_bound [OF ok tasks this undone, folded c_def]
    have same: "claimed_ids p' = claimed_ids p"
      using counts(1,2) step by (auto simp: remembering)
    have none: "cr_events c (jr_id r) = None"
      using bound(1) c(1) by (auto simp: fifo_ok_def)
    have "length (cr_order c) < cr_capacity c"
      using bound(2) small same c(2) by simp
    from remember_new [OF none [unfolded c_def] c(1) [unfolded c_def] this [unfolded c_def], of ev] step
    have t': "t' = T_Done (Some r) True (Inr (Some ev))" and dd: "dedupe sh' = d"
      and cc: "completed sh' = c\<lparr>cr_events := (cr_events c)(jr_id r \<mapsto> ev), cr_order := cr_order c @ [jr_id r]\<rparr>"
      by (auto simp: remembering c_def d_def)
    have "fifo_ok (dom (cr_events (completed sh'))) (cr_order (completed sh'))"
      using fifo_ok_snoc [OF c(1)] none by (simp add: cc domIff)
    moreover have "\<exists>r ev held. (T_Done (Some r) True (Inr (Some ev)), held) \<in> set (pr_tasks p') \<and> jr_id r = k"
      if "k \<in> set (cr_order (completed sh'))" for k
      using that finished' by (auto simp: cc tasks' t')
    moreover have "cr_events (completed sh') (jr_id r') = Some ev'" if "answered p' r' ev'" for r' ev'
      using answers' [OF that] answers [of r' ev'] none by (auto simp: cc t')
    ultimately show ?thesis
      using d c same by (simp add: claims_ok_def Let_def shared' dd cc)
  next
    case other
    note same = task_step_same_locks [OF step other, folded d_def c_def]
    then have "claimed_ids p' = claimed_ids p"
      using counts(1,2) by simp
    moreover have "cr_events c (jr_id r) = Some ev" if "answered p' r ev" for r ev
      using answers' [OF that] answers same by blast
    ultimately show ?thesis
      using same d c finished' by (simp add: claims_ok_def Let_def shared')
  qed
qed

lemma claims_ok_cong:
  assumes "pr_shared p' = pr_shared p" and "claimed_ids p' = claimed_ids p"
    and tasks: "\<And>r c out. (\<exists>held. (T_Done r c out, held) \<in> set (pr_tasks p')) \<longleftrightarrow>
      (\<exists>held. (T_Done r c out, held) \<in> set (pr_tasks p))"
  shows "claims_ok cap p' \<longleftrightarrow> claims_ok cap p"
proof -
  have "answered p' r ev \<longleftrightarrow> answered p r ev" for r ev
    unfolding answered_def using tasks by blast
  moreover have "(\<exists>r ev held. (T_Done (Some r) True (Inr (Some ev)), held) \<in> set (pr_tasks p') \<and> jr_id r = k) \<longleftrightarrow>
      (\<exists>r ev held. (T_Done (Some r) True (Inr (Some ev)), held) \<in> set (pr_tasks p) \<and> jr_id r = k)" for k
    using tasks by blast
  ultimately show ?thesis
    using assms(1,2) by (simp add: claims_ok_def)
qed

lemma handler_step_ok:
  assumes "handler_step hl put p p'" and "provider_ok cap slots p"
  shows "provider_ok cap slots p'"
  using assms(1)
proof cases
  case (notified event now)
  then have "claimed_ids p' = claimed_ids p"
    by (simp add: claimed_ids_def)
  moreover from this have "claims_ok cap p' \<longleftrightarrow> claims_ok cap p"
    using notified by (intro claims_ok_cong) auto
  ultimately show ?thesis
    using assms(2) notified by (auto simp: provider_ok_def proving_tasks_def held_slots_def)
next
  case dropped
  with assms(2) show ?thesis by simp
next
  case (advanced i t f t' sh)
  obtain us vs where tasks: "pr_tasks p = us @ (t, True) # vs"
    and update: "\<And>y. (pr_tasks p)[i := y] = us @ y # vs"
    using split_at [OF advanced(2,3)] by blast
  have p': "p' = p\<lparr>pr_shared := sh, pr_tasks := us @ (t', True) # vs\<rparr>"
    using advanced(1) update by simp
  then have tasks': "pr_tasks p' = us @ (t', True) # vs" by simp
  note counts = advanced_counts [OF tasks tasks']
  have "length (claimed_ids p) \<le> length (claimed_ids p')"
    using counts(1,2) length_claims_step [OF advanced(4)] by simp
  moreover have "claims_ok cap p'" if "claims_ok cap p" "length (claimed_ids p') \<le> cap"
    using claims_ok_advance [OF that tasks advanced(4) p'] .
  ultimately have "length (claimed_ids p') \<le> cap \<longrightarrow> claims_ok cap p'"
    using assms(2) by (auto simp: provider_ok_def)
  moreover have "proving_slots (processor (pr_shared p')) + proving_tasks p' = slots"
    using task_step_processor [OF advanced(4)] counts(3) assms(2)
    by (simp add: provider_ok_def p')
  moreover have "pr_slots p' + held_slots p' = MAX_INFLIGHT_EVENTS"
    using counts(4) assms(2) by (simp add: provider_ok_def p')
  ultimately show ?thesis by (simp add: provider_ok_def)
next
  case (dispatched i request claimed outcome)
  let ?t = "T_Done request claimed outcome"
  obtain us vs where tasks: "pr_tasks p = us @ (?t, True) # vs"
    and update: "\<And>y. (pr_tasks p)[i := y] = us @ y # vs"
    using split_at [OF dispatched(2,3)] by blast
  have tasks': "pr_tasks p' = us @ (?t, False) # vs"
    using dispatched(1) update by simp
  note counts = advanced_counts [OF tasks tasks']
  have same: "claimed_ids p' = claimed_ids p" using counts(1,2) by simp
  have "pr_shared p' = pr_shared p" using dispatched(1) by simp
  then have "claims_ok cap p' \<longleftrightarrow> claims_ok cap p"
    using same by (rule claims_ok_cong) (auto simp: tasks tasks')
  with same show ?thesis
    using assms(2) counts(3,4) dispatched(1) by (auto simp: provider_ok_def)
qed

lemma handler_steps_ok:
  assumes "(handler_step hl put)\<^sup>*\<^sup>* p p'" and "provider_ok cap slots p"
  shows "provider_ok cap slots p'"
  using assms by (induction rule: rtranclp_induct) (auto intro: handler_step_ok)

lemma provider_start_ok:
  assumes "SignedJobHandler_new cap proc s = Inr sh"
  shows "provider_ok cap (proving_slots proc) (provider_start sh)"
proof -
  have sh: "dedupe_ok (dedupe sh)" "capacity (dedupe sh) = cap" "window (dedupe sh) = []"
    "completed sh = CompletedResults_new cap" "processor sh = proc"
    using assms RequestDeduplicator_new_ok [of cap "dedupe sh"]
    by (auto simp: SignedJobHandler_new_def and_then_eq_Inr RequestDeduplicator_new_def split: if_splits)
  then show ?thesis
    by (simp add: provider_ok_def provider_start_def held_slots_def proving_tasks_def claims_ok_def
        claimed_ids_def answered_def CompletedResults_new_def fifo_ok_def)
qed

section \<open>Redelivery\<close>

definition handler_ok :: "'s shared \<Rightarrow> bool" where
  "handler_ok sh \<longleftrightarrow>
     dedupe_ok (dedupe sh) \<and> fifo_ok (dom (cr_events (completed sh))) (cr_order (completed sh)) \<and>
     0 < cr_capacity (completed sh)"

lemma SignedJobHandler_new_ok: "SignedJobHandler_new cap p s = Inr sh \<Longrightarrow> handler_ok sh"
  by (auto simp: SignedJobHandler_new_def and_then_eq_Inr handler_ok_def CompletedResults_new_def fifo_ok_def
      RequestDeduplicator_new_ok) (auto simp: RequestDeduplicator_new_def split: if_splits)

lemma in_newest_last: "0 < n \<Longrightarrow> k \<in> set (newest n (ord @ [k]))"
  by (simp add: newest_def)

text \<open>The cache keeps the events of the ids in its queue, and a new entry is one of them.\<close>

lemma evict_completed_events:
  assumes "fifo_ok (dom (cr_events c)) (cr_order c)" and "evict_completed cap c = Some c'"
  shows "cr_capacity c' = cr_capacity c" and "k \<in> set (cr_order c') \<Longrightarrow> cr_events c' k = cr_events c k"
proof -
  show "cr_capacity c' = cr_capacity c"
    using assms
    by (rule completed.loop_keeps [where P = "\<lambda>t. cr_capacity t = cr_capacity c"]) (simp_all add: pop_completed_def)
  have "\<forall>k \<in> set (cr_order c'). cr_events c' k = cr_events c k"
    using assms
  proof (rule completed.loop_keeps [where P = "\<lambda>t. \<forall>k \<in> set (cr_order t). cr_events t k = cr_events c k"])
    fix t :: CompletedResults
    assume "fifo_ok (dom (cr_events t)) (cr_order t)" "cr_order t \<noteq> []"
      "\<forall>k \<in> set (cr_order t). cr_events t k = cr_events c k"
    moreover from this have "distinct (cr_order t)" by (simp add: fifo_ok_def)
    ultimately show "\<forall>k \<in> set (cr_order (pop_completed t)). cr_events (pop_completed t) k = cr_events c k"
      by (cases "cr_order t") (simp_all add: pop_completed_def)
  qed simp
  then show "k \<in> set (cr_order c') \<Longrightarrow> cr_events c' k = cr_events c k" by blast
qed

lemma remember_result_keeps:
  assumes "handler_ok sh" and "cr_events (completed sh) k = None"
  obtains c where "remember_result sh k ev = Some (sh\<lparr>completed := c\<rparr>)" and "handler_ok (sh\<lparr>completed := c\<rparr>)"
    and "cr_events c k = Some ev" and "cr_capacity c = cr_capacity (completed sh)"
    and "cr_order c = newest (cr_capacity (completed sh)) (cr_order (completed sh) @ [k])"
    and "\<forall>j \<in> set (cr_order c). cr_events c j = ((cr_events (completed sh))(k \<mapsto> ev)) j"
proof -
  let ?c = "(completed sh)\<lparr>cr_events := (cr_events (completed sh))(k \<mapsto> ev), cr_order := cr_order (completed sh) @ [k]\<rparr>"
  have ok: "fifo_ok (dom (cr_events ?c)) (cr_order ?c)"
    using assms fifo_ok_snoc [of "dom (cr_events (completed sh))" "cr_order (completed sh)" k]
    by (simp add: handler_ok_def domIff)
  then obtain c where c: "evict_completed (cr_capacity (completed sh)) ?c = Some c"
    "fifo_ok (dom (cr_events c)) (cr_order c)" "cr_order c = newest (cr_capacity (completed sh)) (cr_order ?c)"
    by (rule completed.loop_evicts)
  have "k \<in> set (cr_order c)"
    using assms(1) c(3) in_newest_last [of "cr_capacity (completed sh)" k] by (simp add: handler_ok_def)
  then have "cr_events c k = Some ev" "cr_capacity c = cr_capacity (completed sh)"
    using evict_completed_events [OF ok c(1)] by simp_all
  then show thesis
    using that [of c] assms c evict_completed_events(2) [OF ok c(1)]
    by (simp add: remember_result_def CompletedResults_insert_def handler_ok_def)
qed

lemma claim_seen: "dedupe_ok d \<Longrightarrow> k \<in> set (window d) \<Longrightarrow> claim d k = Some (False, d)"
  by (simp add: claim_def dedupe_ok_def fifo_ok_def)

text \<open>What one accepted delivery leaves behind: an id that has no answer and is not in the window
  is claimed, and its answer, if there is one, remembered; any other delivery changes
  nothing.\<close>

lemma handle_event_known:
  assumes "handler_ok sh" and "parse_request_event (hl_wire hl) event now = Inr request"
    and "cr_events (completed sh) (jr_id request) \<noteq> None \<or> jr_id request \<in> set (window (dedupe sh))"
  shows "handle_event hl put event now sh = Some (Inr (cr_events (completed sh) (jr_id request)), sh)"
  using assms claim_window [of "dedupe sh" "jr_id request"] claim_seen [of "dedupe sh" "jr_id request"]
  by (auto simp: handle_event_def completed_result_def handler_ok_def split: option.split)

lemma handle_event_new:
  assumes "handler_ok sh" and "parse_request_event (hl_wire hl) event now = Inr request"
    and "cr_events (completed sh) (jr_id request) = None" and "jr_id request \<notin> set (window (dedupe sh))"
  obtains out sh1 where "handle_event hl put event now sh = Some (out, sh1)" and "out \<noteq> Inr None" and "handler_ok sh1"
    and "capacity (dedupe sh1) = capacity (dedupe sh)"
    and "window (dedupe sh1) = newest (capacity (dedupe sh)) (window (dedupe sh) @ [jr_id request])"
    and "cr_capacity (completed sh1) = cr_capacity (completed sh)"
    and "case out of
      Inr (Some ev) \<Rightarrow> cr_events (completed sh1) (jr_id request) = Some ev \<and>
        cr_order (completed sh1) = newest (cr_capacity (completed sh)) (cr_order (completed sh) @ [jr_id request]) \<and>
        (\<forall>j \<in> set (cr_order (completed sh1)). j \<noteq> jr_id request \<longrightarrow> cr_events (completed sh1) j = cr_events (completed sh) j)
    | _ \<Rightarrow> completed sh1 = completed sh"
proof -
  have d_ok: "dedupe_ok (dedupe sh)" using assms(1) by (simp add: handler_ok_def)
  obtain d where claim: "claim (dedupe sh) (jr_id request) = Some (True, d)"
    and d: "dedupe_ok d" "capacity d = capacity (dedupe sh)"
      "window d = newest (capacity (dedupe sh)) (window (dedupe sh) @ [jr_id request])"
    using claim_window [OF d_ok, of "jr_id request"] assms(4) by auto
  obtain outcome p s where run: "process (hl_urls hl) (hl_prove hl) put (processor sh) (store sh) request = (outcome, p, s)"
    using prod_cases3 by blast
  define sh' where "sh' = sh\<lparr>dedupe := d, processor := p, store := s\<rparr>"
  define r where "r = (case outcome of Inr r \<Rightarrow> r | Inl e \<Rightarrow> error_content request e)"
  have handled: "handle_event hl put event now sh =
    (case sign_result hl request r of Inl e \<Rightarrow> Some (Inl e, sh')
     | Inr ev \<Rightarrow> map_option (\<lambda>sh''. (Inr (Some ev), sh'')) (remember_result sh' (jr_id request) ev))"
    using assms(2,3) claim unfolding sh'_def r_def
    by (simp add: handle_event_def completed_result_def run Let_def)
  have ok': "handler_ok sh'" and none': "cr_events (completed sh') (jr_id request) = None"
    using assms(1,3) d by (simp_all add: handler_ok_def sh'_def)
  show thesis
  proof (cases "sign_result hl request r")
    case (Inl e)
    with handled ok' d that [of "Inl e" sh'] show ?thesis by (simp add: sh'_def)
  next
    case (Inr ev)
    from ok' none' obtain c where c: "remember_result sh' (jr_id request) ev = Some (sh'\<lparr>completed := c\<rparr>)"
      "handler_ok (sh'\<lparr>completed := c\<rparr>)" "cr_events c (jr_id request) = Some ev" "cr_capacity c = cr_capacity (completed sh')"
      "cr_order c = newest (cr_capacity (completed sh')) (cr_order (completed sh') @ [jr_id request])"
      "\<forall>j \<in> set (cr_order c). cr_events c j = ((cr_events (completed sh'))(jr_id request \<mapsto> ev)) j"
      by (rule remember_result_keeps [where ev = ev])
    with handled Inr d that [of "Inr (Some ev)" "sh'\<lparr>completed := c\<rparr>"] show ?thesis by (simp add: sh'_def)
  qed
qed

lemma handle_event_leaves:
  assumes "handler_ok sh" and "parse_request_event (hl_wire hl) event now = Inr request"
  shows "\<exists>out sh1. handle_event hl put event now sh = Some (out, sh1) \<and> handler_ok sh1 \<and>
    cr_events (completed sh1) (jr_id request) = (case out of Inr (Some ev) \<Rightarrow> Some ev | _ \<Rightarrow> None)"
proof (cases "cr_events (completed sh) (jr_id request) \<noteq> None \<or> jr_id request \<in> set (window (dedupe sh))")
  case True
  with handle_event_known [OF assms True] assms(1) show ?thesis by (auto split: option.split)
next
  case False
  then have new: "cr_events (completed sh) (jr_id request) = None" "jr_id request \<notin> set (window (dedupe sh))"
    by simp_all
  show ?thesis
    by (rule handle_event_new [OF assms new, of put]) (use new(1) in \<open>force split: sum.splits option.splits\<close>)
qed

subsection \<open>Deliveries in sequence\<close>

text \<open>
  \<open>queued cap n k q\<close>: in a queue that keeps its newest \<open>cap\<close> entries, \<open>k\<close> survives \<open>n\<close> more.
\<close>

definition queued :: "nat \<Rightarrow> nat \<Rightarrow> 'k \<Rightarrow> 'k list \<Rightarrow> bool" where
  "queued cap n k q \<longleftrightarrow> (\<exists>before behind. q = before @ k # behind \<and> length behind + n < cap)"

lemma queued_in: "queued cap n k q \<Longrightarrow> k \<in> set q"
  by (auto simp: queued_def)

lemma queued_Suc: "queued cap (Suc n) k q \<Longrightarrow> queued cap n k q"
  unfolding queued_def by (elim exE conjE) (intro exI conjI, assumption, simp)

lemma queued_last: "n < cap \<Longrightarrow> queued cap n k (newest cap (q @ [k]))"
  unfolding queued_def newest_def by (intro exI [of _ "drop (length q + 1 - cap) q"] exI [of _ "[]"]) simp

lemma queued_newest:
  assumes "queued cap (Suc n) k q"
  shows "queued cap n k (newest cap (q @ [j]))"
proof -
  obtain before behind where q: "q = before @ k # behind" and room: "length behind + Suc n < cap"
    using assms by (auto simp: queued_def)
  then have "newest cap (q @ [j]) = drop (length (q @ [j]) - cap) before @ k # behind @ [j]"
    by (simp add: newest_def)
  then show ?thesis
    unfolding queued_def using room
    by (intro exI [of _ "drop (length (q @ [j]) - cap) before"] exI [of _ "behind @ [j]"]) simp
qed

text \<open>
  \<open>kept n k answer sh\<close>: the next \<open>n\<close> deliveries cannot make the handler forget the answer of \<open>k\<close>,
  which is an event in the cache, or that there is none although \<open>k\<close> has been claimed.
\<close>

definition kept :: "nat \<Rightarrow> string \<Rightarrow> Event option \<Rightarrow> 's shared \<Rightarrow> bool" where
  "kept n k answer sh \<longleftrightarrow> handler_ok sh \<and> cr_events (completed sh) k = answer \<and>
     (case answer of
        Some _ \<Rightarrow> queued (cr_capacity (completed sh)) n k (cr_order (completed sh))
      | None \<Rightarrow> queued (capacity (dedupe sh)) n k (window (dedupe sh)))"

text \<open>One delivery after another.\<close>

fun deliver_all ::
  "(handler_lib \<times> ('s \<Rightarrow> bytes \<Rightarrow> (ArtifactError, StoredArtifact) result \<times> 's) \<times> Event \<times> u64) list \<Rightarrow>
   's shared \<Rightarrow> 's shared option" where
  "deliver_all [] sh = Some sh"
| "deliver_all ((hl, put, event, now) # ds) sh =
     Option.bind (handle_event hl put event now sh) (\<lambda>(_, sh'). deliver_all ds sh')"

lemma kept_Suc: "kept (Suc n) k answer sh \<Longrightarrow> kept n k answer sh"
  by (auto simp: kept_def queued_Suc split: option.splits)

lemma kept_known: "kept n k answer sh \<Longrightarrow> cr_events (completed sh) k \<noteq> None \<or> k \<in> set (window (dedupe sh))"
  by (auto simp: kept_def queued_in split: option.splits)

lemma kept_answers:
  assumes "kept n (jr_id request) answer sh" and "parse_request_event (hl_wire hl) event now = Inr request"
  shows "handle_event hl put event now (sh\<lparr>processor := p, store := s\<rparr>) =
    Some (Inr answer, sh\<lparr>processor := p, store := s\<rparr>)"
proof -
  have "handler_ok (sh\<lparr>processor := p, store := s\<rparr>)"
    using assms(1) by (simp add: kept_def handler_ok_def)
  from handle_event_known [OF this assms(2)] kept_known [OF assms(1)] assms(1) show ?thesis
    by (simp add: kept_def)
qed

lemma kept_step:
  assumes kept: "kept (Suc n) k answer sh"
  shows "\<exists>out sh1. handle_event hl put event now sh = Some (out, sh1) \<and> kept n k answer sh1"
proof (cases "parse_request_event (hl_wire hl) event now")
  case (Inl e)
  with kept_Suc [OF kept] show ?thesis by (simp add: handle_event_def)
next
  case (Inr request)
  have ok: "handler_ok sh" using kept by (simp add: kept_def)
  show ?thesis
  proof (cases "cr_events (completed sh) (jr_id request) \<noteq> None \<or> jr_id request \<in> set (window (dedupe sh))")
    case True
    from handle_event_known [OF ok Inr True] kept_Suc [OF kept] show ?thesis by blast
  next
    case False
    then have new: "cr_events (completed sh) (jr_id request) = None" "jr_id request \<notin> set (window (dedupe sh))"
      by simp_all
    have other: "jr_id request \<noteq> k" using kept_known [OF kept] False by auto
    obtain out sh1 where run: "handle_event hl put event now sh = Some (out, sh1)" "out \<noteq> Inr None" "handler_ok sh1"
      and w: "capacity (dedupe sh1) = capacity (dedupe sh)"
        "window (dedupe sh1) = newest (capacity (dedupe sh)) (window (dedupe sh) @ [jr_id request])"
        "cr_capacity (completed sh1) = cr_capacity (completed sh)"
      and c: "case out of
        Inr (Some ev) \<Rightarrow> cr_events (completed sh1) (jr_id request) = Some ev \<and>
          cr_order (completed sh1) = newest (cr_capacity (completed sh)) (cr_order (completed sh) @ [jr_id request]) \<and>
          (\<forall>j \<in> set (cr_order (completed sh1)). j \<noteq> jr_id request \<longrightarrow> cr_events (completed sh1) j = cr_events (completed sh) j)
      | _ \<Rightarrow> completed sh1 = completed sh"
      by (rule handle_event_new [OF ok Inr new])
    have "kept n k answer sh1"
    proof (cases answer)
      case None
      have "cr_events (completed sh1) k = None"
      proof (rule ccontr)
        assume "cr_events (completed sh1) k \<noteq> None"
        moreover from this have "k \<in> set (cr_order (completed sh1))"
          using run(3) by (auto simp: handler_ok_def fifo_ok_def)
        ultimately show False
          using c other kept None by (auto simp: kept_def split: sum.splits option.splits)
      qed
      then show ?thesis
        using kept None run(3) w(1,2) by (simp add: kept_def queued_newest)
    next
      case (Some ev)
      then have "queued (cr_capacity (completed sh)) n k (cr_order (completed sh1))"
        using kept c by (auto simp: kept_def queued_newest queued_Suc split: sum.splits option.splits)
      moreover from queued_in [OF this] have "cr_events (completed sh1) k = Some ev"
        using kept Some c other by (auto simp: kept_def split: sum.splits option.splits)
      ultimately show ?thesis
        using run(3) w(3) Some by (simp add: kept_def)
    qed
    with run(1) show ?thesis by blast
  qed
qed

lemma kept_deliveries:
  "kept (length ds) k answer sh \<Longrightarrow> \<exists>sh'. deliver_all ds sh = Some sh' \<and> kept 0 k answer sh'"
proof (induction ds arbitrary: sh)
  case (Cons d ds)
  obtain hl put event now where d: "d = (hl, put, event, now)" by (cases d)
  obtain out sh1 where "handle_event hl put event now sh = Some (out, sh1)" "kept (length ds) k answer sh1"
    using kept_step [of "length ds" k answer sh hl put event now] Cons.prems by auto
  with Cons.IH show ?case by (auto simp: d)
qed simp

section \<open>An instance\<close>

text \<open>The request of the wire example, at a provider whose only proving slot is taken.\<close>

definition example_handler :: handler_lib where
  "example_handler =
     \<lparr>hl_wire = example_lib\<lparr>json_to_string :=
        (\<lambda>j. if j = ser_JobRequestContent example_content then Some example_text else Some ''{}'')\<rparr>,
      hl_urls = example_urls, hl_prove = example_engine,
      hl_sign = (\<lambda>kind content tags.
        Some (example_event\<lparr>ev_kind := kind, ev_content := content, ev_tags := tags\<rparr>))\<rparr>"

definition busy_shared :: "(string \<rightharpoonup> bytes) shared" where
  "busy_shared =
     \<lparr>dedupe = \<lparr>capacity = 2, state = \<lparr>ids = {}, order = []\<rparr>\<rparr>, completed = CompletedResults_new 2,
      processor = \<lparr>public_base_url = example_url, proving_slots = 0\<rparr>, store = Map.empty\<rparr>"

lemma busy_shared_new:
  "SignedJobHandler_new 2 \<lparr>public_base_url = example_url, proving_slots = 0\<rparr> Map.empty = Inr busy_shared"
  by (simp add: SignedJobHandler_new_def RequestDeduplicator_new_def busy_shared_def)

lemma example_handler_parses:
  "parse_request_event (hl_wire example_handler) example_event 1001 = Inr example_request"
proof -
  have "parse_request_event (hl_wire example_handler) example_event 1001 =
      parse_request_event example_lib example_event 1001"
    by (simp add: example_handler_def parse_request_event_def request_tags_def canonical_json_def
        example_lib_def example_event_def cong: if_cong)
  then show ?thesis by (simp add: example_accepted)
qed

lemma example_handler_signs: "\<exists>ev. sign_result example_handler example_request r = Inr ev"
proof -
  have "length example_text \<le> MAX_RESULT_BYTES" and "length ''{}'' \<le> MAX_RESULT_BYTES"
    by (simp_all add: example_text_def MAX_RESULT_BYTES_def)
  then obtain content where "json_to_string (hl_wire example_handler) (ser_JobResultContent r) = Some content"
    and "length content \<le> MAX_RESULT_BYTES"
    by (cases "ser_JobResultContent r = ser_JobRequestContent example_content") (auto simp: example_handler_def)
  moreover have "into_nostr_tags (hl_wire example_handler) tags = Inr tags" for tags
    using collect_results_map_Inr [of tags Inr "\<lambda>x. x"]
    by (simp add: into_nostr_tags_def example_handler_def example_lib_def)
  ultimately show ?thesis
    by (simp add: sign_result_def) (simp add: example_handler_def)
qed

text \<open>One delivery alone at the provider, step by step to its busy answer.\<close>

abbreviation lone :: "task \<Rightarrow> 's shared \<Rightarrow> 's provider" where
  "lone t sh \<equiv> \<lparr>pr_shared = sh, pr_slots = 63, pr_tasks = [(t, True)], pr_sent = []\<rparr>"

lemma lone_step:
  assumes "(handler_step hl put)\<^sup>*\<^sup>* p (lone t sh)" and "task_step (hl f) (put f) t sh = Some (t', sh')"
  shows "(handler_step hl put)\<^sup>*\<^sup>* p (lone t' sh')"
proof -
  have "handler_step hl put (lone t sh) (lone t' sh')"
    using advanced [of 0 "lone t sh" t hl f put t' sh'] assms(2) by simp
  with assms(1) show ?thesis by simp
qed

lemma lone_start: "(handler_step hl put)\<^sup>*\<^sup>* (provider_start sh) (lone (T_Received event now) sh)"
proof -
  have "handler_step hl put (provider_start sh) (lone (T_Received event now) sh)"
    using notified [of "provider_start sh" hl put event now]
    by (simp add: provider_start_def MAX_INFLIGHT_EVENTS_def)
  then show ?thesis by simp
qed

lemma lone_answer:
  "\<exists>ev sh. (handler_step (\<lambda>_ :: unit. example_handler) (\<lambda>_. memory_put zero_hash))\<^sup>*\<^sup>* (provider_start busy_shared)
     (lone (T_Done (Some example_request) True (Inr (Some ev))) sh)"
proof -
  let ?R = "handler_step (\<lambda>_ :: unit. example_handler) (\<lambda>_. memory_put zero_hash)"
  let ?d = "\<lparr>capacity = 2, state = \<lparr>ids = {jr_id example_request}, order = [jr_id example_request]\<rparr>\<rparr>"
  let ?sh = "busy_shared\<lparr>dedupe := ?d\<rparr>"
  obtain ev where ev: "sign_result example_handler example_request (error_content example_request P_Busy) = Inr ev"
    using example_handler_signs by blast
  have "?R\<^sup>*\<^sup>* (provider_start busy_shared) (lone (T_Lookup example_request) busy_shared)"
    by (rule lone_step [OF lone_start [where event = example_event and now = 1001]])
      (simp add: example_handler_parses)
  then have "?R\<^sup>*\<^sup>* (provider_start busy_shared) (lone (T_Claim example_request) busy_shared)"
    by (rule lone_step) (simp add: completed_result_def busy_shared_def CompletedResults_new_def)
  then have "?R\<^sup>*\<^sup>* (provider_start busy_shared) (lone (T_Acquire example_request) ?sh)"
    by (rule lone_step) (simp add: claim_def evict.simps busy_shared_def)
  then have "?R\<^sup>*\<^sup>* (provider_start busy_shared)
      (lone (T_Sign example_request (error_content example_request P_Busy)) ?sh)"
    by (rule lone_step) (simp add: acquire_slot_def busy_shared_def)
  then have "?R\<^sup>*\<^sup>* (provider_start busy_shared) (lone (T_Remember example_request ev) ?sh)"
    by (rule lone_step) (simp add: ev)
  moreover obtain sh where "remember_result ?sh (jr_id example_request) ev = Some sh"
    by (simp add: remember_result_def CompletedResults_insert_def busy_shared_def CompletedResults_new_def
        evict_completed.simps)
  ultimately have "?R\<^sup>*\<^sup>* (provider_start busy_shared)
      (lone (T_Done (Some example_request) True (Inr (Some ev))) sh)"
    by (elim lone_step) simp
  then show ?thesis by blast
qed

text \<open>The answer of a delivery is kept for the deliveries that follow.\<close>

lemma answer_kept:
  assumes "handler_ok sh" and "parse_request_event (hl_wire hl) event now = Inr request"
    and "completed_result sh (jr_id request) = None" and "jr_id request \<notin> set (window (dedupe sh))"
  shows "\<exists>out sh1. handle_event hl put event now sh = Some (out, sh1) \<and> out \<noteq> Inr None \<and>
    (\<forall>later. length later < min (capacity (dedupe sh)) (cr_capacity (completed sh)) \<longrightarrow>
       (\<exists>sh2. deliver_all later sh1 = Some sh2 \<and>
          kept 0 (jr_id request) (case out of Inr (Some ev) \<Rightarrow> Some ev | _ \<Rightarrow> None) sh2))"
proof -
  have none: "cr_events (completed sh) (jr_id request) = None"
    using assms(3) by (simp add: completed_result_def)
  obtain out sh1 where run: "handle_event hl put event now sh = Some (out, sh1)" "out \<noteq> Inr None" "handler_ok sh1"
    and w: "capacity (dedupe sh1) = capacity (dedupe sh)"
      "window (dedupe sh1) = newest (capacity (dedupe sh)) (window (dedupe sh) @ [jr_id request])"
      "cr_capacity (completed sh1) = cr_capacity (completed sh)"
    and c: "case out of
      Inr (Some ev) \<Rightarrow> cr_events (completed sh1) (jr_id request) = Some ev \<and>
        cr_order (completed sh1) = newest (cr_capacity (completed sh)) (cr_order (completed sh) @ [jr_id request]) \<and>
        (\<forall>j \<in> set (cr_order (completed sh1)). j \<noteq> jr_id request \<longrightarrow> cr_events (completed sh1) j = cr_events (completed sh) j)
    | _ \<Rightarrow> completed sh1 = completed sh"
    by (rule handle_event_new [OF assms(1,2) none assms(4)])
  have "kept n (jr_id request) (case out of Inr (Some ev) \<Rightarrow> Some ev | _ \<Rightarrow> None) sh1"
    if "n < min (capacity (dedupe sh)) (cr_capacity (completed sh))" for n
    using that run(2,3) w c none queued_last [of n _ "jr_id request"]
    by (auto simp: kept_def split: sum.splits option.splits)
  with run(1,2) kept_deliveries show ?thesis by blast
qed

section \<open>Properties\<close>

text \<open>C21: the first answer to a request id is final as long as it can be remembered. The first
  accepted delivery of an id to a well-formed handler returns an event or an error. After
  it, and after any further deliveries, of any events and to any engine, signer and store,
  fewer in number than the ids that both the window and the cache hold, every delivery of
  the id again is answered by that same event, whatever it was, a busy error included, with
  slots now free; if the first delivery ended in an error, it is answered by no event and no
  error; and it changes nothing. (Past that number the id may have been evicted, and is then
  served anew.)\<close>

theorem answer_is_final:
  assumes "handler_ok sh" and "parse_request_event (hl_wire hl) event now = Inr request"
    and "completed_result sh (jr_id request) = None" and "jr_id request \<notin> set (window (dedupe sh))"
  shows "\<exists>out sh1. handle_event hl put event now sh = Some (out, sh1) \<and> out \<noteq> Inr None \<and>
    (\<forall>later. length later < min (capacity (dedupe sh)) (cr_capacity (completed sh)) \<longrightarrow>
      (\<exists>sh2. deliver_all later sh1 = Some sh2 \<and>
        (\<forall>hl' put' event' now' request' p s.
           parse_request_event (hl_wire hl') event' now' = Inr request' \<longrightarrow> jr_id request' = jr_id request \<longrightarrow>
           handle_event hl' put' event' now' (sh2\<lparr>processor := p, store := s\<rparr>) =
             Some (Inr (case out of Inr (Some ev) \<Rightarrow> Some ev | _ \<Rightarrow> None), sh2\<lparr>processor := p, store := s\<rparr>))))"
proof -
  obtain out sh1 where run: "handle_event hl put event now sh = Some (out, sh1)" "out \<noteq> Inr None"
    and later: "\<And>later. length later < min (capacity (dedupe sh)) (cr_capacity (completed sh)) \<Longrightarrow>
       \<exists>sh2. deliver_all later sh1 = Some sh2 \<and>
          kept 0 (jr_id request) (case out of Inr (Some ev) \<Rightarrow> Some ev | _ \<Rightarrow> None) sh2"
    using answer_kept [OF assms, of put] by blast
  have "\<exists>sh2. deliver_all later sh1 = Some sh2 \<and>
      (\<forall>hl' put' event' now' request' p s.
         parse_request_event (hl_wire hl') event' now' = Inr request' \<longrightarrow> jr_id request' = jr_id request \<longrightarrow>
         handle_event hl' put' event' now' (sh2\<lparr>processor := p, store := s\<rparr>) =
           Some (Inr (case out of Inr (Some ev) \<Rightarrow> Some ev | _ \<Rightarrow> None), sh2\<lparr>processor := p, store := s\<rparr>))"
    if "length later < min (capacity (dedupe sh)) (cr_capacity (completed sh))" for later
    using later [OF that] kept_answers by metis
  with run show ?thesis by blast
qed

theorem answer_is_final_witness:
  "\<exists>ev sh1 sh2. handle_event example_handler (memory_put zero_hash) example_event 1001 busy_shared =
       Some (Inr (Some ev), sh1) \<and>
     deliver_all [(example_handler, memory_put zero_hash, example_event, 1001)] sh1 = Some sh2 \<and>
     handle_event example_handler (memory_put zero_hash) example_event 1001
       (sh2\<lparr>processor := example_processor, store := Map.empty\<rparr>) =
       Some (Inr (Some ev), sh2\<lparr>processor := example_processor, store := Map.empty\<rparr>)"
proof -
  let ?again = "[(example_handler, memory_put zero_hash, example_event, 1001)]"
  have fresh: "completed_result busy_shared (jr_id example_request) = None"
    "jr_id example_request \<notin> set (window (dedupe busy_shared))"
    and room: "length ?again < min (capacity (dedupe busy_shared)) (cr_capacity (completed busy_shared))"
    by (simp_all add: completed_result_def busy_shared_def CompletedResults_new_def)
  obtain out sh1 where first: "handle_event example_handler (memory_put zero_hash) example_event 1001 busy_shared =
      Some (out, sh1)"
    and all: "\<And>later. length later < min (capacity (dedupe busy_shared)) (cr_capacity (completed busy_shared)) \<Longrightarrow>
      \<exists>sh2. deliver_all later sh1 = Some sh2 \<and>
        (\<forall>hl' put' event' now' request' p s.
           parse_request_event (hl_wire hl') event' now' = Inr request' \<longrightarrow> jr_id request' = jr_id example_request \<longrightarrow>
           handle_event hl' put' event' now' (sh2\<lparr>processor := p, store := s\<rparr>) =
             Some (Inr (case out of Inr (Some ev) \<Rightarrow> Some ev | _ \<Rightarrow> None), sh2\<lparr>processor := p, store := s\<rparr>))"
    using answer_is_final [OF SignedJobHandler_new_ok [OF busy_shared_new] example_handler_parses fresh,
        of "memory_put zero_hash"] by (elim exE conjE) (rule that, assumption, blast)
  obtain sh2 where later: "deliver_all ?again sh1 = Some sh2"
    and again: "\<And>p s. handle_event example_handler (memory_put zero_hash) example_event 1001
        (sh2\<lparr>processor := p, store := s\<rparr>) =
      Some (Inr (case out of Inr (Some ev) \<Rightarrow> Some ev | _ \<Rightarrow> None), sh2\<lparr>processor := p, store := s\<rparr>)"
    using all [OF room] example_handler_parses by blast
  obtain ev where "sign_result example_handler example_request (error_content example_request P_Busy) = Inr ev"
    using example_handler_signs by blast
  then have "out = Inr (Some ev)"
    using first
    by (auto simp: handle_event_def example_handler_parses completed_result_def busy_shared_def
        CompletedResults_new_def claim_def evict.simps process_def acquire_slot_def Let_def)
  with first later again [of Map.empty example_processor] show ?thesis by auto
qed

text \<open>C9: concurrent deliveries share the provider safely. In every state reachable from a
  new provider, however the phases of the deliveries interleave and whatever the engine, the
  signer and the store do in each: the dispatch slots held and free add up to 64, the
  proving slots held and free to the configured number, and while no more ids have been
  claimed than are remembered, no request id is claimed by two deliveries (so it is proved at
  most once), and all answers to one id are the same event.\<close>

theorem concurrent_deliveries_safe:
  assumes "SignedJobHandler_new cap proc s = Inr sh"
    and "(handler_step hl put)\<^sup>*\<^sup>* (provider_start sh) p"
  shows "pr_slots p + held_slots p = 64 \<and>
    proving_slots (processor (pr_shared p)) + proving_tasks p = proving_slots proc \<and>
    (length (claimed_ids p) \<le> cap \<longrightarrow>
       distinct (claimed_ids p) \<and>
       (\<forall>r r' ev ev'. answered p r ev \<longrightarrow> answered p r' ev' \<longrightarrow> jr_id r = jr_id r' \<longrightarrow> ev = ev'))"
proof -
  have "provider_ok cap (proving_slots proc) (provider_start sh)"
    using assms(1) by (rule provider_start_ok)
  from handler_steps_ok [OF assms(2) this]
  have ok: "pr_slots p + held_slots p = 64 \<and>
      proving_slots (processor (pr_shared p)) + proving_tasks p = proving_slots proc"
    and claims: "length (claimed_ids p) \<le> cap \<Longrightarrow> claims_ok cap p"
    by (simp_all add: provider_ok_def MAX_INFLIGHT_EVENTS_def)
  have "distinct (claimed_ids p) \<and>
      (\<forall>r r' ev ev'. answered p r ev \<longrightarrow> answered p r' ev' \<longrightarrow> jr_id r = jr_id r' \<longrightarrow> ev = ev')"
    if "length (claimed_ids p) \<le> cap"
    using claims [OF that] unfolding claims_ok_def Let_def by (metis option.inject)
  with ok show ?thesis by blast
qed

theorem concurrent_deliveries_safe_witness:
  "\<exists>ev p. (handler_step (\<lambda>_ :: unit. example_handler) (\<lambda>_. memory_put zero_hash))\<^sup>*\<^sup>*
       (provider_start busy_shared) p \<and>
     answered p example_request ev \<and> claimed_ids p = [jr_id example_request] \<and>
     (\<forall>r' ev'. answered p r' ev' \<longrightarrow> jr_id r' = jr_id example_request \<longrightarrow> ev' = ev)"
proof -
  obtain ev sh where run: "(handler_step (\<lambda>_ :: unit. example_handler) (\<lambda>_. memory_put zero_hash))\<^sup>*\<^sup>*
      (provider_start busy_shared) (lone (T_Done (Some example_request) True (Inr (Some ev))) sh)"
    using lone_answer by blast
  let ?p = "lone (T_Done (Some example_request) True (Inr (Some ev))) sh"
  have "answered ?p example_request ev" and "claimed_ids ?p = [jr_id example_request]"
    by (auto simp: answered_def claimed_ids_def)
  with concurrent_deliveries_safe [OF busy_shared_new run] run show ?thesis
    by (intro exI [of _ ev] exI [of _ ?p]) auto
qed

end
