(* ===== verification/Exchange.thy ===== *)
theory Exchange
  imports Handler
begin

text \<open>
  Both ends of an exchange together: what \<open>handle_event\<close> of the provider signs, against
  what \<open>parse_result_event\<close> of the client accepts. The laws of the codecs of the \<open>nostr\<close>
  and \<open>serde_json\<close> crates that this needs are hypotheses of the theorem.
\<close>

section \<open>What the provider signs\<close>

text \<open>The content of the answer to a request that is processed now.\<close>

definition job_answer ::
  "handler_lib \<Rightarrow> ('s \<Rightarrow> bytes \<Rightarrow> (ArtifactError, StoredArtifact) result \<times> 's) \<Rightarrow>
   's shared \<Rightarrow> JobRequest \<Rightarrow> JobResultContent" where
  "job_answer hl put sh request =
     (case fst (process (hl_urls hl) (hl_prove hl) put (processor sh) (store sh) request) of
        Inr r \<Rightarrow> r
      | Inl e \<Rightarrow> error_content request e)"

lemma handle_event_signs:
  assumes "parse_request_event (hl_wire hl) event t = Inr request"
    and "completed_result sh (jr_id request) = None"
    and "handle_event hl put event t sh = Some (Inr (Some ev), sh')"
  shows "sign_result hl request (job_answer hl put sh request) = Inr ev"
proof -
  obtain outcome p s where run: "process (hl_urls hl) (hl_prove hl) put (processor sh) (store sh) request = (outcome, p, s)"
    using prod_cases3 by blast
  from assms show ?thesis
    by (auto simp: handle_event_def job_answer_def run Let_def split: option.splits bool.splits sum.splits)
qed

text \<open>The answer is a valid result for the request.\<close>

lemma job_answer_ok:
  assumes "is_lower_hex (jr_id request) 64" and "JobInput_service (jr_input request) = jr_service request"
  shows "result_valid (ul_parse (hl_urls hl)) (job_answer hl put sh request)"
    and "JobResultContent_request_id (job_answer hl put sh request) = jr_id request"
    and "case job_answer hl put sh request of
        Success _ _ statement _ _ \<Rightarrow> st_service statement = jr_service request | Error _ _ _ \<Rightarrow> True"
proof -
  obtain outcome p s where run: "process (hl_urls hl) (hl_prove hl) put (processor sh) (store sh) request = (outcome, p, s)"
    using prod_cases3 by blast
  have "result_valid (ul_parse (hl_urls hl)) (job_answer hl put sh request) \<and>
    JobResultContent_request_id (job_answer hl put sh request) = jr_id request \<and>
    (case job_answer hl put sh request of
        Success _ _ statement _ _ \<Rightarrow> st_service statement = jr_service request | Error _ _ _ \<Rightarrow> True)"
  proof (cases outcome)
    case (Inl e)
    then have "job_answer hl put sh request = error_content request e"
      by (simp add: job_answer_def run)
    then show ?thesis
      using error_result_valid [OF assms(1)]
      by (simp add: error_content_def JobResultContent_error_def JobResultContent_request_id_def)
  next
    case (Inr r)
    then have r: "job_answer hl put sh request = r"
      by (simp add: job_answer_def run)
    obtain artifact stored where "statement_matches_request (va_statement artifact) (jr_input request)"
      "describe_result (hl_urls hl) (public_base_url (processor sh)) request artifact stored = Inr r"
      using process_eq_Inr [OF run [unfolded Inr]] by blast
    then show ?thesis
      using assms(2) unfolding r
      by (auto simp: describe_result_eq_Inr statement_matches_iff JobResultContent_request_id_def)
  qed
  then show "result_valid (ul_parse (hl_urls hl)) (job_answer hl put sh request)"
    and "JobResultContent_request_id (job_answer hl put sh request) = jr_id request"
    and "case job_answer hl put sh request of
        Success _ _ statement _ _ \<Rightarrow> st_service statement = jr_service request | Error _ _ _ \<Rightarrow> True"
    by blast+
qed

text \<open>The field elements of a result, which the Rust type keeps canonical.\<close>

definition result_felts :: "JobResultContent \<Rightarrow> FeltHex list" where
  "result_felts r =
     (case r of
        Success _ _ statement d _ \<Rightarrow>
          st_public_input statement @ st_public_output statement @
          (case st_output statement of OutFibonacci f \<Rightarrow> [f] | _ \<Rightarrow> []) @ [pd_program_hash d]
      | Error _ _ _ \<Rightarrow> [])"

lemma described_felts_ok:
  assumes "describe_result ul base request a stored = Inr r" and "artifact_typed a"
  shows "list_all felt_ok (result_felts r)"
proof -
  obtain d where r: "r = Success SOUL_WIRE_PROTOCOL (jr_id request) (va_statement a) d (va_metrics a)"
    and hash: "pd_program_hash d = va_program_hash a"
    using assms(1) by (force simp: describe_result_eq_Inr)
  have "list_all felt_ok (case st_output (va_statement a) of OutFibonacci f \<Rightarrow> [f] | _ \<Rightarrow> [])"
    using assms(2)
    by (cases "st_output (va_statement a)") (auto simp: artifact_typed_def statement_felts_ok_def statement_valid_def)
  then show ?thesis
    using assms(2) by (simp add: r hash result_felts_def artifact_typed_def statement_felts_ok_def)
qed

lemma job_answer_felts_ok:
  assumes "\<And>input a. hl_prove hl input = Returned (Inr a) \<Longrightarrow> artifact_typed a"
  shows "list_all felt_ok (result_felts (job_answer hl put sh request))"
proof -
  obtain outcome p s where run: "process (hl_urls hl) (hl_prove hl) put (processor sh) (store sh) request = (outcome, p, s)"
    using prod_cases3 by blast
  show ?thesis
  proof (cases outcome)
    case (Inl e)
    then show ?thesis
      by (simp add: job_answer_def run error_content_def JobResultContent_error_def result_felts_def)
  next
    case (Inr r)
    from process_eq_Inr [OF run [unfolded Inr]] assms described_felts_ok Inr show ?thesis
      by (auto simp: job_answer_def run)
  qed
qed

lemma accepted_request_id:
  assumes "parse_request_event lib event t = Inr request"
  shows "jr_id request = ev_id event" "event_verify lib event"
    "event_try_as_json lib event = Some (jr_serialized_event request)"
    "JobInput_service (jr_input request) = jr_service request"
proof -
  from assms obtain c bid serialized where "accepted_request lib event t c bid serialized"
    and "request = request_of event c bid serialized"
    by (rule parse_request_event_sound)
  then show "jr_id request = ev_id event" "event_verify lib event"
    "event_try_as_json lib event = Some (jr_serialized_event request)"
    "JobInput_service (jr_input request) = jr_service request"
    by (auto simp: accepted_request_def request_of_def content_valid_def)
qed

lemma sign_result_eq_Inr:
  "sign_result hl request r = Inr ev \<longleftrightarrow>
     (\<exists>content tags. json_to_string (hl_wire hl) (ser_JobResultContent r) = Some content \<and>
        length content \<le> MAX_RESULT_BYTES \<and> into_nostr_tags (hl_wire hl) (result_tags request r) = Inr tags \<and>
        hl_sign hl (result_kind (jr_service request)) content tags = Some ev)"
  by (auto simp: sign_result_def and_then_eq_Inr not_less split: if_splits)

lemma into_nostr_tags_id:
  assumes "\<And>tag. tag \<noteq> [] \<Longrightarrow> tag_parse lib tag = Some tag"
  shows "into_nostr_tags lib (result_tags request r) = Inr (result_tags request r)"
  by (simp add: into_nostr_tags_def result_tags_def assms)

lemma parse_result_event_late:
  assumes "event_verify lib event" and "ev_kind event = result_kind (jr_service request)"
    and "length (ev_content event) \<le> MAX_RESULT_BYTES" and "\<not> result_window event request now"
  shows "parse_result_event lib event request now = Inl InvalidTimestamp"
proof -
  have "ev_created_at event < jr_created_at request \<or>
      ev_created_at event > saturating_add now MAX_FUTURE_SKEW_SECS"
    using result_window_guard [of event request now] assms(4) by blast
  with assms(1-3) show ?thesis
    by (simp add: parse_result_event_def Let_def not_less)
qed

section \<open>The codecs of both ends\<close>

text \<open>
  The documented behaviour of the \<open>nostr\<close> and \<open>serde_json\<close> crates that an exchange rests on:
  the id of a verified event is its printed digest, an event and a valid result are read
  back from their own text, a tag is read back from its values, and an event equals itself.
\<close>

locale wire_codecs =
  fixes lib :: wire_lib
  assumes verified_id: "event_verify lib e \<Longrightarrow> is_lower_hex (ev_id e) 64"
    and event_text: "event_try_as_json lib e = Some text \<Longrightarrow> event_verify lib e \<Longrightarrow>
      event_from_json lib text = Some e \<and> (\<exists>object. value_from_str lib text = Some (JObj object) \<and>
        length object = 7 \<and> set (map fst object) = set EVENT_KEYS \<and> event_from_object lib object = Some e)"
    and result_text: "json_to_string lib (ser_JobResultContent r) = Some text \<Longrightarrow>
      result_valid (url_parse lib) r \<Longrightarrow> list_all felt_ok (result_felts r) \<Longrightarrow> result_from_str lib text = Some r"
    and tag_values: "tag \<noteq> [] \<Longrightarrow> tag_parse lib tag = Some tag"
    and event_eq_refl: "event_eq lib e e"
begin

lemma tags_kept:
  assumes "[] \<notin> set tags"
  shows "into_nostr_tags lib tags = Inr tags"
proof -
  have "collect_results (map (\<lambda>tag. ok_or InvalidTag (tag_parse lib tag)) tags) = Inr (map (\<lambda>x. x) tags)"
  proof (rule collect_results_map_Inr)
    fix tag assume "tag \<in> set tags"
    with assms have "tag \<noteq> []" by auto
    then show "ok_or InvalidTag (tag_parse lib tag) = Inr tag"
      using tag_values by simp
  qed
  then show ?thesis
    by (simp add: into_nostr_tags_def)
qed

lemma result_tags_kept: "into_nostr_tags lib (result_tags request r) = Inr (result_tags request r)"
  by (rule into_nostr_tags_id [OF tag_values])

text \<open>The client reads a signed result back, exactly when the clocks agree.\<close>

lemma signed_result_accepted:
  assumes request: "parse_request_event lib event t = Inr request"
    and printed: "json_to_string lib (ser_JobResultContent r) = Some (ev_content ev)"
      "length (ev_content ev) \<le> MAX_RESULT_BYTES"
    and result: "result_valid (url_parse lib) r" "list_all felt_ok (result_felts r)"
      "JobResultContent_request_id r = jr_id request"
      "case r of Success _ _ statement _ _ \<Rightarrow> st_service statement = jr_service request | Error _ _ _ \<Rightarrow> True"
    and ev: "event_verify lib ev" "ev_kind ev = result_kind (jr_service request)" "ev_tags ev = result_tags request r"
  shows "parse_result_event lib ev request now =
    (if unat (jr_created_at request) \<le> unat (ev_created_at ev) \<and> unat (ev_created_at ev) \<le> unat now + 300
     then Inr r else Inl InvalidTimestamp)"
proof -
  note req = accepted_request_id [OF request]
  obtain object where original: "event_from_json lib (jr_serialized_event request) = Some event"
    and "value_from_str lib (jr_serialized_event request) = Some (JObj object)" "length object = 7"
      "set (map fst object) = set EVENT_KEYS" "event_from_object lib object = Some event"
    using event_text [OF req(3,2)] by blast
  then have "parse_embedded_request_event lib (jr_serialized_event request) = Inr event"
    using req(2) by (auto simp: parse_embedded_request_event_Inr)
  then have "accepted_result lib ev request now r (jr_serialized_event request) event event"
    if "result_window ev request now"
    using that ev printed result original req(2) result_text [OF printed(1) result(1,2)] event_eq_refl
    by (simp add: accepted_result_def result_tags_def)
  then show ?thesis
    using parse_result_event_complete parse_result_event_late [OF ev(1,2) printed(2)]
    by (auto simp: result_window_def word_le_nat_alt)
qed

text \<open>In particular what \<open>sign_result\<close> signs.\<close>

lemma signed_answer_accepted:
  assumes "parse_request_event lib event t = Inr request"
    and "hl_wire hl = lib" and "sign_result hl request r = Inr ev"
    and "\<And>kind content tags e. hl_sign hl kind content tags = Some e \<Longrightarrow>
      event_verify lib e \<and> ev_kind e = kind \<and> ev_content e = content \<and> ev_tags e = tags"
    and "result_valid (url_parse lib) r" and "list_all felt_ok (result_felts r)"
    and "JobResultContent_request_id r = jr_id request"
    and "case r of Success _ _ statement _ _ \<Rightarrow> st_service statement = jr_service request | Error _ _ _ \<Rightarrow> True"
  shows "parse_result_event lib ev request now =
    (if unat (jr_created_at request) \<le> unat (ev_created_at ev) \<and> unat (ev_created_at ev) \<le> unat now + 300
     then Inr r else Inl InvalidTimestamp)"
proof -
  from assms(3) obtain content where "json_to_string lib (ser_JobResultContent r) = Some content"
    "length content \<le> MAX_RESULT_BYTES"
    and signed: "hl_sign hl (result_kind (jr_service request)) content (result_tags request r) = Some ev"
    using result_tags_kept by (auto simp: sign_result_eq_Inr assms(2))
  then show ?thesis
    using signed_result_accepted [OF assms(1) _ _ assms(5-8)] assms(4) [OF signed] by simp
qed

end

text \<open>The answer of the handler, read by the client.\<close>

lemma provider_answer_accepted:
  assumes "wire_codecs (hl_wire hl)"
    and "parse_request_event (hl_wire hl) event t = Inr request"
    and "completed_result sh (jr_id request) = None"
    and "handle_event hl put event t sh = Some (Inr (Some ev), sh')"
    and "\<And>input a. hl_prove hl input = Returned (Inr a) \<Longrightarrow> artifact_typed a"
    and "\<And>kind content tags e. hl_sign hl kind content tags = Some e \<Longrightarrow>
      event_verify (hl_wire hl) e \<and> ev_kind e = kind \<and> ev_content e = content \<and> ev_tags e = tags"
    and "ul_parse (hl_urls hl) = url_parse (hl_wire hl)"
  shows "parse_result_event (hl_wire hl) ev request now =
    (if unat (jr_created_at request) \<le> unat (ev_created_at ev) \<and> unat (ev_created_at ev) \<le> unat now + 300
     then Inr (job_answer hl put sh request) else Inl InvalidTimestamp)"
proof -
  note req = accepted_request_id [OF assms(2)]
  have hex: "is_lower_hex (jr_id request) 64"
    using wire_codecs.verified_id [OF assms(1)] req(1,2) by simp
  note answer = job_answer_ok [OF hex req(4), of hl put sh, unfolded assms(7)]
  have felts: "list_all felt_ok (result_felts (job_answer hl put sh request))"
    by (rule job_answer_felts_ok) (rule assms(5))
  show ?thesis
    by (rule wire_codecs.signed_answer_accepted [OF assms(1,2) refl handle_event_signs [OF assms(2-4)]])
      (fact assms(6) answer felts)+
qed

section \<open>An instance\<close>

text \<open>The busy provider, with codecs that know one request, dated \<open>created\<close>, and one result.\<close>

definition busy_answer :: JobResultContent where
  "busy_answer = error_content example_request P_Busy"

definition exchange_event :: "u64 \<Rightarrow> u64 option \<Rightarrow> Event" where
  "exchange_event created bid = example_event
     \<lparr>ev_created_at := created,
      ev_tags := [[''i'', example_text, ''text''], [''protocol'', ''soul-society/1''],
                  [''service'', ''fibonacci''], [''t'', ''soul-society''], [''expiration'', u64_to_string 2000]]
        @ (case bid of None \<Rightarrow> [] | Some b \<Rightarrow> [[''bid'', u64_to_string b]])\<rparr>"

definition exchange_request :: "u64 \<Rightarrow> u64 option \<Rightarrow> JobRequest" where
  "exchange_request created bid = request_of (exchange_event created bid) example_content bid ''{}''"

definition exchange_handler :: "u64 \<Rightarrow> u64 option \<Rightarrow> handler_lib" where
  "exchange_handler created bid =
     \<lparr>hl_wire = example_lib
        \<lparr>event_verify := (\<lambda>e. is_lower_hex (ev_id e) 64),
         event_try_as_json := (\<lambda>e. if e = exchange_event created bid then Some ''{}'' else None),
         event_from_json := (\<lambda>_. Some (exchange_event created bid)),
         event_from_object := (\<lambda>_. Some (exchange_event created bid)),
         json_to_string := (\<lambda>j. if j = ser_JobRequestContent example_content then Some example_text
           else if j = ser_JobResultContent busy_answer then Some ''{}'' else None),
         result_from_str := (\<lambda>s. if s = ''{}'' then Some busy_answer else None)\<rparr>,
      hl_urls = example_urls, hl_prove = example_engine,
      hl_sign = (\<lambda>kind content tags.
        Some ((exchange_event created bid)\<lparr>ev_kind := kind, ev_content := content, ev_tags := tags\<rparr>))\<rparr>"

lemma exchange_event_fields [simp]:
  "ev_id (exchange_event created bid) = replicate 64 CHR ''a''"
  "ev_pubkey (exchange_event created bid) = replicate 64 CHR ''b''"
  "ev_created_at (exchange_event created bid) = created"
  "ev_kind (exchange_event created bid) = 5601"
  "ev_content (exchange_event created bid) = example_text"
  by (simp_all add: exchange_event_def example_event_def)

lemma exchange_id_hex: "is_lower_hex (replicate 64 CHR ''a'') 64"
  by (simp add: is_lower_hex_def list_all_replicate lower_hex_byte_def)

lemma exchange_content:
  "rc_service example_content = Fibonacci" "rc_expires_at example_content = Some 2000"
  "rc_protocol example_content = SOUL_WIRE_PROTOCOL" "rc_input example_content = InFibonacci 10"
  by (simp_all add: example_content_def JobRequestContent_new_def JobInput_service_def)

lemma exchange_json: "canonical_json (hl_wire (exchange_handler created bid)) example_content = Some example_text"
  by (simp add: canonical_json_def exchange_handler_def)

lemma exchange_tags:
  "\<forall>b. bid = Some b \<longrightarrow> b \<le> MAX_SAFE_INTEGER \<Longrightarrow>
     request_tags (hl_wire (exchange_handler created bid)) example_content bid = Inr (ev_tags (exchange_event created bid))"
  by (simp add: request_tags_eq [OF exchange_json] exchange_content exchange_event_def constants INPUT_TYPE_def
      TOPIC_def ServiceType_as_str_def not_less split: option.split)

lemma exchange_accepted:
  assumes "content_valid example_content (unat created) (unat now)" and "unat created \<le> unat now + 300"
    and "unat now \<le> unat created + 600" and "\<forall>b. bid = Some b \<longrightarrow> b \<le> MAX_SAFE_INTEGER"
  shows "parse_request_event (hl_wire (exchange_handler created bid)) (exchange_event created bid) now =
    Inr (exchange_request created bid)"
proof -
  have "accepted_request (hl_wire (exchange_handler created bid)) (exchange_event created bid) now example_content bid ''{}''"
    unfolding accepted_request_def
  proof (intro conjI)
    show "length (ev_content (exchange_event created bid)) \<le> MAX_REQUEST_BYTES"
      by (simp add: example_text_def MAX_REQUEST_BYTES_def)
  qed (use assms exchange_json exchange_tags in \<open>simp_all add: exchange_handler_def example_lib_def exchange_content
      request_window_def service_defs constants exchange_id_hex\<close>)
  then show ?thesis
    unfolding exchange_request_def by (rule parse_request_event_complete)
qed

lemma ser_result_not_request: "ser_JobResultContent r \<noteq> ser_JobRequestContent c"
  by (cases r) (auto simp: ser_JobResultContent_def ser_JobRequestContent_def)

lemma exchange_codecs: "wire_codecs (hl_wire (exchange_handler created bid))"
  by unfold_locales
    (auto simp: exchange_handler_def example_lib_def example_object_def EVENT_KEYS_def
      ser_result_not_request ser_inject example_urls_def split: if_splits)

interpretation exchange: wire_codecs "hl_wire (exchange_handler created bid)" for created bid
  by (rule exchange_codecs)

lemma exchange_engine_typed:
  "hl_prove (exchange_handler created bid) input = Returned (Inr a) \<Longrightarrow> artifact_typed a"
  using prove_job_inner_typed [OF example_prover_codec]
  by (auto simp: exchange_handler_def example_engine_def engine_prove_job_def prove_job_def)

lemma exchange_signs:
  "hl_sign (exchange_handler created bid) kind content tags = Some e \<Longrightarrow>
     event_verify (hl_wire (exchange_handler created bid)) e \<and> ev_kind e = kind \<and> ev_content e = content \<and> ev_tags e = tags"
  by (auto simp: exchange_handler_def exchange_id_hex)

lemma exchange_urls: "ul_parse (hl_urls (exchange_handler created bid)) = url_parse (hl_wire (exchange_handler created bid))"
  by (simp add: exchange_handler_def example_lib_def example_urls_def)

lemma busy_unanswered: "completed_result busy_shared k = None"
  by (simp add: completed_result_def busy_shared_def CompletedResults_new_def)

lemma exchange_request_fields [simp]:
  "jr_id (exchange_request created bid) = replicate 64 CHR ''a''"
  "jr_service (exchange_request created bid) = Fibonacci"
  "jr_created_at (exchange_request created bid) = created"
  by (simp_all add: exchange_request_def request_of_def exchange_content)

lemma exchange_busy:
  "job_answer (exchange_handler created bid) (memory_put zero_hash) busy_shared (exchange_request created bid) = busy_answer"
  by (simp add: job_answer_def process_def acquire_slot_def busy_shared_def busy_answer_def error_content_def
      example_request_def request_of_def example_event_def)

lemma exchange_handler_answers:
  assumes "parse_request_event (hl_wire (exchange_handler created bid)) (exchange_event created bid) now =
    Inr (exchange_request created bid)"
  obtains ev sh' where
    "handle_event (exchange_handler created bid) (memory_put zero_hash) (exchange_event created bid) now busy_shared =
       Some (Inr (Some ev), sh')"
    and "ev_created_at ev = created" and "ev_pubkey ev = replicate 64 CHR ''b''" and "ev_kind ev = result_kind Fibonacci"
    and "ev_content ev = ''{}''"
proof -
  let ?request = "exchange_request created bid"
  let ?ev = "(exchange_event created bid)\<lparr>ev_kind := result_kind Fibonacci, ev_content := ''{}'',
    ev_tags := result_tags ?request busy_answer\<rparr>"
  have content: "json_to_string (hl_wire (exchange_handler created bid)) (ser_JobResultContent busy_answer) = Some ''{}''"
    by (simp add: exchange_handler_def ser_result_not_request)
  have "hl_sign (exchange_handler created bid) (result_kind Fibonacci) ''{}'' (result_tags ?request busy_answer) = Some ?ev"
    by (simp add: exchange_handler_def)
  then have "sign_result (exchange_handler created bid) ?request busy_answer = Inr ?ev"
    using content exchange.result_tags_kept by (auto simp: sign_result_eq_Inr MAX_RESULT_BYTES_def)
  moreover have "error_content ?request P_Busy = busy_answer"
    by (simp add: busy_answer_def error_content_def example_request_def request_of_def example_event_def)
  ultimately have "\<exists>sh'. handle_event (exchange_handler created bid) (memory_put zero_hash) (exchange_event created bid) now
      busy_shared = Some (Inr (Some ?ev), sh')"
    using busy_unanswered
    by (auto simp: handle_event_def assms busy_shared_def claim_def evict.simps
        process_def acquire_slot_def remember_result_def CompletedResults_insert_def CompletedResults_new_def
        completed_result_def evict_completed.simps Let_def)
  then show thesis using that by force
qed

section \<open>Properties\<close>

text \<open>C12: what the provider publishes, the client accepts, if the clocks agree. Under the
  laws of the event and JSON codecs, and with an engine that returns what the Rust types
  allow, the event that \<open>handle_event\<close> signs for a new accepted request is read back by
  \<open>parse_result_event\<close> as the processor's result, or its sanitised error, exactly when it is
  not dated before the request nor more than five minutes ahead of the client; otherwise it
  is rejected with \<open>InvalidTimestamp\<close>. A request dated ahead of the provider's clock is
  accepted for up to five minutes, and an answer signed within that time is rejected.\<close>

theorem published_result_accepted:
  assumes "wire_codecs (hl_wire hl)"
    and "parse_request_event (hl_wire hl) event t = Inr request"
    and "completed_result sh (jr_id request) = None"
    and "handle_event hl put event t sh = Some (Inr (Some ev), sh')"
    and "\<And>input a. hl_prove hl input = Returned (Inr a) \<Longrightarrow> artifact_typed a"
    and "\<And>kind content tags e. hl_sign hl kind content tags = Some e \<Longrightarrow>
      event_verify (hl_wire hl) e \<and> ev_kind e = kind \<and> ev_content e = content \<and> ev_tags e = tags"
    and "ul_parse (hl_urls hl) = url_parse (hl_wire hl)"
  shows "parse_result_event (hl_wire hl) ev request now =
    (if unat (jr_created_at request) \<le> unat (ev_created_at ev) \<and> unat (ev_created_at ev) \<le> unat now + 300
     then Inr (job_answer hl put sh request) else Inl InvalidTimestamp)"
  by (rule provider_answer_accepted [OF assms(1-4)]) (fact assms)+

theorem published_result_accepted_witness:
  "\<exists>ev sh'. handle_event (exchange_handler 1000 None) (memory_put zero_hash) (exchange_event 1000 None) 1001 busy_shared =
       Some (Inr (Some ev), sh') \<and>
     parse_result_event (hl_wire (exchange_handler 1000 None)) ev (exchange_request 1000 None) 1002 = Inr busy_answer \<and>
     parse_result_event (hl_wire (exchange_handler 1000 None)) ev (exchange_request 1000 None) 500 = Inl InvalidTimestamp"
proof -
  let ?hl = "exchange_handler 1000 None" and ?request = "exchange_request 1000 None"
  have parsed: "parse_request_event (hl_wire ?hl) (exchange_event 1000 None) 1001 = Inr ?request"
    by (rule exchange_accepted) (simp_all add: content_valid_def exchange_content JobInput_service_def)
  obtain ev sh' where run: "handle_event ?hl (memory_put zero_hash) (exchange_event 1000 None) 1001 busy_shared =
      Some (Inr (Some ev), sh')" and created: "ev_created_at ev = 1000"
    using exchange_handler_answers [OF parsed] .
  have "parse_result_event (hl_wire ?hl) ev ?request now =
    (if unat (jr_created_at ?request) \<le> unat (ev_created_at ev) \<and> unat (ev_created_at ev) \<le> unat now + 300
     then Inr busy_answer else Inl InvalidTimestamp)" for now
    unfolding exchange_busy [of 1000 None, symmetric]
    by (rule published_result_accepted [OF exchange_codecs parsed busy_unanswered run exchange_engine_typed
        exchange_signs exchange_urls])
  from this [of 1002] this [of 500] run show ?thesis
    by (auto simp: created)
qed

text \<open>C18: published results are well typed: every field element in a result of the provider's
  own engine, in its statement, in the typed output and in the descriptor, is a canonical
  wire value: it is the one the parser of the wire accepts for its text, has 66 characters
  and is smaller than the field. \<open>FeltHex\<close> is a plain string in the model, so this is the
  invariant of the private field of the Rust type, carried through the verifier, the
  prover, the processor and the descriptor.\<close>

theorem published_felts_canonical:
  assumes "stwo_codec lib fe_val"
    and "process ul (\<lambda>input. Returned (engine_prove_job lib describe clock engine input)) put p s request =
      (Inr r, p', store')"
  shows "\<forall>f \<in> set (result_felts r).
    FeltHex_parse (as_str f) = Inr f \<and> length (as_str f) = 66 \<and> felt_val f < cairo_prime"
proof -
  obtain a stored where "engine_prove_job lib describe clock engine (jr_input request) = Inr a"
    and described: "describe_result ul (public_base_url p) request a stored = Inr r"
    using process_eq_Inr [OF assms(2)] by auto
  then have "artifact_typed a"
    using prove_job_inner_typed [OF assms(1)] by (auto simp: engine_prove_job_def prove_job_def)
  then have "felt_ok f" if "f \<in> set (result_felts r)" for f
    using described_felts_ok [OF described] that by (simp add: list_all_iff)
  then show ?thesis
    using FeltHex_parse_as_str length_as_str felt_val_less by blast
qed

theorem published_felts_canonical_witness:
  "\<exists>r store'. process example_urls example_engine (memory_put zero_hash) example_processor Map.empty
     example_job_request = (Inr r, example_processor, store') \<and>
     FeltHex_from_u64 55 \<in> set (result_felts r) \<and> length (as_str (FeltHex_from_u64 55)) = 66"
proof -
  obtain r store' where run: "process example_urls (\<lambda>input. example_engine input) (memory_put zero_hash)
      example_processor Map.empty example_job_request = (Inr r, example_processor, store')"
    using example_processed by blast
  note typed = published_felts_canonical [OF example_prover_codec run [unfolded example_engine_def]]
  have "FeltHex_from_u64 55 \<in> set (result_felts r)"
    using process_eq_Inr [OF run] example_engine_proves
    by (auto simp: example_job_request_def describe_result_eq_Inr result_felts_def example_statement_def)
  with typed run show ?thesis by blast
qed

end
