(* ===== verification/Fixtures.thy ===== *)
theory Fixtures
  imports FixtureTool Exchange
begin

text \<open>
  \<open>crates/soul-core/examples/generate_fixtures.rs\<close>: the generator of the protocol fixtures, a
  request event and a result event signed with two published test keys, with their contents,
  tags and the proof they refer to. The property is what the fixtures are for: a client
  reads the generated result event back against the generated request.
\<close>

section \<open>Definitions\<close>

definition TEST_ONLY_CUSTOMER_SECRET :: string where
  "TEST_ONLY_CUSTOMER_SECRET = replicate 63 CHR ''0'' @ ''1''"

definition TEST_ONLY_PROVIDER_SECRET :: string where
  "TEST_ONLY_PROVIDER_SECRET = replicate 63 CHR ''0'' @ ''2''"

definition CREATED_AT :: u64 where
  "CREATED_AT = 1900000000"

definition PROOF_FIXTURE :: bytes where
  "PROOF_FIXTURE = map of_char ''{\"proof\":\"test-only-fixture\"}''"

definition PROOF_SHA256 :: string where
  "PROOF_SHA256 = ''5d23ce867fb5c3e2f3346e090e5a7dd4f1d5e088735b9b968f0812c4f350504e''"

text \<open>The libraries of the generator: the wire codecs, \<open>Keys::parse\<close> as the public key of a
  secret, \<open>sign_with_ctx\<close> with a seeded generator, the pretty printer, and the disk.\<close>

record generator_lib =
  gl_wire :: wire_lib
  gl_public_key :: "string \<Rightarrow> string option"
  gl_sign_with_seed :: "string \<Rightarrow> u64 \<Rightarrow> u64 \<Rightarrow> u16 \<Rightarrow> string \<Rightarrow> string list list \<Rightarrow> Event option"
  gl_pretty :: "json \<Rightarrow> bytes option"
  gl_create_dir_all :: "string \<Rightarrow> bool"
  gl_faults :: "string \<Rightarrow> write_fault"

datatype GeneratorError =
    GE_Usage
  | GE_CreateDir
  | GE_Keys
  | GE_Encoding
  | GE_Wire WireError
  | GE_Signing
  | GE_Write FixtureError

definition output_directory :: "string list \<Rightarrow> (GeneratorError, string) result" where
  "output_directory arguments =
     (case arguments of
        [output] \<Rightarrow> Inr output
      | _ \<Rightarrow> Inl GE_Usage)"

definition sign_deterministically ::
  "generator_lib \<Rightarrow> u16 \<Rightarrow> string \<Rightarrow> string list list \<Rightarrow> u64 \<Rightarrow> string \<Rightarrow> u64 \<Rightarrow> (GeneratorError, Event) result" where
  "sign_deterministically lib kind content tags created_at keys seed =
     ok_or GE_Signing (gl_sign_with_seed lib keys seed created_at kind content tags)"

definition fixture_result :: "JobRequest \<Rightarrow> JobResultContent" where
  "fixture_result request =
     JobResultContent_success (jr_id request)
       \<lparr>st_service = Fibonacci, st_program = CAIRO_PROGRAM, st_public_input = [FeltHex_from_u64 10],
        st_public_output = [FeltHex_from_u64 55], st_output = OutFibonacci (FeltHex_from_u64 55)\<rparr>
       \<lparr>pd_format = PROOF_FORMAT, pd_media_type = PROOF_MEDIA_TYPE,
        pd_url = ''https://proofs.example/v1/proofs/'' @ PROOF_SHA256 @ ''.json'', pd_sha256 = PROOF_SHA256,
        pd_byte_size = of_nat (length PROOF_FIXTURE), pd_program_hash = FeltHex_from_u64 9,
        pd_channel = PROOF_CHANNEL\<rparr>
       \<lparr>execution_ms = 1, proving_ms = 2, verification_ms = 3\<rparr>"

definition ser_tags :: "string list list \<Rightarrow> json" where
  "ser_tags tags = JArr (map (\<lambda>tag. JArr (map JStr tag)) tags)"

text \<open>\<open>write_json_string\<close>: the text is parsed as a value and written again.\<close>

definition event_bytes :: "generator_lib \<Rightarrow> Event \<Rightarrow> bytes option" where
  "event_bytes lib event =
     Option.bind (event_try_as_json (gl_wire lib) event) (\<lambda>json.
     Option.bind (value_from_str (gl_wire lib) json) (json_bytes (gl_pretty lib)))"

definition fixture_manifest :: "string \<Rightarrow> string \<Rightarrow> json" where
  "fixture_manifest customer provider =
     JObj [(''warning'', JStr ''PUBLIC TEST-ONLY KEYS. NEVER USE FOR IDENTITY, FUNDS, OR A REAL PROVIDER.''),
           (''created_at'', ser_u64 CREATED_AT),
           (''customer_test_only_secret_key_hex'', JStr TEST_ONLY_CUSTOMER_SECRET),
           (''customer_public_key'', JStr customer),
           (''provider_test_only_secret_key_hex'', JStr TEST_ONLY_PROVIDER_SECRET),
           (''provider_public_key'', JStr provider),
           (''proof_sha256'', JStr PROOF_SHA256)]"

text \<open>The request and its event.\<close>

definition request_fixture ::
  "generator_lib \<Rightarrow> (GeneratorError, JobRequestContent \<times> string list list \<times> Event \<times> JobRequest) result" where
  "request_fixture lib =
     (let content = JobRequestContent_new (InFibonacci 10) (Some (CREATED_AT + 600)) in
     and_then (ok_or GE_Encoding (canonical_json (gl_wire lib) content)) (\<lambda>content_json.
     and_then (map_err GE_Wire (request_tags (gl_wire lib) content (Some 21))) (\<lambda>tag_values.
     and_then (map_err GE_Wire (into_nostr_tags (gl_wire lib) tag_values)) (\<lambda>tags.
     and_then (sign_deterministically lib (request_kind (rc_service content)) content_json tags CREATED_AT
       TEST_ONLY_CUSTOMER_SECRET 1) (\<lambda>event.
     and_then (map_err GE_Wire (parse_request_event (gl_wire lib) event (CREATED_AT + 1))) (\<lambda>request.
     Inr (content, tag_values, event, request)))))))"

text \<open>The event of the result.\<close>

definition result_fixture :: "generator_lib \<Rightarrow> JobRequest \<Rightarrow> (GeneratorError, Event) result" where
  "result_fixture lib request =
     (let r = fixture_result request in
     and_then (ok_or GE_Encoding (json_to_string (gl_wire lib) (ser_JobResultContent r))) (\<lambda>content_json.
     and_then (map_err GE_Wire (into_nostr_tags (gl_wire lib) (result_tags request r))) (\<lambda>tags.
     sign_deterministically lib (result_kind (jr_service request)) content_json tags (CREATED_AT + 2)
       TEST_ONLY_PROVIDER_SECRET 2)))"

definition fixture_files ::
  "generator_lib \<Rightarrow> string \<Rightarrow> string \<Rightarrow> string \<Rightarrow> JobRequestContent \<Rightarrow> string list list \<Rightarrow> Event \<Rightarrow> JobRequest \<Rightarrow>
   Event \<Rightarrow> (string \<times> bytes option) list" where
  "fixture_files lib output customer provider content tag_values request_event request result_event =
     (let bytes = json_bytes (gl_pretty lib); r = fixture_result request in
     [(path_join output ''request-content.json'', bytes (ser_JobRequestContent content)),
      (path_join output ''request-tags.json'', bytes (ser_tags tag_values)),
      (path_join output ''request-event.json'', event_bytes lib request_event),
      (path_join output ''result-content.json'', bytes (ser_JobResultContent r)),
      (path_join output ''result-tags.json'', bytes (ser_tags (result_tags request r))),
      (path_join output ''result-event.json'', event_bytes lib result_event),
      (path_join output (PROOF_SHA256 @ ''.json''), Some PROOF_FIXTURE),
      (path_join output ''fixture-manifest.json'', bytes (fixture_manifest customer provider))])"

definition generate_fixtures :: "generator_lib \<Rightarrow> string list \<Rightarrow> files \<Rightarrow> (GeneratorError, unit) result \<times> files" where
  "generate_fixtures lib arguments fs =
     (case
        and_then (output_directory arguments) (\<lambda>output.
        if \<not> gl_create_dir_all lib output then Inl GE_CreateDir else
        and_then (ok_or GE_Keys (gl_public_key lib TEST_ONLY_CUSTOMER_SECRET)) (\<lambda>customer.
        and_then (ok_or GE_Keys (gl_public_key lib TEST_ONLY_PROVIDER_SECRET)) (\<lambda>provider.
        and_then (request_fixture lib) (\<lambda>(content, tag_values, request_event, request).
        and_then (result_fixture lib request) (\<lambda>result_event.
        Inr (fixture_files lib output customer provider content tag_values request_event request result_event))))))
      of
        Inl e \<Rightarrow> (Inl e, fs)
      | Inr writes \<Rightarrow>
          (case write_each (gl_faults lib) writes fs of (outcome, fs') \<Rightarrow> (map_err GE_Write outcome, fs')))"

section \<open>The fixtures are valid\<close>

lemma fixture_sha: "is_lower_hex PROOF_SHA256 64"
  by (simp add: is_lower_hex_def PROOF_SHA256_def lower_hex_byte_def is_ascii_digit_def)

lemma fixture_size: "length PROOF_FIXTURE = 29"
  by (simp add: PROOF_FIXTURE_def)

lemma fixture_result_ok:
  assumes "is_lower_hex (jr_id request) 64" and "jr_service request = Fibonacci"
    and "parse (''https://proofs.example/v1/proofs/'' @ PROOF_SHA256 @ ''.json'') = Some url"
    and "url_host url \<noteq> None" and "url_scheme url = ''https''"
  shows "result_valid parse (fixture_result request)" "list_all felt_ok (result_felts (fixture_result request))"
    "JobResultContent_request_id (fixture_result request) = jr_id request"
    "case fixture_result request of
        Success _ _ statement _ _ \<Rightarrow> st_service statement = jr_service request | Error _ _ _ \<Rightarrow> True"
  using assms fixture_sha
  by (simp_all add: fixture_result_def JobResultContent_success_def statement_valid_def descriptor_valid_def
      metrics_valid_def fixture_size JobOutput_service_def result_felts_def JobResultContent_request_id_def constants)

lemma request_fixture_service:
  assumes "request_fixture lib = Inr (content, tag_values, event, request)"
    and "\<And>keys seed created kind json tags e. gl_sign_with_seed lib keys seed created kind json tags = Some e \<Longrightarrow>
      event_verify (gl_wire lib) e \<and> ev_kind e = kind \<and> ev_content e = json \<and> ev_tags e = tags \<and> ev_created_at e = created"
  shows "parse_request_event (gl_wire lib) event (CREATED_AT + 1) = Inr request"
    and "jr_service request = Fibonacci" and "jr_created_at request = CREATED_AT"
proof -
  obtain tags content_json where parsed: "parse_request_event (gl_wire lib) event (CREATED_AT + 1) = Inr request"
    and "gl_sign_with_seed lib TEST_ONLY_CUSTOMER_SECRET 1 CREATED_AT 5601 content_json tags = Some event"
    using assms(1) by (auto simp: request_fixture_def Let_def and_then_eq_Inr sign_deterministically_def
        JobRequestContent_new_def JobInput_service_def service_defs constants)
  then have "ev_kind event = request_kind Fibonacci" "ev_created_at event = CREATED_AT"
    using assms(2) by (auto simp: service_defs constants)
  moreover from parsed obtain c bid s where "accepted_request (gl_wire lib) event (CREATED_AT + 1) c bid s"
    and "request = request_of event c bid s"
    by (rule parse_request_event_sound)
  moreover from this have "from_kind (request_kind (rc_service c)) = from_kind (request_kind Fibonacci)"
    using calculation(1) by (simp add: accepted_request_def)
  ultimately show "jr_service request = Fibonacci" "jr_created_at request = CREATED_AT"
    by (simp_all add: request_of_def service_kinds)
  show "parse_request_event (gl_wire lib) event (CREATED_AT + 1) = Inr request" by (rule parsed)
qed

lemma fixture_files_distinct:
  "distinct (map fst (fixture_files lib output customer provider content tag_values request_event request result_event))"
  by (simp add: fixture_files_def Let_def PROOF_SHA256_def)

text \<open>What the two events are signed over.\<close>

lemma request_fixture_signed:
  assumes "wire_codecs (gl_wire lib)" and "request_fixture lib = Inr (content, tag_values, event, request)"
    and "\<And>keys seed created kind json tags e. gl_sign_with_seed lib keys seed created kind json tags = Some e \<Longrightarrow>
      event_verify (gl_wire lib) e \<and> ev_kind e = kind \<and> ev_content e = json \<and> ev_tags e = tags \<and> ev_created_at e = created"
  shows "content = JobRequestContent_new (InFibonacci 10) (Some (CREATED_AT + 600))"
    and "canonical_json (gl_wire lib) content = Some (ev_content event)" and "tag_values = ev_tags event"
proof -
  obtain json tags kind where content: "content = JobRequestContent_new (InFibonacci 10) (Some (CREATED_AT + 600))"
    and json: "canonical_json (gl_wire lib) content = Some json"
    and listed: "request_tags (gl_wire lib) content (Some 21) = Inr tag_values"
    and tags: "into_nostr_tags (gl_wire lib) tag_values = Inr tags"
    and signed: "gl_sign_with_seed lib TEST_ONLY_CUSTOMER_SECRET 1 CREATED_AT kind json tags = Some event"
    using assms(2) by (auto simp: request_fixture_def Let_def and_then_eq_Inr sign_deterministically_def)
  from assms(3) [OF signed] json show "canonical_json (gl_wire lib) content = Some (ev_content event)"
    by simp
  have "[] \<notin> set tag_values"
    using listed unfolding request_tags_eq [OF json] by (auto split: if_splits option.splits)
  then have "into_nostr_tags (gl_wire lib) tag_values = Inr tag_values"
    by (rule wire_codecs.tags_kept [OF assms(1)])
  with tags assms(3) [OF signed] show "tag_values = ev_tags event"
    by simp
qed (use assms(2) in \<open>auto simp: request_fixture_def Let_def and_then_eq_Inr\<close>)

lemma result_fixture_signed:
  assumes "wire_codecs (gl_wire lib)" and "result_fixture lib request = Inr ev"
    and "\<And>keys seed created kind json tags e. gl_sign_with_seed lib keys seed created kind json tags = Some e \<Longrightarrow>
      event_verify (gl_wire lib) e \<and> ev_kind e = kind \<and> ev_content e = json \<and> ev_tags e = tags \<and> ev_created_at e = created"
  shows "json_to_string (gl_wire lib) (ser_JobResultContent (fixture_result request)) = Some (ev_content ev)"
    and "result_tags request (fixture_result request) = ev_tags ev"
  using assms(2) wire_codecs.result_tags_kept [OF assms(1)] assms(3)
  by (auto simp: result_fixture_def Let_def and_then_eq_Inr sign_deterministically_def)

lemma result_fixture_accepted:
  assumes "wire_codecs (gl_wire lib)" and "parse_request_event (gl_wire lib) event t = Inr request"
    and "jr_service request = Fibonacci" and "jr_created_at request = CREATED_AT"
    and "result_fixture lib request = Inr ev"
    and "\<And>keys seed created kind json tags e. gl_sign_with_seed lib keys seed created kind json tags = Some e \<Longrightarrow>
      event_verify (gl_wire lib) e \<and> ev_kind e = kind \<and> ev_content e = json \<and> ev_tags e = tags \<and> ev_created_at e = created"
    and "url_parse (gl_wire lib) (''https://proofs.example/v1/proofs/'' @ PROOF_SHA256 @ ''.json'') = Some url"
    and "url_host url \<noteq> None" and "url_scheme url = ''https''"
    and "length (ev_content ev) \<le> MAX_RESULT_BYTES" and "1900000002 \<le> unat now + 300"
  shows "parse_result_event (gl_wire lib) ev request now = Inr (fixture_result request)"
proof -
  note req = accepted_request_id [OF assms(2)]
  have hex: "is_lower_hex (jr_id request) 64"
    using wire_codecs.verified_id [OF assms(1)] req(1,2) by simp
  note ok = fixture_result_ok [where parse = "url_parse (gl_wire lib)", OF hex assms(3,7-9)]
  have "gl_sign_with_seed lib TEST_ONLY_PROVIDER_SECRET 2 (CREATED_AT + 2) (result_kind (jr_service request))
      (ev_content ev) (result_tags request (fixture_result request)) = Some ev \<and>
    json_to_string (gl_wire lib) (ser_JobResultContent (fixture_result request)) = Some (ev_content ev)"
    using assms(5) wire_codecs.result_tags_kept [OF assms(1)] assms(6)
    by (auto simp: result_fixture_def Let_def and_then_eq_Inr sign_deterministically_def)
  then have printed: "json_to_string (gl_wire lib) (ser_JobResultContent (fixture_result request)) = Some (ev_content ev)"
    and ev: "event_verify (gl_wire lib) ev" "ev_kind ev = result_kind (jr_service request)"
      "ev_tags ev = result_tags request (fixture_result request)" "ev_created_at ev = CREATED_AT + 2"
    using assms(6) by blast+
  have "unat (ev_created_at ev) = 1900000002" "unat (jr_created_at request) = 1900000000"
    by (simp_all add: ev(4) assms(4) CREATED_AT_def)
  with wire_codecs.signed_result_accepted [OF assms(1,2) printed assms(10) ok ev(1-3), of now] assms(11)
  show ?thesis by simp
qed

section \<open>An instance\<close>

text \<open>Codecs that know the two events of the generator, and a signer that fills in an event.\<close>

definition fixture_content :: JobRequestContent where
  "fixture_content = JobRequestContent_new (InFibonacci 10) (Some (CREATED_AT + 600))"

definition fixture_signed :: "u64 \<Rightarrow> u16 \<Rightarrow> string \<Rightarrow> string list list \<Rightarrow> Event" where
  "fixture_signed created kind json tags =
     \<lparr>ev_id = replicate 64 CHR ''a'', ev_pubkey = replicate 64 CHR ''b'', ev_created_at = created, ev_kind = kind,
      ev_tags = tags, ev_content = json, ev_sig = []\<rparr>"

definition fixture_event :: Event where
  "fixture_event = fixture_signed CREATED_AT 5601 ''request''
     [[''i'', ''request'', ''text''], [''protocol'', SOUL_WIRE_PROTOCOL], [''service'', ''fibonacci''],
      [''t'', ''soul-society''], [''expiration'', u64_to_string (CREATED_AT + 600)], [''bid'', u64_to_string 21]]"

definition fixture_request :: JobRequest where
  "fixture_request = request_of fixture_event fixture_content (Some 21) ''e''"

definition fixture_answer :: Event where
  "fixture_answer = fixture_signed (CREATED_AT + 2) 6601 ''result''
     (result_tags fixture_request (fixture_result fixture_request))"

definition fixture_object :: "string \<Rightarrow> (string \<times> json) list" where
  "fixture_object s = map (\<lambda>key. (key, JStr s)) EVENT_KEYS"

definition fixture_wire :: wire_lib where
  "fixture_wire =
     \<lparr>event_verify = (\<lambda>e. is_lower_hex (ev_id e) 64),
      event_try_as_json = (\<lambda>e. if e = fixture_event then Some ''e'' else if e = fixture_answer then Some ''r'' else None),
      event_from_json = (\<lambda>s. Some (if s = ''e'' then fixture_event else fixture_answer)),
      event_eq = (\<lambda>a b. a = b),
      json_to_string = (\<lambda>j. if j = ser_JobRequestContent fixture_content then Some ''request''
        else if j = ser_JobResultContent (fixture_result fixture_request) then Some ''result'' else None),
      request_from_str = (\<lambda>s. if s = ''request'' then Some fixture_content else None),
      result_from_str = (\<lambda>s. if s = ''result'' then Some (fixture_result fixture_request) else None),
      value_from_str = (\<lambda>s. Some (JObj (fixture_object s))),
      event_from_object = (\<lambda>object. Some (if object = fixture_object ''e'' then fixture_event else fixture_answer)),
      tag_parse = Some,
      url_parse = (\<lambda>_. Some example_url)\<rparr>"

definition example_generator :: generator_lib where
  "example_generator =
     \<lparr>gl_wire = fixture_wire, gl_public_key = Some,
      gl_sign_with_seed = (\<lambda>keys seed created kind json tags. Some (fixture_signed created kind json tags)),
      gl_pretty = (\<lambda>_. Some []), gl_create_dir_all = (\<lambda>_. True), gl_faults = (\<lambda>_. W_Fine)\<rparr>"

lemma fixture_wire_codecs: "wire_codecs fixture_wire"
proof unfold_locales
  fix e s
  assume "event_try_as_json fixture_wire e = Some s"
  then have "(e = fixture_event \<and> s = ''e'') \<or> (e = fixture_answer \<and> s = ''r'')"
    by (auto simp: fixture_wire_def split: if_splits)
  moreover have "fixture_object ''r'' \<noteq> fixture_object ''e''"
    by (simp add: fixture_object_def EVENT_KEYS_def)
  ultimately show "event_from_json fixture_wire s = Some e \<and> (\<exists>object. value_from_str fixture_wire s = Some (JObj object) \<and>
        length object = 7 \<and> set (map fst object) = set EVENT_KEYS \<and> event_from_object fixture_wire object = Some e)"
    by (auto simp: fixture_wire_def) (auto simp: fixture_object_def EVENT_KEYS_def)
qed (auto simp: fixture_wire_def ser_result_not_request ser_inject split: if_splits)

interpretation fixture: wire_codecs fixture_wire
  by (rule fixture_wire_codecs)

lemma fixture_content_fields:
  "rc_service fixture_content = Fibonacci" "rc_expires_at fixture_content = Some (CREATED_AT + 600)"
  "rc_protocol fixture_content = SOUL_WIRE_PROTOCOL" "rc_input fixture_content = InFibonacci 10"
  by (simp_all add: fixture_content_def JobRequestContent_new_def JobInput_service_def)

lemma fixture_json: "canonical_json fixture_wire fixture_content = Some ''request''"
  by (simp add: canonical_json_def fixture_wire_def)

lemma fixture_tags: "request_tags fixture_wire fixture_content (Some 21) = Inr (ev_tags fixture_event)"
  by (simp add: request_tags_eq [OF fixture_json] fixture_content_fields fixture_event_def fixture_signed_def
      constants INPUT_TYPE_def TOPIC_def ServiceType_as_str_def)

lemma fixture_event_fields [simp]:
  "ev_id fixture_event = replicate 64 CHR ''a''" "ev_created_at fixture_event = CREATED_AT"
  "ev_kind fixture_event = 5601" "ev_content fixture_event = ''request''"
  by (simp_all add: fixture_event_def fixture_signed_def)

lemma fixture_parsed: "parse_request_event fixture_wire fixture_event (CREATED_AT + 1) = Inr fixture_request"
proof -
  have codec: "event_verify fixture_wire fixture_event" "request_from_str fixture_wire ''request'' = Some fixture_content"
    "event_try_as_json fixture_wire fixture_event = Some ''e''"
    by (simp_all add: fixture_wire_def exchange_id_hex)
  have "accepted_request fixture_wire fixture_event (CREATED_AT + 1) fixture_content (Some 21) ''e''"
    using codec fixture_json fixture_tags
    by (simp add: accepted_request_def fixture_content_fields MAX_REQUEST_BYTES_def request_window_def
        CREATED_AT_def content_valid_def JobInput_service_def service_defs constants)
  then show ?thesis
    unfolding fixture_request_def by (rule parse_request_event_complete)
qed

lemma example_request_fixture:
  "request_fixture example_generator = Inr (fixture_content, ev_tags fixture_event, fixture_event, fixture_request)"
proof -
  have kept: "into_nostr_tags fixture_wire (ev_tags fixture_event) = Inr (ev_tags fixture_event)"
    using fixture.tag_values by (simp add: into_nostr_tags_def fixture_event_def fixture_signed_def)
  have "fixture_signed CREATED_AT 5601 ''request'' (ev_tags fixture_event) = fixture_event"
    by (simp add: fixture_event_def fixture_signed_def)
  with kept show ?thesis
    using fixture_json fixture_tags fixture_parsed
    by (simp add: request_fixture_def fixture_content_def [symmetric] example_generator_def sign_deterministically_def
        fixture_content_fields service_defs constants)
qed

lemma fixture_request_fields:
  "jr_service fixture_request = Fibonacci"
  by (simp add: fixture_request_def request_of_def fixture_content_fields)

lemma example_result_fixture: "result_fixture example_generator fixture_request = Inr fixture_answer"
proof -
  have "json_to_string fixture_wire (ser_JobResultContent (fixture_result fixture_request)) = Some ''result''"
    by (simp add: fixture_wire_def ser_result_not_request)
  then show ?thesis
    using fixture.result_tags_kept
    by (simp add: result_fixture_def example_generator_def sign_deterministically_def fixture_answer_def
        fixture_request_fields service_defs constants)
qed

lemma example_generated: "\<exists>fs'. generate_fixtures example_generator [''out''] Map.empty = (Inr (), fs')"
proof -
  have "fixture_answer \<noteq> fixture_event"
    by (simp add: fixture_answer_def fixture_event_def fixture_signed_def)
  then have "\<exists>bs. event_bytes example_generator fixture_event = Some bs"
    "\<exists>bs. event_bytes example_generator fixture_answer = Some bs"
    by (simp_all add: event_bytes_def example_generator_def fixture_wire_def json_bytes_def)
  then obtain a b where "event_bytes example_generator fixture_event = Some a"
    "event_bytes example_generator fixture_answer = Some b" by blast
  moreover have "gl_create_dir_all example_generator d" "gl_public_key example_generator k = Some k"
    "gl_faults example_generator path = W_Fine" "json_bytes (gl_pretty example_generator) j = Some [10]" for d k path j
    by (simp_all add: example_generator_def json_bytes_def)
  ultimately show ?thesis
    by (simp add: generate_fixtures_def output_directory_def example_request_fixture example_result_fixture
        fixture_files_def fs_write_def)
qed

section \<open>Properties\<close>

lemma ball_paths:
  "(\<And>path b. (path, b) \<in> set (map (\<lambda>(name, b). (f name, b)) xs) \<Longrightarrow> P path b) \<Longrightarrow>
     \<forall>(name, b) \<in> set xs. P (f name) b"
  by fastforce

text \<open>C28: generated fixtures are a valid exchange, and every file holds what it is named for.
  When the generator succeeds, the request event it wrote is accepted, and a client reads
  the result event it wrote back as the result it wrote, at every time from five minutes
  before its date on, if the result fits the wire limit. Of the eight files,
  \<open>request-content.json\<close> and \<open>request-tags.json\<close> are printed from the content that is the text
  of the request event and from its tags, \<open>result-content.json\<close> and \<open>result-tags.json\<close> from
  the result that is the text of the result event and from its tags, the two event files
  hold the events, the proof is under its digest's name, and the manifest has the public
  keys of the two test secrets. The generator itself only checks the request.\<close>

theorem generated_fixtures_accepted:
  assumes "wire_codecs (gl_wire lib)"
    and "\<And>keys seed created kind json tags e. gl_sign_with_seed lib keys seed created kind json tags = Some e \<Longrightarrow>
      event_verify (gl_wire lib) e \<and> ev_kind e = kind \<and> ev_content e = json \<and> ev_tags e = tags \<and> ev_created_at e = created"
    and "url_parse (gl_wire lib) (''https://proofs.example/v1/proofs/'' @ PROOF_SHA256 @ ''.json'') = Some url"
    and "url_host url \<noteq> None" and "url_scheme url = ''https''"
    and "generate_fixtures lib arguments fs = (Inr (), fs')"
  shows "\<exists>output request_event request result_event content customer provider. arguments = [output] \<and>
    parse_request_event (gl_wire lib) request_event (CREATED_AT + 1) = Inr request \<and>
    (length (ev_content result_event) \<le> MAX_RESULT_BYTES \<longrightarrow> (\<forall>now. 1900000002 \<le> unat now + 300 \<longrightarrow>
       parse_result_event (gl_wire lib) result_event request now = Inr (fixture_result request))) \<and>
    content = JobRequestContent_new (InFibonacci 10) (Some (CREATED_AT + 600)) \<and>
    canonical_json (gl_wire lib) content = Some (ev_content request_event) \<and>
    json_to_string (gl_wire lib) (ser_JobResultContent (fixture_result request)) = Some (ev_content result_event) \<and>
    gl_public_key lib TEST_ONLY_CUSTOMER_SECRET = Some customer \<and>
    gl_public_key lib TEST_ONLY_PROVIDER_SECRET = Some provider \<and>
    (\<forall>(name, bytes) \<in> set
       [(''request-content.json'', json_bytes (gl_pretty lib) (ser_JobRequestContent content)),
        (''request-tags.json'', json_bytes (gl_pretty lib) (ser_tags (ev_tags request_event))),
        (''request-event.json'', event_bytes lib request_event),
        (''result-content.json'', json_bytes (gl_pretty lib) (ser_JobResultContent (fixture_result request))),
        (''result-tags.json'', json_bytes (gl_pretty lib) (ser_tags (ev_tags result_event))),
        (''result-event.json'', event_bytes lib result_event),
        (PROOF_SHA256 @ ''.json'', Some PROOF_FIXTURE),
        (''fixture-manifest.json'', json_bytes (gl_pretty lib) (fixture_manifest customer provider))].
       bytes \<noteq> None \<and> fs' (path_join output name) = bytes)"
proof -
  obtain out_dir customer provider content tag_values request_event request result_event where
    dir: "output_directory arguments = Inr out_dir"
    and keys: "gl_public_key lib TEST_ONLY_CUSTOMER_SECRET = Some customer"
      "gl_public_key lib TEST_ONLY_PROVIDER_SECRET = Some provider"
    and request: "request_fixture lib = Inr (content, tag_values, request_event, request)"
    and result: "result_fixture lib request = Inr result_event"
    and written: "write_each (gl_faults lib) (fixture_files lib out_dir customer provider content tag_values
      request_event request result_event) fs = (Inr (), fs')"
    using assms(6) by (auto simp: generate_fixtures_def and_then_eq_Inr split: sum.splits prod.splits if_splits)
  note req = request_fixture_service [OF request assms(2)]
  note wrote = request_fixture_signed [OF assms(1) request assms(2)]
  note answered = result_fixture_signed [OF assms(1) result assms(2)]
  have read: "parse_result_event (gl_wire lib) result_event request now = Inr (fixture_result request)"
    if "length (ev_content result_event) \<le> MAX_RESULT_BYTES" "1900000002 \<le> unat now + 300" for now
    by (rule result_fixture_accepted [OF assms(1) req result assms(2) assms(3-5) that])
  have files: "bytes \<noteq> None \<and> fs' path = bytes" if "(path, bytes) \<in> set (fixture_files lib out_dir customer provider content
      tag_values request_event request result_event)" for path bytes
    using write_each_done [OF written fixture_files_distinct that] .
  have "arguments = [out_dir]"
    using dir by (auto simp: output_directory_def split: list.splits)
  moreover have "fixture_files lib out_dir customer provider content tag_values request_event request result_event =
      map (\<lambda>(name, bytes). (path_join out_dir name, bytes))
       [(''request-content.json'', json_bytes (gl_pretty lib) (ser_JobRequestContent content)),
        (''request-tags.json'', json_bytes (gl_pretty lib) (ser_tags (ev_tags request_event))),
        (''request-event.json'', event_bytes lib request_event),
        (''result-content.json'', json_bytes (gl_pretty lib) (ser_JobResultContent (fixture_result request))),
        (''result-tags.json'', json_bytes (gl_pretty lib) (ser_tags (ev_tags result_event))),
        (''result-event.json'', event_bytes lib result_event),
        (PROOF_SHA256 @ ''.json'', Some PROOF_FIXTURE),
        (''fixture-manifest.json'', json_bytes (gl_pretty lib) (fixture_manifest customer provider))]"
    by (simp add: fixture_files_def Let_def wrote(3) answered(2))
  note ball_paths [OF files [unfolded this]]
  ultimately show ?thesis
    by (intro exI [of _ out_dir] exI [of _ request_event] exI [of _ request] exI [of _ result_event] exI [of _ content]
        exI [of _ customer] exI [of _ provider] conjI impI allI req(1) read keys wrote(1,2) answered(1))
qed

theorem generated_fixtures_accepted_witness:
  "\<exists>fs' request_event request result_event. generate_fixtures example_generator [''out''] Map.empty = (Inr (), fs') \<and>
     parse_request_event fixture_wire request_event (CREATED_AT + 1) = Inr request \<and>
     fs' ''out/result-event.json'' = event_bytes example_generator result_event \<and>
     fs' ''out/request-tags.json'' = json_bytes (gl_pretty example_generator) (ser_tags (ev_tags request_event)) \<and>
     fs' ''out/result-tags.json'' = json_bytes (gl_pretty example_generator) (ser_tags (ev_tags result_event))"
proof -
  obtain fs' where run: "generate_fixtures example_generator [''out''] Map.empty = (Inr (), fs')"
    using example_generated by blast
  have wire: "gl_wire example_generator = fixture_wire" by (simp add: example_generator_def)
  have sign: "event_verify fixture_wire e \<and> ev_kind e = kind \<and> ev_content e = json \<and> ev_tags e = tags \<and> ev_created_at e = created"
    if "gl_sign_with_seed example_generator keys seed created kind json tags = Some e" for keys seed created kind json tags e
    using that by (auto simp: example_generator_def fixture_signed_def fixture_wire_def exchange_id_hex)
  have url: "url_parse fixture_wire (''https://proofs.example/v1/proofs/'' @ PROOF_SHA256 @ ''.json'') = Some example_url"
    "url_host example_url \<noteq> None" "url_scheme example_url = ''https''"
    by (simp_all add: fixture_wire_def example_url_def)
  obtain out_dir request_event request result_event where "[''out''] = [out_dir]"
    and "parse_request_event fixture_wire request_event (CREATED_AT + 1) = Inr request"
    and "fs' (path_join out_dir ''result-event.json'') = event_bytes example_generator result_event"
    and "fs' (path_join out_dir ''request-tags.json'') =
      json_bytes (gl_pretty example_generator) (ser_tags (ev_tags request_event))"
    and "fs' (path_join out_dir ''result-tags.json'') =
      json_bytes (gl_pretty example_generator) (ser_tags (ev_tags result_event))"
  proof (rule exE [OF generated_fixtures_accepted [OF _ _ _ url(2,3) run, unfolded wire, OF fixture_wire_codecs _ url(1)]])
  qed (rule sign, assumption, elim exE conjE, rule that, assumption+, simp_all)
  moreover from this(1) have "path_join out_dir ''result-event.json'' = ''out/result-event.json''"
    "path_join out_dir ''request-tags.json'' = ''out/request-tags.json''"
    "path_join out_dir ''result-tags.json'' = ''out/result-tags.json''"
    by (auto simp: path_join_def)
  ultimately show ?thesis
    using run by metis
qed

end
