(* ===== verification/Cairo.thy ===== *)
theory Cairo
  imports Constants
begin

text \<open>
  The canonical computation of \<open>crates/soul-cairo/src\<close>: Fibonacci, the Poseidon preimage
  check and the Poseidon Merkle check, and the executable that dispatches them. A
  \<open>felt252\<close> is its representative below the Cairo prime; a panic is the left side of the
  result, with the message of the assertion. Poseidon is a function on spans
  (\<open>poseidon :: nat list \<Rightarrow> nat\<close>) and an argument of every definition that hashes.
\<close>

type_synonym felt252 = nat

definition felt_add :: "felt252 \<Rightarrow> felt252 \<Rightarrow> felt252" where
  "felt_add a b = (a + b) mod cairo_prime"

section \<open>Fibonacci\<close>

text \<open>The loop counter is a \<open>u64\<close> whose increment panics on overflow.\<close>

function fibonacci_loop :: "u64 \<Rightarrow> u64 \<Rightarrow> felt252 \<Rightarrow> felt252 \<Rightarrow> (string, felt252) result" where
  "fibonacci_loop n i a b =
     (if i > n then Inr b
      else if i = - 1 then Inl ''u64_add Overflow''
      else fibonacci_loop n (i + 1) b (felt_add a b))"
  by pat_completeness auto

lemma unat_Suc_u64: "i \<noteq> - 1 \<Longrightarrow> unat (i + 1 :: u64) = unat i + 1"
  by (metis Suc_eq_plus1 add.commute add.right_neutral add_diff_cancel_left' diff_0 unatSuc)

termination fibonacci_loop
proof (relation "measure (\<lambda>(n, i, a, b). 2 ^ 64 - unat i)")
  show "wf (measure (\<lambda>(n :: u64, i :: u64, a :: felt252, b :: felt252). 2 ^ 64 - unat i))"
    by simp
next
  fix n i :: u64 and a b :: felt252
  assume "i \<noteq> - 1"
  then have "unat (i + 1) = unat i + 1" by (rule unat_Suc_u64)
  then show "((n, i + 1, b, felt_add a b), (n, i, a, b))
      \<in> measure (\<lambda>(n, i, a, b). 2 ^ 64 - unat i)"
    using unat_u64_less [of i] by (simp del: unat_u64_less)
qed

declare fibonacci_loop.simps [simp del]

definition compute_fibonacci :: "u64 \<Rightarrow> (string, felt252) result" where
  "compute_fibonacci n =
     (if n = 0 then Inr 0
      else if n = 1 then Inr 1
      else fibonacci_loop n 2 0 1)"

section \<open>Hashes and Merkle paths\<close>

definition verify_hash :: "(felt252 list \<Rightarrow> felt252) \<Rightarrow> felt252 \<Rightarrow> felt252 \<Rightarrow> bool" where
  "verify_hash poseidon expected_hash preimage \<longleftrightarrow> poseidon [preimage] = expected_hash"

definition compute_hash :: "(felt252 list \<Rightarrow> felt252) \<Rightarrow> felt252 \<Rightarrow> felt252" where
  "compute_hash poseidon value = poseidon [value]"

text \<open>\<open>compute_root\<close> walks the siblings, testing and halving the index.\<close>

fun compute_root :: "(felt252 list \<Rightarrow> felt252) \<Rightarrow> felt252 \<Rightarrow> felt252 list \<Rightarrow> u64 \<Rightarrow> felt252" where
  "compute_root poseidon current [] idx = current"
| "compute_root poseidon current (sibling # proof) idx =
     compute_root poseidon
       (poseidon (if idx mod 2 = 0 then [current, sibling] else [sibling, current]))
       proof (idx div 2)"

definition verify_merkle_proof ::
  "(felt252 list \<Rightarrow> felt252) \<Rightarrow> felt252 \<Rightarrow> felt252 \<Rightarrow> felt252 list \<Rightarrow> u64 \<Rightarrow> bool" where
  "verify_merkle_proof poseidon root leaf proof index \<longleftrightarrow>
     compute_root poseidon leaf proof index = root"

section \<open>The executable\<close>

definition FIBONACCI_SERVICE :: u8 where
  "FIBONACCI_SERVICE = 1"

definition HASH_VERIFY_SERVICE :: u8 where
  "HASH_VERIFY_SERVICE = 2"

definition MERKLE_PROOF_SERVICE :: u8 where
  "MERKLE_PROOF_SERVICE = 3"

lemmas cairo_services = FIBONACCI_SERVICE_def HASH_VERIFY_SERVICE_def MERKLE_PROOF_SERVICE_def

text \<open>\<open>felt252.try_into()\<close> at \<open>u64\<close>, and \<open>2_u64.pow\<close>, which panics when it overflows.\<close>

definition felt_to_u64 :: "felt252 \<Rightarrow> u64 option" where
  "felt_to_u64 f = (if f < 2 ^ 64 then Some (of_nat f) else None)"

definition u64_pow2 :: "nat \<Rightarrow> (string, u64) result" where
  "u64_pow2 depth = (if depth < 64 then Inr (push_bit depth 1) else Inl ''u64_mul Overflow'')"

definition cairo_assert :: "bool \<Rightarrow> string \<Rightarrow> (string, unit) result" where
  "cairo_assert b message = (if b then Inr () else Inl message)"

definition cairo_main ::
  "(felt252 list \<Rightarrow> felt252) \<Rightarrow> u8 \<Rightarrow> felt252 list \<Rightarrow> felt252 list \<Rightarrow>
   (string, u8 \<times> felt252 list \<times> felt252 list) result" where
  "cairo_main poseidon service public private =
     (if service = FIBONACCI_SERVICE then
        and_then (cairo_assert (length public = 1) ''invalid public input'') (\<lambda>_.
        and_then (cairo_assert (private = []) ''invalid private input'') (\<lambda>_.
        and_then (ok_or ''n does not fit u64'' (felt_to_u64 (public ! 0))) (\<lambda>n.
        and_then (cairo_assert (n \<le> MAX_FIBONACCI_N) ''fibonacci n too large'') (\<lambda>_.
        and_then (compute_fibonacci n) (\<lambda>f.
        Inr (service, public, [f]))))))
      else if service = HASH_VERIFY_SERVICE then
        and_then (cairo_assert (length public = 1) ''invalid public input'') (\<lambda>_.
        and_then (cairo_assert (length private = 1) ''invalid private input'') (\<lambda>_.
        Inr (service, public,
             [if verify_hash poseidon (public ! 0) (private ! 0) then 1 else 0])))
      else if service = MERKLE_PROOF_SERVICE then
        and_then (cairo_assert (length public = 3) ''invalid public input'') (\<lambda>_.
        and_then (cairo_assert (length private \<le> MAX_MERKLE_DEPTH) ''merkle path too deep'') (\<lambda>_.
        and_then (ok_or ''index does not fit u64'' (felt_to_u64 (public ! 2))) (\<lambda>index.
        and_then (u64_pow2 (length private)) (\<lambda>max_index.
        and_then (cairo_assert (index < max_index) ''index exceeds path'') (\<lambda>_.
        Inr (service, public,
             [if verify_merkle_proof poseidon (public ! 0) (public ! 1) private index then 1 else 0]))))))
      else Inl ''unsupported service'')"

text \<open>
  The calling convention stated above \<open>main\<close>: arguments and result are flattened with
  Cairo's \<open>Serde\<close>, an array as its length followed by its items.
\<close>

definition serde_array :: "felt252 list \<Rightarrow> felt252 list" where
  "serde_array xs = length xs # xs"

definition deserde_u8 :: "felt252 list \<Rightarrow> (u8 \<times> felt252 list) option" where
  "deserde_u8 fs = (case fs of f # rest \<Rightarrow> (if f < 256 then Some (of_nat f, rest) else None) | [] \<Rightarrow> None)"

definition deserde_array :: "felt252 list \<Rightarrow> (felt252 list \<times> felt252 list) option" where
  "deserde_array fs =
     (case fs of
        n # rest \<Rightarrow> (if n < 2 ^ 32 \<and> n \<le> length rest then Some (take n rest, drop n rest) else None)
      | [] \<Rightarrow> None)"

definition cairo_executable ::
  "(felt252 list \<Rightarrow> felt252) \<Rightarrow> felt252 list \<Rightarrow> (string, felt252 list) result" where
  "cairo_executable poseidon args =
     and_then (ok_or ''Failed to deserialize param #1'' (deserde_u8 args)) (\<lambda>(service, args1).
     and_then (ok_or ''Failed to deserialize param #2'' (deserde_array args1)) (\<lambda>(public, args2).
     and_then (ok_or ''Failed to deserialize param #3'' (deserde_array args2)) (\<lambda>(private, args3).
     if args3 \<noteq> [] then Inl ''Input too long for arguments''
     else and_then (cairo_main poseidon service public private) (\<lambda>(service, public_input, output).
       Inr (unat service # serde_array public_input @ serde_array output)))))"

section \<open>Fibonacci numbers\<close>

text \<open>The mathematical sequence, and the loop against it.\<close>

fun fib :: "nat \<Rightarrow> nat" where
  "fib 0 = 0"
| "fib (Suc 0) = 1"
| "fib (Suc (Suc n)) = fib n + fib (Suc n)"

lemma fibonacci_loop_correct:
  assumes "unat i = Suc (Suc k)" and "i \<le> n + 1" and "n \<noteq> - 1"
    and "a = fib k mod cairo_prime" and "b = fib (Suc k) mod cairo_prime"
  shows "fibonacci_loop n i a b = Inr (fib (unat n) mod cairo_prime)"
  using assms
proof (induction n i a b arbitrary: k rule: fibonacci_loop.induct)
  case (1 n i a b)
  have n1: "unat (n + 1) = unat n + 1"
    using "1.prems"(3) by (rule unat_Suc_u64)
  show ?case
  proof (cases "i > n")
    case True
    with "1.prems"(1,2) n1 have "unat n = Suc k"
      by (simp add: word_le_nat_alt word_less_nat_alt)
    with True "1.prems"(5) show ?thesis
      by (simp add: fibonacci_loop.simps [of n i])
  next
    case False
    with "1.prems"(3) have "i \<noteq> - 1"
      by (metis order.not_eq_order_implies_strict word_order.extremum not_less)
    then have "unat (i + 1) = Suc (Suc (Suc k))"
      using "1.prems"(1) by (simp add: unat_Suc_u64)
    moreover from False n1 have "i + 1 \<le> n + 1"
      using \<open>i \<noteq> - 1\<close> by (simp add: word_le_nat_alt unat_Suc_u64 not_less)
    moreover have "felt_add a b = fib (Suc (Suc k)) mod cairo_prime"
      using "1.prems"(4,5) by (simp add: felt_add_def mod_add_eq)
    ultimately have "fibonacci_loop n (i + 1) b (felt_add a b) = Inr (fib (unat n) mod cairo_prime)"
      using "1.IH" False \<open>i \<noteq> - 1\<close> "1.prems"(3,5) by blast
    with False \<open>i \<noteq> - 1\<close> show ?thesis
      by (simp add: fibonacci_loop.simps [of n i])
  qed
qed

lemma compute_fibonacci_mod:
  assumes "n \<noteq> - 1"
  shows "compute_fibonacci n = Inr (fib (unat n) mod cairo_prime)"
proof -
  consider "n = 0" | "n = 1" | "n \<noteq> 0" "n \<noteq> 1" by blast
  then show ?thesis
  proof cases
    case 3
    then have "unat n \<noteq> 0" "unat n \<noteq> 1"
      by (metis unat_eq_zero, metis word_unat_eq_iff unat_1)
    then have "2 \<le> n + 1"
      using assms by (simp add: word_le_nat_alt unat_Suc_u64)
    then show ?thesis
      using 3 assms fibonacci_loop_correct [of 2 0 n 0 1] by (simp add: compute_fibonacci_def)
  qed (simp_all add: compute_fibonacci_def)
qed

text \<open>The largest index whose number is below the prime, by iterating over integers.\<close>

fun fib_iter :: "nat \<Rightarrow> int \<Rightarrow> int \<Rightarrow> int" where
  "fib_iter 0 a b = a"
| "fib_iter (Suc k) a b = fib_iter k b (a + b)"

lemma fib_iter_fib: "fib_iter k (int (fib m)) (int (fib (Suc m))) = int (fib (m + k))"
proof (induction k arbitrary: m)
  case (Suc k)
  have "fib_iter (Suc k) (int (fib m)) (int (fib (Suc m))) =
      fib_iter k (int (fib (Suc m))) (int (fib (Suc (Suc m))))"
    by simp
  also have "\<dots> = int (fib (Suc m + k))" by (rule Suc.IH)
  finally show ?case by simp
qed simp

lemma int_fib: "int (fib k) = fib_iter k 0 1"
  using fib_iter_fib [of k 0] by simp

lemma fib_iter_values:
  "fib_iter 363 0 1 < 3618502788666131213697322783095070105623107215331596699973092056135872020481"
  "3618502788666131213697322783095070105623107215331596699973092056135872020481 \<le> fib_iter 364 0 1"
  by code_simp+

lemma fib_Suc_mono: "fib n \<le> fib (Suc n)"
  by (cases n) simp_all

lemma fib_mono: "m \<le> n \<Longrightarrow> fib m \<le> fib n"
  by (rule lift_Suc_mono_le [of fib]) (rule fib_Suc_mono)

lemma fib_363: "fib 363 < cairo_prime"
  using fib_iter_values(1) unfolding int_fib [symmetric] cairo_prime_def by simp

lemma fib_364: "cairo_prime \<le> fib 364"
  using fib_iter_values(2) unfolding int_fib [symmetric] cairo_prime_def by simp

lemma fib_bounded: "n \<le> 363 \<Longrightarrow> fib n < cairo_prime"
  using fib_mono [of n 363] fib_363 by simp

lemma compute_fibonacci_bounded:
  assumes "unat n \<le> 363"
  shows "compute_fibonacci n = Inr (fib (unat n))"
proof -
  from assms have "n \<noteq> - 1"
    by (auto simp: unsigned_minus_1_eq_mask mask_eq_exp_minus_1)
  with assms show ?thesis
    by (simp add: compute_fibonacci_mod fib_bounded)
qed

section \<open>Merkle trees\<close>

text \<open>
  The trees a path speaks about: leaves and pairs, hashed bottom up; the leaf at an index
  of a perfect tree and its siblings from the leaf level upward.
\<close>

datatype mtree = MLeaf felt252 | MNode mtree mtree

fun mroot :: "(felt252 list \<Rightarrow> felt252) \<Rightarrow> mtree \<Rightarrow> felt252" where
  "mroot H (MLeaf v) = v"
| "mroot H (MNode l r) = H [mroot H l, mroot H r]"

fun perfect :: "nat \<Rightarrow> mtree \<Rightarrow> bool" where
  "perfect 0 (MLeaf v) \<longleftrightarrow> True"
| "perfect (Suc d) (MNode l r) \<longleftrightarrow> perfect d l \<and> perfect d r"
| "perfect _ _ \<longleftrightarrow> False"

fun leaf_at :: "nat \<Rightarrow> mtree \<Rightarrow> nat \<Rightarrow> felt252" where
  "leaf_at (Suc d) (MNode l r) i = (if i < 2 ^ d then leaf_at d l i else leaf_at d r (i - 2 ^ d))"
| "leaf_at d (MLeaf v) i = v"
| "leaf_at 0 (MNode l r) i = 0"

fun siblings :: "(felt252 list \<Rightarrow> felt252) \<Rightarrow> nat \<Rightarrow> mtree \<Rightarrow> nat \<Rightarrow> felt252 list" where
  "siblings H (Suc d) (MNode l r) i =
     (if i < 2 ^ d then siblings H d l i @ [mroot H r]
      else siblings H d r (i - 2 ^ d) @ [mroot H l])"
| "siblings H _ _ i = []"

text \<open>The walk over a natural index, which the 64-bit one agrees with.\<close>

fun path_root :: "(felt252 list \<Rightarrow> felt252) \<Rightarrow> felt252 \<Rightarrow> felt252 list \<Rightarrow> nat \<Rightarrow> felt252" where
  "path_root H current [] i = current"
| "path_root H current (s # proof) i =
     path_root H (H (if even i then [current, s] else [s, current])) proof (i div 2)"

lemma u64_even_iff: "(idx :: u64) mod 2 = 0 \<longleftrightarrow> even (unat idx)"
proof -
  have "idx mod 2 = 0 \<longleftrightarrow> unat (idx mod 2) = 0"
    by (simp add: unat_eq_0)
  then show ?thesis
    by (simp add: unat_mod even_iff_mod_2_eq_zero)
qed

lemma compute_root_path_root: "compute_root H current proof idx = path_root H current proof (unat idx)"
  by (induction H current "proof" idx rule: compute_root.induct)
    (simp_all add: u64_even_iff unat_div)

lemma path_root_append:
  "path_root H c (xs @ ys) i = path_root H (path_root H c xs i) ys (i div 2 ^ length xs)"
  by (induction H c xs i rule: path_root.induct) (simp_all add: div_mult2_eq)

text \<open>The low bits of the index only steer the lower part of the path.\<close>

lemma path_root_low_bits:
  "length xs \<le> d \<Longrightarrow> path_root H c xs (i + 2 ^ d * k) = path_root H c xs i"
proof (induction xs arbitrary: c i d)
  case (Cons x xs)
  then obtain e where d: "d = Suc e" by (cases d) auto
  have "(i + 2 ^ d * k) div 2 = i div 2 + 2 ^ e * k"
    by (simp add: d mult.assoc)
  moreover have "even (i + 2 ^ d * k) \<longleftrightarrow> even i" by (simp add: d)
  ultimately show ?case using Cons d by simp
qed simp

lemma path_root_snoc:
  assumes "length xs = d" and "i < 2 ^ Suc d"
  shows "path_root H c (xs @ [s]) i =
    (if i < 2 ^ d then H [path_root H c xs i, s] else H [s, path_root H c xs (i - 2 ^ d)])"
proof (cases "i < 2 ^ d")
  case True
  with assms(1) show ?thesis by (simp add: path_root_append)
next
  case False
  with assms have "i div 2 ^ d = 1"
    by (intro div_nat_eqI) simp_all
  moreover have "path_root H c xs i = path_root H c xs (i - 2 ^ d)"
    using path_root_low_bits [of xs d H c "i - 2 ^ d" 1] assms(1) False by simp
  ultimately show ?thesis
    using assms(1) False by (simp add: path_root_append)
qed

lemma length_siblings: "perfect d t \<Longrightarrow> length (siblings H d t i) = d"
  by (induction d t arbitrary: i rule: perfect.induct) simp_all

lemma path_root_leaf_at:
  "perfect d t \<Longrightarrow> i < 2 ^ d \<Longrightarrow> path_root H (leaf_at d t i) (siblings H d t i) i = mroot H t"
proof (induction d t arbitrary: i rule: perfect.induct)
  case (2 d l r)
  then show ?case
    by (cases "i < 2 ^ d")
      (simp_all add: path_root_snoc length_siblings)
qed simp_all

text \<open>
  A path that reaches the root of a tree without being the tree's own path exhibits two
  different argument lists with one hash; this finds them, from the root down.
\<close>

fun merkle_collision ::
  "(felt252 list \<Rightarrow> felt252) \<Rightarrow> nat \<Rightarrow> mtree \<Rightarrow> felt252 \<Rightarrow> felt252 list \<Rightarrow> nat \<Rightarrow>
   (felt252 list \<times> felt252 list) option" where
  "merkle_collision H (Suc d) (MNode l r) leaf proof i =
     (let s = last proof; rest = butlast proof;
          j = (if i < 2 ^ d then i else i - 2 ^ d);
          below = path_root H leaf rest j;
          claimed = (if i < 2 ^ d then [below, s] else [s, below]);
          actual = [mroot H l, mroot H r]
      in if claimed \<noteq> actual then Some (claimed, actual)
         else merkle_collision H d (if i < 2 ^ d then l else r) leaf rest j)"
| "merkle_collision H _ _ leaf proof i = None"

lemma merkle_collision_sound:
  assumes "perfect d t" and "length proof = d" and "i < 2 ^ d"
    and "path_root H leaf proof i = mroot H t"
    and "leaf \<noteq> leaf_at d t i \<or> proof \<noteq> siblings H d t i"
  shows "\<exists>xs ys. merkle_collision H d t leaf proof i = Some (xs, ys) \<and> xs \<noteq> ys \<and> H xs = H ys"
  using assms
proof (induction d t arbitrary: "proof" i rule: perfect.induct)
  case (2 d l r)
  define s rest where "s = last proof" and "rest = butlast proof"
  from "2.prems"(2) have path: "proof = rest @ [s]" and rest: "length rest = d"
    by (auto simp: s_def rest_def) (metis append_butlast_last_id list.size(3) nat.distinct(1))
  define j where "j = (if i < 2 ^ d then i else i - 2 ^ d)"
  define sub where "sub = (if i < 2 ^ d then l else r)"
  define claimed where
    "claimed = (if i < 2 ^ d then [path_root H leaf rest j, s] else [s, path_root H leaf rest j])"
  have j: "j < 2 ^ d" using "2.prems"(3) by (auto simp: j_def)
  have top: "H claimed = H [mroot H l, mroot H r]"
    using "2.prems"(3,4) path_root_snoc [OF rest "2.prems"(3), of H leaf s]
    by (auto simp: path claimed_def j_def)
  have step: "merkle_collision H (Suc d) (MNode l r) leaf proof i =
      (if claimed \<noteq> [mroot H l, mroot H r] then Some (claimed, [mroot H l, mroot H r])
       else merkle_collision H d sub leaf rest j)"
    by (simp only: merkle_collision.simps Let_def s_def rest_def j_def sub_def claimed_def)
  show ?case
  proof (cases "claimed = [mroot H l, mroot H r]")
    case False
    with top step show ?thesis by simp
  next
    case True
    then have "path_root H leaf rest j = mroot H sub"
      and s: "s = (if i < 2 ^ d then mroot H r else mroot H l)"
      by (auto simp: claimed_def sub_def split: if_splits)
    moreover have "leaf \<noteq> leaf_at d sub j \<or> rest \<noteq> siblings H d sub j"
      using "2.prems"(5) s by (auto simp: path sub_def j_def split: if_splits)
    moreover have "perfect d sub"
      using "2.prems"(1) by (simp add: sub_def)
    ultimately have "\<exists>xs ys. merkle_collision H d sub leaf rest j = Some (xs, ys) \<and> xs \<noteq> ys \<and> H xs = H ys"
      using "2.IH" rest j by (auto simp: sub_def split: if_splits)
    with True step show ?thesis by simp
  qed
qed auto

section \<open>Properties\<close>

text \<open>C36: the Cairo Fibonacci loop computes the Fibonacci number modulo the prime for every
  \<open>u64\<close> index but the last one, whose counter would overflow; up to the protocol's bound
  363 no reduction takes place and the result is the Fibonacci number itself, and 364 is
  the first index whose number no longer fits the field.\<close>

theorem fibonacci_correct:
  "(\<forall>n. n \<noteq> - 1 \<longrightarrow> compute_fibonacci n = Inr (fib (unat n) mod cairo_prime)) \<and>
   (\<forall>n. unat n \<le> 363 \<longrightarrow> compute_fibonacci n = Inr (fib (unat n)) \<and> fib (unat n) < cairo_prime) \<and>
   cairo_prime \<le> fib 364"
  by (simp add: compute_fibonacci_mod compute_fibonacci_bounded fib_bounded fib_364)

theorem fibonacci_correct_witness:
  "compute_fibonacci 10 = Inr 55 \<and> compute_fibonacci 364 \<noteq> Inr (fib 364)"
proof -
  have "fib 10 = 55" by code_simp
  moreover have "unat (10 :: u64) \<le> 363" and "(364 :: u64) \<noteq> - 1"
    by simp_all
  then have "compute_fibonacci 10 = Inr (fib (unat (10 :: u64)))"
    and "compute_fibonacci 364 = Inr (fib (unat (364 :: u64)) mod cairo_prime)"
    using fibonacci_correct by blast+
  moreover have "fib 364 mod cairo_prime \<noteq> fib 364"
    using fib_364 mod_less_divisor [OF cairo_prime_gt_1(2), of "fib 364"] by linarith
  ultimately show ?thesis by simp
qed

text \<open>C35: Merkle completeness: in a perfect tree of depth at most 32, every leaf with its
  siblings and its index passes the check against the tree's root.\<close>

theorem merkle_membership_complete:
  assumes "perfect d t" and "d \<le> 32" and "unat index < 2 ^ d"
  shows "verify_merkle_proof poseidon (mroot poseidon t)
           (leaf_at d t (unat index)) (siblings poseidon d t (unat index)) index"
  using assms by (simp add: verify_merkle_proof_def compute_root_path_root path_root_leaf_at)

theorem merkle_membership_complete_witness:
  "verify_merkle_proof (\<lambda>xs. sum_list xs + 1) (mroot (\<lambda>xs. sum_list xs + 1) (MNode (MLeaf 7) (MLeaf 9)))
     9 [7] 1"
  using merkle_membership_complete [of 1 "MNode (MLeaf 7) (MLeaf 9)" 1 "\<lambda>xs. sum_list xs + 1"]
  by simp

text \<open>C29: Merkle soundness for paths of the tree's depth. A path of exactly as many siblings as
  a perfect tree has levels, for an index below the number of its leaves, that passes the
  check against the root of the tree, is the path of the leaf at that index, or else
  \<open>merkle_collision\<close> computes from it two different argument lists with the same Poseidon
  hash. The program itself does not fix the depth: a shorter path opens an inner node, so
  whoever relies on membership has to fix the length of the path.\<close>

theorem merkle_membership_sound:
  assumes "perfect d t" and "length proof = d" and "unat index < 2 ^ d"
    and "verify_merkle_proof poseidon (mroot poseidon t) leaf proof index"
  shows "(leaf = leaf_at d t (unat index) \<and> proof = siblings poseidon d t (unat index)) \<or>
         (\<exists>xs ys. merkle_collision poseidon d t leaf proof (unat index) = Some (xs, ys) \<and>
                  xs \<noteq> ys \<and> poseidon xs = poseidon ys)"
  using assms merkle_collision_sound [of d t "proof" "unat index" poseidon leaf]
  by (auto simp: verify_merkle_proof_def compute_root_path_root)

theorem merkle_membership_sound_witness:
  "merkle_collision (\<lambda>xs. sum_list xs + 1) 1 (MNode (MLeaf 7) (MLeaf 9)) 10 [6] 1 = Some ([6, 10], [7, 9])"
proof -
  have "verify_merkle_proof (\<lambda>xs. sum_list xs + 1)
      (mroot (\<lambda>xs. sum_list xs + 1) (MNode (MLeaf 7) (MLeaf 9))) 10 [6] 1"
    by (simp add: verify_merkle_proof_def)
  then show ?thesis
    using merkle_membership_sound [of 1 "MNode (MLeaf 7) (MLeaf 9)" "[6]" 1 "\<lambda>xs. sum_list xs + 1" 10]
    by simp
qed

end
