(* ===== verification/Pipeline.thy ===== *)
theory Pipeline
  imports Statement Cairo
begin

text \<open>
  From a job to its statement across the components: \<open>encode_job\<close> of the prover, the Cairo
  executable, and \<open>decode_statement\<close> of the verifier, which share nothing but the words
  of the calling convention.
\<close>

section \<open>The statement a job must lead to\<close>

fun expected_output :: "(felt252 list \<Rightarrow> felt252) \<Rightarrow> JobInput \<Rightarrow> JobOutput" where
  "expected_output poseidon (InFibonacci n) = OutFibonacci (felt_of_nat (fib (unat n)))"
| "expected_output poseidon (InHashVerify hash preimage) =
     OutHashVerify (poseidon [felt_val preimage] = felt_val hash)"
| "expected_output poseidon (InMerkleProof root leaf path index) =
     OutMerkleProof (path_root poseidon (felt_val leaf) (map felt_val path) (unat index) = felt_val root)"

definition expected_statement :: "(felt252 list \<Rightarrow> felt252) \<Rightarrow> JobInput \<Rightarrow> ProofStatement" where
  "expected_statement poseidon input =
     \<lparr>st_service = JobInput_service input, st_program = CAIRO_PROGRAM,
      st_public_input = public_words input,
      st_public_output = output_words (expected_output poseidon input),
      st_output = expected_output poseidon input\<rparr>"

section \<open>Running the executable on encoded jobs\<close>

lemma deserde_array_serde:
  "length fs < 2 ^ 32 \<Longrightarrow> deserde_array (serde_felts fs @ rest) = Some (map felt_val fs, rest)"
  by (simp add: deserde_array_def serde_felts_def)

lemma serde_array_felts: "serde_felts fs = serde_array (map felt_val fs)"
  by (simp add: serde_felts_def serde_array_def)

lemma cairo_executable_job_words:
  assumes "input_bounds input"
    and "cairo_main poseidon (of_nat (service_id (JobInput_service input)))
           (map felt_val (public_words input)) (map felt_val (private_words input)) = r"
  shows "cairo_executable poseidon (job_words input) =
    and_then r (\<lambda>(service, public_input, output).
      Inr (unat service # serde_array public_input @ serde_array output))"
proof -
  have "length (public_words input) < 2 ^ 32"
    by (cases input) simp_all
  moreover have "length (private_words input) < 2 ^ 32"
    using length_private_words [OF assms(1)] by simp
  from deserde_array_serde [OF this, of "[]"]
  have "deserde_array (serde_felts (private_words input)) =
      Some (map felt_val (private_words input), [])"
    by simp
  moreover have "service_id (JobInput_service input) < 256"
    by (cases "JobInput_service input") simp_all
  ultimately show ?thesis
    using assms(2)
    by (simp add: cairo_executable_def job_words_def deserde_u8_def deserde_array_serde)
qed

lemma cairo_main_job:
  assumes "input_bounds input"
  shows "cairo_main poseidon (of_nat (service_id (JobInput_service input)))
           (map felt_val (public_words input)) (map felt_val (private_words input)) =
    Inr (of_nat (service_id (JobInput_service input)), map felt_val (public_words input),
         map felt_val (output_words (expected_output poseidon input)))"
proof (cases input)
  case (InFibonacci n)
  with assms show ?thesis
    by (simp add: cairo_main_def cairo_services cairo_assert_def felt_to_u64_def constants
        JobInput_service_def compute_fibonacci_bounded word_le_nat_alt)
next
  case (InHashVerify hash preimage)
  then show ?thesis
    by (simp add: cairo_main_def cairo_services cairo_assert_def verify_hash_def
        JobInput_service_def u64_of_bool_def)
next
  case (InMerkleProof root leaf path index)
  with assms have "length path \<le> 32" "unat index < 2 ^ length path"
    by (simp_all add: index_fits_def)
  moreover from this have "index < push_bit (length path) 1"
    by (simp add: word_less_nat_alt unat_push_bit_1 del: push_bit_of_1)
  ultimately show ?thesis
    using InMerkleProof
    by (simp add: cairo_main_def cairo_services cairo_assert_def felt_to_u64_def constants u64_pow2_def
        JobInput_service_def u64_of_bool_def verify_merkle_proof_def compute_root_path_root
        del: push_bit_of_1)
qed

lemma expected_statement_words:
  assumes "input_bounds input"
  shows "cairo_executable poseidon (job_words input) =
           Inr (statement_words (expected_statement poseidon input))"
proof -
  have "unat (of_nat (service_id s) :: u8) = service_id s" for s
    by (cases s) simp_all
  then show ?thesis
    by (simp add: cairo_executable_job_words [OF assms cairo_main_job [OF assms]]
        statement_words_def expected_statement_def serde_array_felts)
qed

lemma expected_statement_ok:
  assumes "input_bounds input" and "job_felts_ok input"
  shows "statement_valid (expected_statement poseidon input)"
    and "statement_felts_ok (expected_statement poseidon input)"
  using assms
  by (cases input;
      auto simp: statement_valid_def statement_felts_ok_def expected_statement_def job_felts_ok_def
        JobInput_service_def JobOutput_service_def fib_bounded)+

section \<open>What a run of the executable means\<close>

text \<open>The public facts a statement claims, in terms of the mathematical functions.\<close>

definition statement_true :: "(felt252 list \<Rightarrow> felt252) \<Rightarrow> ProofStatement \<Rightarrow> bool" where
  "statement_true poseidon s \<longleftrightarrow>
     (case st_output s of
        OutFibonacci result \<Rightarrow>
          \<exists>n. st_public_input s = [n] \<and> felt_val n \<le> 363 \<and> felt_val result = fib (felt_val n)
      | OutHashVerify valid \<Rightarrow>
          \<exists>hash preimage. st_public_input s = [hash] \<and> valid = (poseidon [preimage] = felt_val hash)
      | OutMerkleProof valid \<Rightarrow>
          \<exists>root leaf index path. st_public_input s = [root, leaf, index] \<and>
            length path \<le> 32 \<and> felt_val index < 2 ^ length path \<and>
            valid = (path_root poseidon (felt_val leaf) path (felt_val index) = felt_val root))"

lemma cairo_main_echoes:
  "cairo_main poseidon service public priv = Inr (service', public', out) \<Longrightarrow>
     service' = service \<and> public' = public"
  by (auto simp: cairo_main_def and_then_eq_Inr split: if_splits)

lemma cairo_executable_eq_Inr:
  assumes "cairo_executable poseidon args = Inr ws"
  shows "\<exists>service public priv out.
    cairo_main poseidon service public priv = Inr (service, public, out) \<and>
    ws = unat service # serde_array public @ serde_array out"
proof -
  from assms obtain service public priv service' public' out where
    main: "cairo_main poseidon service public priv = Inr (service', public', out)"
    and "ws = unat service' # serde_array public' @ serde_array out"
    by (auto simp: cairo_executable_def and_then_eq_Inr split: if_splits)
  with cairo_main_echoes [OF main] show ?thesis by blast
qed

lemma serde_array_inject [simp]:
  "serde_array xs @ serde_array ys = serde_array xs' @ serde_array ys' \<longleftrightarrow> xs = xs' \<and> ys = ys'"
  by (auto simp: serde_array_def)

lemma service_id_u8: "service_id s = unat (v :: u8) \<longleftrightarrow> v = of_nat (service_id s)"
proof -
  have "unat (of_nat (service_id s) :: u8) = service_id s"
    by (cases s) simp_all
  then show ?thesis by (metis word_unat_eq_iff)
qed

lemma felt_to_u64_eq_Some: "felt_to_u64 f = Some n \<longleftrightarrow> f = unat n"
  by (auto simp: felt_to_u64_def unat_of_nat)

lemma statement_of_run:
  assumes run: "cairo_executable poseidon args = Inr (statement_words s)"
    and valid: "statement_valid s"
  shows "statement_true poseidon s"
proof -
  from cairo_executable_eq_Inr [OF run] obtain service priv where
    main: "cairo_main poseidon service (map felt_val (st_public_input s)) priv =
      Inr (service, map felt_val (st_public_input s), map felt_val (st_public_output s))"
    and service: "service = of_nat (service_id (st_service s))"
    by (auto simp: statement_words_def serde_array_felts service_id_u8)
  show ?thesis
  proof (cases "st_output s")
    case (OutFibonacci result)
    then have out: "st_public_output s = [result]"
      and srv: "service = 1" and len: "length (st_public_input s) = 1"
      using valid service by (auto simp: statement_valid_def JobOutput_service_def)
    then obtain n where inp: "st_public_input s = [n]"
      by (auto simp: length_Suc_conv)
    with main out srv obtain k where "felt_val n = unat k" "unat k \<le> 363"
      "compute_fibonacci k = Inr (felt_val result)"
      by (auto simp: cairo_main_def cairo_services and_then_eq_Inr cairo_assert_def
          felt_to_u64_eq_Some constants word_le_nat_alt split: if_splits)
    then have "felt_val n \<le> 363" "felt_val result = fib (felt_val n)"
      by (simp_all add: compute_fibonacci_bounded)
    with OutFibonacci inp show ?thesis by (simp add: statement_true_def)
  next
    case (OutHashVerify b)
    then have out: "st_public_output s = [FeltHex_from_u64 (u64_of_bool b)]"
      and srv: "service = 2" and len: "length (st_public_input s) = 1"
      using valid service by (auto simp: statement_valid_def JobOutput_service_def)
    then obtain hash where inp: "st_public_input s = [hash]"
      by (auto simp: length_Suc_conv)
    with main out srv have "b = (poseidon [priv ! 0] = felt_val hash)"
      by (cases b)
        (auto simp: cairo_main_def cairo_services and_then_eq_Inr cairo_assert_def
          verify_hash_def u64_of_bool_def split: if_splits)
    with OutHashVerify inp show ?thesis by (auto simp: statement_true_def)
  next
    case (OutMerkleProof b)
    then have out: "st_public_output s = [FeltHex_from_u64 (u64_of_bool b)]"
      and srv: "service = 3" and len: "length (st_public_input s) = 3"
      using valid service by (auto simp: statement_valid_def JobOutput_service_def)
    then obtain root leaf index where inp: "st_public_input s = [root, leaf, index]"
      by (auto simp: numeral_3_eq_3 length_Suc_conv)
    with main srv obtain idx where idx: "felt_to_u64 (felt_val index) = Some idx"
      by (auto simp: cairo_main_def cairo_services and_then_eq_Inr)
    have "length priv \<le> 32" "idx < push_bit (length priv) 1"
      "b = (path_root poseidon (felt_val leaf) priv (unat idx) = felt_val root)"
      using main inp out srv idx
      by (cases b;
          auto simp: cairo_main_def cairo_services and_then_eq_Inr cairo_assert_def constants
            u64_pow2_def u64_of_bool_def verify_merkle_proof_def compute_root_path_root
            simp del: push_bit_of_1 split: if_splits)+
    moreover have "felt_val index = unat idx"
      using idx by (simp add: felt_to_u64_eq_Some)
    moreover from calculation have "unat idx < 2 ^ length priv"
      by (simp add: word_less_nat_alt unat_push_bit_1 del: push_bit_of_1)
    ultimately show ?thesis
      using OutMerkleProof inp by (auto simp: statement_true_def)
  qed
qed

end
