(* ===== verification/Stark.thy ===== *)
theory Stark
  imports Pipeline Prover
begin

text \<open>
  What the program relies on the proof system for, as two interfaces over the libraries of
  \<open>Verifier\<close> and \<open>Prover\<close>: soundness (\<open>sound_stark\<close>) and completeness (\<open>complete_prover\<close>),
  with what they give of \<open>verify_serialized\<close> and \<open>prove_job\<close>. A proof system that verifies by
  running the program again satisfies both.
\<close>

section \<open>Soundness\<close>

text \<open>
  When STWO accepts a proof whose program hash is the trusted one, the output it reads is the
  output of some run of the program.
\<close>

locale sound_stark = stwo_codec lib fe_val
  for lib :: "('fe, 'proof, 'memory, 'variant, 'x) stwo_lib_scheme" and fe_val +
  fixes poseidon :: "felt252 list \<Rightarrow> felt252" and trusted_hash :: string
  assumes accepted_run:
    "stark_accepts lib json out \<Longrightarrow>
       FeltHex trusted_hash = felt_of_nat (fe_val (vo_program_hash out)) \<Longrightarrow>
       \<exists>args. cairo_executable poseidon args = Inr (map fe_val (vo_output out))"
begin

lemma verified_run:
  assumes "verify_serialized lib json trusted_hash s = Inr ()"
  shows "statement_true poseidon s"
proof -
  from assms obtain out where "stark_accepts lib json out"
    and "FeltHex trusted_hash = felt_of_nat (fe_val (vo_program_hash out))"
    and words: "map fe_val (vo_output out) = statement_words s" and "statement_valid s"
    by (auto simp: verify_serialized_iff)
  then obtain args where "cairo_executable poseidon args = Inr (statement_words s)"
    using accepted_run by (metis words)
  then show ?thesis
    using \<open>statement_valid s\<close> by (rule statement_of_run)
qed

end

section \<open>Completeness\<close>

text \<open>
  Executing the program at \<open>executable\<close> on arguments for which it does not panic gives a
  prover input that \<open>runs\<close> to its output; one of the eight salts proves such an input; and
  every proof of it is serialised to bytes that the verifier accepts, with the trusted
  program hash and that output.
\<close>

locale complete_prover = stwo_codec lib fe_val + codec: felt252_codec "felt252_ops lib" f_val
  for lib :: "('fe, 'proof, 'memory, 'variant, 'hint, 'builtin, 'f, 'hints, 'table, 'program, 'runner, 'input,
      'file, 'cproof, 'x) prover_lib_scheme" and fe_val and f_val +
  fixes poseidon :: "felt252 list \<Rightarrow> felt252" and executable trusted_hash :: string
    and runs :: "'input \<Rightarrow> felt252 list \<Rightarrow> bool"
  assumes executes:
    "cairo_executable poseidon (map f_val args) = Inr words \<Longrightarrow> length args \<le> 64 \<Longrightarrow>
       (\<forall>a \<in> set args. f_val a < cairo_prime) \<Longrightarrow> (\<forall>w \<in> set words. w < cairo_prime) \<Longrightarrow>
       \<exists>prover_input. execute_and_adapt (exec_ops lib) executable args = Inr prover_input \<and> runs prover_input words"
    and proves:
    "runs prover_input words \<Longrightarrow> \<exists>salt < 8. \<exists>proof. salt_outcome lib prover_input salt = Inr proof"
    and verifies:
    "runs prover_input words \<Longrightarrow> salt_outcome lib prover_input salt = Inr proof \<Longrightarrow>
       \<exists>bs out. proof_to_vec lib (proof_from_cairo lib proof) = Inr bs \<and> bs \<noteq> [] \<and> stark_accepts lib bs out \<and>
         FeltHex trusted_hash = felt_of_nat (fe_val (vo_program_hash out)) \<and> map fe_val (vo_output out) = words"

lemma salt_retries_eq_Inr:
  fixes salt :: u32
  assumes "salt < 8" and "salt_outcome lib input salt = Inr proof"
  shows "\<exists>salt' proof'. salt_outcome lib input salt' = Inr proof' \<and> prove_with_salt_retries lib input = Inr proof'"
proof -
  let ?salts = "[0, 1, 2, 3, 4, 5, 6, 7] :: u32 list"
  let ?found = "find (\<lambda>s. \<exists>proof. salt_outcome lib input s = Inr proof) ?salts"
  have "unat salt < 8" using assms(1) by (simp add: word_less_nat_alt)
  then have "salt \<in> of_nat ` set [0..<8]"
    by (intro image_eqI [of _ _ "unat salt"]) simp_all
  also have "of_nat ` set [0..<8] = set ?salts"
    unfolding set_map [symmetric] by (simp add: upt_rec)
  finally have "salt \<in> set ?salts" .
  with assms(2) have "?found \<noteq> None"
    unfolding find_None_iff by blast
  then obtain s where "?found = Some s"
    by blast
  moreover from this have "\<exists>proof. salt_outcome lib input s = Inr proof"
    unfolding find_Some_iff by blast
  ultimately show ?thesis
    unfolding prove_with_salt_retries_def by (subst salt_loop_eq) (auto simp del: find.simps)
qed

lemma job_words_small:
  assumes "input_bounds input" and "job_felts_ok input"
  shows "length (job_words input) \<le> 64" and "\<forall>w \<in> set (job_words input). w < cairo_prime"
proof -
  have "length (public_words input) \<le> 3" "length (private_words input) \<le> 32"
    using length_private_words [OF assms(1)] by (cases input; simp)+
  moreover from this show "length (job_words input) \<le> 64"
    by (simp add: job_words_def serde_felts_def)
  moreover have "service_id s < cairo_prime" for s
    by (cases s) (simp_all add: cairo_prime_def)
  moreover have "n \<le> 32 \<Longrightarrow> n < cairo_prime" for n :: nat
    by (simp add: cairo_prime_def)
  ultimately show "\<forall>w \<in> set (job_words input). w < cairo_prime"
    using assms(2) by (auto simp: job_words_def serde_felts_def job_felts_ok_def list_all_iff felt_val_less)
qed

lemma expected_words_small:
  assumes "input_bounds input" and "job_felts_ok input"
  shows "\<forall>w \<in> set (statement_words (expected_statement poseidon input)). w < cairo_prime"
proof -
  have "length (public_words input) \<le> 3"
    "length (output_words (expected_output poseidon input)) \<le> 3"
    by (cases input; simp)+
  moreover have "service_id s < cairo_prime" for s
    by (cases s) (simp_all add: cairo_prime_def)
  moreover have "n \<le> 3 \<Longrightarrow> n < cairo_prime" for n :: nat
    by (simp add: cairo_prime_def)
  ultimately show ?thesis
    using expected_statement_ok(2) [OF assms, of poseidon]
    by (auto simp: statement_words_def serde_felts_def statement_felts_ok_def expected_statement_def
        list_all_iff felt_val_less)
qed

context complete_prover
begin

text \<open>An honest job is proved, with the statement it must have, whether the hash is pinned or
  not.\<close>

lemma inner_proved:
  assumes "input_bounds input" and "job_felts_ok input" and "expected \<in> {None, Some (FeltHex trusted_hash)}"
  shows "\<exists>bs. prove_job_inner lib clock executable input expected =
      Inr \<lparr>va_proof_bytes = bs, va_statement = expected_statement poseidon input,
           va_program_hash = FeltHex trusted_hash,
           va_metrics = \<lparr>execution_ms = elapsed_ms (fst clock), proving_ms = elapsed_ms (fst (snd clock)),
                         verification_ms = elapsed_ms (snd (snd clock))\<rparr>\<rparr> \<and>
    bs \<noteq> [] \<and> length bs \<le> 33554432"
proof -
  let ?s = "expected_statement poseidon input"
  obtain args where args: "encode_job (felt252_ops lib) input = Inr args" "map f_val args = job_words input"
    using codec.encode_job_ok [OF assms(1,2)] by blast
  have len: "length args = length (job_words input)"
    using args(2) by (metis length_map)
  have small: "length args \<le> 64" "\<forall>a \<in> set args. f_val a < cairo_prime"
    using job_words_small [OF assms(1,2)] unfolding len by (simp_all add: args(2) [symmetric])
  have "cairo_executable poseidon (map f_val args) = Inr (statement_words ?s)"
    unfolding args(2) by (rule expected_statement_words [OF assms(1)])
  from executes [OF this small expected_words_small [OF assms(1,2)]]
  obtain pi where pi: "execute_and_adapt (exec_ops lib) executable args = Inr pi" "runs pi (statement_words ?s)"
    by blast
  then obtain salt made where made: "salt_outcome lib pi salt = Inr made"
    and retried: "prove_with_salt_retries lib pi = Inr made"
    using proves [OF pi(2)] salt_retries_eq_Inr by metis
  obtain bs out where bs: "proof_to_vec lib (proof_from_cairo lib made) = Inr bs" "bs \<noteq> []"
    and accepted: "stark_accepts lib bs out"
    and hash: "FeltHex trusted_hash = felt_of_nat (fe_val (vo_program_hash out))"
    and words: "map fe_val (vo_output out) = statement_words ?s"
    using verifies [OF pi(2) made] by blast
  have "verify_and_decode lib bs = Inr \<lparr>vp_program_hash = FeltHex trusted_hash, vp_statement = ?s\<rparr>"
    unfolding verify_and_decode_iff
    by (rule exI [of _ out]) (simp add: accepted words expected_statement_ok [OF assms(1,2)] hash)
  moreover have "verify_serialized lib bs trusted_hash ?s = Inr ()"
    unfolding verify_serialized_iff
    by (rule exI [of _ out]) (simp add: accepted words expected_statement_ok [OF assms(1,2)] hash)
  moreover have "length bs \<le> unat MAX_PROOF_BYTES"
    using accepted by (simp add: stark_accepts_def constants)
  ultimately show ?thesis
    using bs assms(3)
    by (intro exI [of _ bs], cases clock)
      (auto simp: prove_job_inner_def args(1) pi(1) retried constants)
qed

lemma job_proved:
  assumes "input_bounds input" and "job_felts_ok input"
    and "engine_executable engine = executable" and "as_str (expected_program_hash engine) = trusted_hash"
  shows "\<exists>bs. prove_job lib clock engine input =
      Inr \<lparr>va_proof_bytes = bs, va_statement = expected_statement poseidon input,
           va_program_hash = expected_program_hash engine,
           va_metrics = \<lparr>execution_ms = elapsed_ms (fst clock), proving_ms = elapsed_ms (fst (snd clock)),
                         verification_ms = elapsed_ms (snd (snd clock))\<rparr>\<rparr> \<and>
    bs \<noteq> [] \<and> length bs \<le> 33554432"
proof -
  have "FeltHex trusted_hash = expected_program_hash engine"
    using assms(4) by (cases "expected_program_hash engine") auto
  then show ?thesis
    using inner_proved [OF assms(1,2), of "Some (FeltHex trusted_hash)" clock] assms(3) by (simp add: prove_job_def)
qed

end

section \<open>A proof system that runs the program again\<close>

text \<open>
  A proof is the program hash and the arguments of a run, each word in 32 bytes; verifying it
  runs the program again, and proving copies the arguments that executing it collects.
\<close>

fun words_of_bytes :: "bytes \<Rightarrow> nat list" where
  "words_of_bytes [] = []"
| "words_of_bytes (b # bs) = be_val (take 32 (b # bs)) # words_of_bytes (drop 31 bs)"

definition bytes_of_words :: "nat list \<Rightarrow> bytes" where
  "bytes_of_words ws = concat (map (be_bytes 32) ws)"

lemma bytes_of_words_simps [simp]:
  "bytes_of_words [] = []" "bytes_of_words (w # ws) = be_bytes 32 w @ bytes_of_words ws"
  by (simp_all add: bytes_of_words_def)

lemma length_bytes_of_words: "length (bytes_of_words ws) = 32 * length ws"
  by (induction ws) simp_all

lemma words_of_bytes_append: "length word = 32 \<Longrightarrow> words_of_bytes (word @ bs) = be_val word # words_of_bytes bs"
  by (cases word) simp_all

lemma words_of_bytes_of_words: "\<forall>w \<in> set ws. w < cairo_prime \<Longrightarrow> words_of_bytes (bytes_of_words ws) = ws"
proof (induction ws)
  case (Cons w ws)
  then have "w < 256 ^ 32"
    using cairo_prime_less_256_32(1) by force
  with Cons show ?case
    by (simp add: words_of_bytes_append be_val_be_bytes)
qed simp

definition rerun_stwo ::
  "(felt252 list \<Rightarrow> felt252) \<Rightarrow> (nat, nat list, nat VerificationOutput unwind, unit) stwo_lib" where
  "rerun_stwo poseidon =
     \<lparr>to_bytes_be = to_bytes_be (nat_field_lib 64), hex_encode = hex_encode (nat_field_lib 64),
      usize_bits = 64,
      proof_from_slice = (\<lambda>bs. if bs = [] then Inl ''EOF while parsing'' else Inr (words_of_bytes bs)),
      stark_config = (\<lambda>_. required_pcs_config),
      preprocessed_trace_variant = (\<lambda>_. ()),
      canonical_variant = (),
      verify_cairo = (\<lambda>ws. case cairo_executable poseidon (tl ws) of
          Inl _ \<Rightarrow> Panicked
        | Inr out \<Rightarrow> Returned (if list_all (\<lambda>w. w < cairo_prime) out then Inr () else Inl ''overflow'')),
      public_memory = (\<lambda>ws. case cairo_executable poseidon (tl ws) of
          Inl _ \<Rightarrow> Panicked
        | Inr out \<Rightarrow> Returned \<lparr>vo_program_hash = hd ws, vo_output = out\<rparr>),
      get_verification_output = id\<rparr>"

text \<open>The executor collects the arguments behind the program hash, here 9.\<close>

definition rerun_executor :: "(unit, unit, nat, unit, unit, unit, nat list, nat list, string) exec_lib" where
  "rerun_executor =
     \<lparr>file_open = Inr,
      executable_from_reader = (\<lambda>_. Inr \<lparr>exe_bytecode = [], exe_hints = [],
        exe_entrypoints = [\<lparr>ep_standalone = True, ep_builtins = [()], ep_offset = 0\<rparr>]\<rparr>),
      felt_from_bigint = nat,
      build_hints_dict = (\<lambda>_. ((), ())),
      new_for_proof = (\<lambda>program. Inr ()),
      cairo_run = (\<lambda>_ cfg hints. Inr (9 # concat (concat (hp_user_args hints)))),
      adapt_trace = Inr,
      set_segment_context = (\<lambda>_ input. input)\<rparr>"

definition rerun_prover ::
  "(felt252 list \<Rightarrow> felt252) \<Rightarrow> (nat, nat list, nat VerificationOutput unwind, unit, unit, unit, nat, unit, unit, unit,
     nat list, nat list, string, nat list) prover_lib" where
  "rerun_prover poseidon = stwo_lib.extend (rerun_stwo poseidon)
     (prover_lib.fields nat_felt252_lib rerun_executor (\<lambda>input params. Returned (Inr input)) (\<lambda>ws. ws)
       (\<lambda>ws. Inr (bytes_of_words ws)))"

lemmas rerun_prover_simps =
  rerun_prover_def rerun_stwo_def stwo_lib.defs prover_lib.defs

lemma rerun_codec: "stwo_codec (rerun_prover poseidon) (\<lambda>x. x mod cairo_prime)"
  by unfold_locales (simp_all add: rerun_prover_simps nat_field_lib_def cairo_prime_def)

lemma rerun_accepts_iff:
  "stark_accepts (rerun_prover poseidon) json out \<longleftrightarrow>
     json \<noteq> [] \<and> length json \<le> 33554432 \<and> vo_program_hash out = hd (words_of_bytes json) \<and>
     cairo_executable poseidon (tl (words_of_bytes json)) = Inr (vo_output out) \<and>
     (\<forall>w \<in> set (vo_output out). w < cairo_prime)"
  by (cases out) (auto simp: stark_accepts_def rerun_prover_simps list_all_iff split: sum.splits if_splits)

lemma rerun_sound: "sound_stark (rerun_prover poseidon) (\<lambda>x. x mod cairo_prime) poseidon h"
proof (intro sound_stark.intro rerun_codec sound_stark_axioms.intro)
  fix json and out :: "nat VerificationOutput"
  assume "stark_accepts (rerun_prover poseidon) json out"
  then have "cairo_executable poseidon (tl (words_of_bytes json)) = Inr (vo_output out)"
    and "map (\<lambda>x. x mod cairo_prime) (vo_output out) = vo_output out"
    by (auto simp: rerun_accepts_iff intro!: map_idI)
  then show "\<exists>args. cairo_executable poseidon args = Inr (map (\<lambda>x. x mod cairo_prime) (vo_output out))"
    by metis
qed

definition rerun_runs :: "(felt252 list \<Rightarrow> felt252) \<Rightarrow> nat list \<Rightarrow> nat list \<Rightarrow> bool" where
  "rerun_runs poseidon ws out \<longleftrightarrow>
     ws \<noteq> [] \<and> hd ws = 9 \<and> length ws \<le> 65 \<and> list_all (\<lambda>w. w < cairo_prime) ws \<and>
     cairo_executable poseidon (tl ws) = Inr out \<and> list_all (\<lambda>w. w < cairo_prime) out"

lemma rerun_complete:
  "complete_prover (rerun_prover poseidon) (\<lambda>x. x mod cairo_prime) id poseidon executable
     (as_str (FeltHex_from_u64 9)) (rerun_runs poseidon)"
proof (intro complete_prover.intro rerun_codec complete_prover_axioms.intro)
  show "felt252_codec (felt252_ops (rerun_prover poseidon)) id"
    using nat_felt252.felt252_codec_axioms by (simp add: rerun_prover_simps)
  show "\<exists>prover_input. execute_and_adapt (exec_ops (rerun_prover poseidon)) executable args = Inr prover_input \<and>
      rerun_runs poseidon prover_input words"
    if "cairo_executable poseidon (map id args) = Inr words" and "length args \<le> 64"
      and "\<forall>a \<in> set args. id a < cairo_prime" and "\<forall>w \<in> set words. w < cairo_prime" for args words
    using that
    by (simp add: execute_and_adapt_def program_and_hints_def rerun_executor_def rerun_runs_def
        list_all_iff cairo_prime_def rerun_prover_simps)
  show "\<exists>salt < 8. \<exists>proof. salt_outcome (rerun_prover poseidon) prover_input salt = Inr proof"
    if "rerun_runs poseidon prover_input words" for prover_input words
    by (intro exI [of _ 0]) (simp add: salt_outcome_def rerun_prover_simps)
  show "\<exists>bs out. proof_to_vec (rerun_prover poseidon) (proof_from_cairo (rerun_prover poseidon) made) = Inr bs \<and>
      bs \<noteq> [] \<and> stark_accepts (rerun_prover poseidon) bs out \<and>
      FeltHex (as_str (FeltHex_from_u64 9)) = felt_of_nat (vo_program_hash out mod cairo_prime) \<and>
      map (\<lambda>x. x mod cairo_prime) (vo_output out) = words"
    if runs: "rerun_runs poseidon prover_input words"
      and made: "salt_outcome (rerun_prover poseidon) prover_input salt = Inr made"
    for prover_input words salt made
  proof -
    have made: "made = prover_input"
      using made by (simp add: salt_outcome_def rerun_prover_simps)
    have bytes: "bytes_of_words prover_input \<noteq> []" "length (bytes_of_words prover_input) \<le> 33554432"
      using runs by (auto simp: rerun_runs_def length_bytes_of_words simp flip: length_greater_0_conv)
    have "map (\<lambda>x. x mod cairo_prime) words = words"
      using runs by (auto simp: rerun_runs_def list_all_iff intro!: map_idI)
    moreover have "words_of_bytes (bytes_of_words prover_input) = prover_input"
      using runs by (intro words_of_bytes_of_words) (simp add: rerun_runs_def list_all_iff)
    moreover have "FeltHex (as_str (FeltHex_from_u64 9)) = felt_of_nat (9 mod cairo_prime)"
      by (simp add: FeltHex_from_u64_eq cairo_prime_def)
    ultimately show ?thesis
      using runs bytes unfolding rerun_accepts_iff made
      by (intro exI [of _ "bytes_of_words prover_input"] exI [of _ "\<lparr>vo_program_hash = 9, vo_output = words\<rparr>"])
        (simp add: rerun_runs_def list_all_iff rerun_prover_def stwo_lib.defs prover_lib.defs)
  qed
qed

interpretation rerun: sound_stark "rerun_prover poseidon" "\<lambda>x. x mod cairo_prime" poseidon h
  for poseidon h
  by (rule rerun_sound)

interpretation rerun_proves: complete_prover "rerun_prover poseidon" "\<lambda>x. x mod cairo_prime" id poseidon executable
    "as_str (FeltHex_from_u64 9)" "rerun_runs poseidon"
  for poseidon executable
  by (rule rerun_complete)

end
