(* ===== verification/Router.thy ===== *)
theory Router
  imports Processor Json
begin

text \<open>
  The HTTP application of \<open>apps/provider/src/artifacts.rs\<close>: the health route, the two proof
  routes and their CORS policy, and the way of a proof from the processor through the store
  to a client that follows the descriptor of the result.

  The application is the value the source hands to \<open>axum\<close>: a table of routes and a policy.
  How \<open>axum\<close> answers a request from it is the parameter \<open>respond\<close>, with the documented
  behaviour the code relies on as the laws of the locale \<open>axum\<close>.
\<close>

section \<open>Definitions\<close>

datatype Method = Get | Head | Other string

text \<open>What a handler returns: a response, or a value that is sent as JSON.\<close>

datatype answer = A_Response Response | A_Json json

record CorsLayer =
  cors_any_origin :: bool
  cors_methods :: "Method list"
  cors_max_age_secs :: nat

text \<open>A route has a pattern and, per method, a handler of the captured segment.\<close>

record Router =
  ro_routes :: "(string \<times> (Method \<times> (string \<Rightarrow> answer)) list) list"
  ro_cors :: CorsLayer

definition health :: json where
  "health = JObj [(''status'', JStr ''ok''), (''protocol'', JStr SOUL_WIRE_PROTOCOL)]"

definition artifact_router ::
  "(string \<Rightarrow> string option) \<Rightarrow> (string \<Rightarrow> (ArtifactError, bytes option) result) \<Rightarrow> Router" where
  "artifact_router header_from_str get =
     \<lparr>ro_routes =
        [(''/healthz'', [(Get, \<lambda>_. A_Json health)]),
         (''/v1/proofs/{artifact}'',
          [(Get, \<lambda>artifact. A_Response (get_artifact header_from_str get artifact)),
           (Head, \<lambda>artifact. A_Response (head_artifact header_from_str get artifact))])],
      ro_cors = \<lparr>cors_any_origin = True, cors_methods = [Get, Head], cors_max_age_secs = 86400\<rparr>\<rparr>"

section \<open>The router library\<close>

text \<open>A path segment that a capture takes as it is: not empty, no slash, and nothing that
  percent-decoding would change.\<close>

definition plain_segment :: "string \<Rightarrow> bool" where
  "plain_segment seg \<longleftrightarrow> seg \<noteq> [] \<and> list_all (\<lambda>c. c \<noteq> CHR ''/'' \<and> c \<noteq> CHR ''%'') seg"

text \<open>A response that went through the CORS layer of any origin: status, body and the
  headers it does not own are those of the handler.\<close>

definition with_cors :: "Response \<Rightarrow> Response \<Rightarrow> bool" where
  "with_cors handled sent \<longleftrightarrow>
     status sent = status handled \<and> body sent = body handled \<and>
     headers sent ''access-control-allow-origin'' = Some ''*'' \<and>
     (\<forall>name. name \<noteq> ''access-control-allow-origin'' \<and> name \<noteq> ''vary'' \<longrightarrow>
        headers sent name = headers handled name)"

text \<open>The routes without a capture come first.\<close>

definition static_route :: "Router \<Rightarrow> string \<Rightarrow> (Method \<times> (string \<Rightarrow> answer)) list option" where
  "static_route r path = map_of (filter (\<lambda>(pattern, _). CHR ''{'' \<notin> set pattern) (ro_routes r)) path"

locale axum =
  fixes respond :: "Router \<Rightarrow> Method \<Rightarrow> string \<Rightarrow> Response"
  assumes captured:
    "distinct (map fst (ro_routes r)) \<Longrightarrow> cors_any_origin (ro_cors r) \<Longrightarrow>
     (prefix @ ''/{artifact}'', hs) \<in> set (ro_routes r) \<Longrightarrow> CHR ''{'' \<notin> set prefix \<Longrightarrow>
     plain_segment seg \<Longrightarrow> static_route r (prefix @ ''/'' @ seg) = None \<Longrightarrow>
     map_of hs m = Some h \<Longrightarrow> h seg = A_Response handled \<Longrightarrow>
       with_cors handled (respond r m (prefix @ ''/'' @ seg))"
begin

lemma proof_routes:
  assumes "plain_segment seg"
  shows "with_cors (get_artifact hfs get seg) (respond (artifact_router hfs get) Get (''/v1/proofs/'' @ seg))"
    and "with_cors (head_artifact hfs get seg) (respond (artifact_router hfs get) Head (''/v1/proofs/'' @ seg))"
  using assms
  by (auto intro!: captured [of _ "''/v1/proofs''", simplified] simp: artifact_router_def static_route_def)

end

lemma plain_sha256_segment:
  assumes "is_sha256 sha"
  shows "plain_segment (sha @ ''.json'')"
proof -
  have "c \<noteq> CHR ''/'' \<and> c \<noteq> CHR ''%''" if "c \<in> set sha" for c
    using assms that by (auto simp: is_sha256_def list_all_iff lower_hex_byte_iff)
  then show ?thesis by (auto simp: plain_segment_def list_all_iff)
qed

text \<open>Whatever the store holds under a digest, a client that follows the path gets, and HEAD
  tells of it.\<close>

lemma content_answered:
  assumes "artifact_store H store_ok put get content healthy" and "store_ok st"
    and "content st sha = Some bs" and sha: "is_sha256 sha" and "healthy g" and "axum respond"
  shows "with_cors (immutable_response header_from_str sha bs False)
    (respond (artifact_router header_from_str (get g st)) Get (''/v1/proofs/'' @ sha @ ''.json''))"
    and "with_cors (immutable_response header_from_str sha bs True)
    (respond (artifact_router header_from_str (get g st)) Head (''/v1/proofs/'' @ sha @ ''.json''))"
proof -
  have "get g st sha = Inr (Some bs)"
    using artifact_store.get_complete [OF assms(1-5)] .
  then have "get_artifact header_from_str (get g st) (sha @ ''.json'') =
      immutable_response header_from_str sha bs False"
    "head_artifact header_from_str (get g st) (sha @ ''.json'') = immutable_response header_from_str sha bs True"
    using sha by (simp_all add: get_artifact_def head_artifact_def)
  with axum.proof_routes [OF assms(6) plain_sha256_segment [OF sha], of header_from_str "get g st"]
  show "with_cors (immutable_response header_from_str sha bs False)
    (respond (artifact_router header_from_str (get g st)) Get (''/v1/proofs/'' @ sha @ ''.json''))"
    and "with_cors (immutable_response header_from_str sha bs True)
    (respond (artifact_router header_from_str (get g st)) Head (''/v1/proofs/'' @ sha @ ''.json''))"
    by simp_all
qed

lemmas content_served = content_answered(1)

lemma same_headers:
  assumes "with_cors (immutable_response h sha bs False) sent" and "with_cors (immutable_response h sha bs True) head"
    and "name \<noteq> ''vary''"
  shows "headers head name = headers sent name"
  using assms by (cases "name = ''access-control-allow-origin''") (simp_all add: with_cors_def immutable_response_fields(4))

text \<open>
  Following the URL of a descriptor. The application is mounted at the public base URL, whose
  path ends in a slash and which has no query and no fragment (\<open>validate_public_base_url\<close>), so
  it sees of a URL below the base what comes after it. For such a base the resolution of a
  relative path is to append it, which \<open>joins_below\<close> states of the \<open>url\<close> crate for the paths
  of proofs.
\<close>

definition request_path :: "Url \<Rightarrow> string \<Rightarrow> string option" where
  "request_path base url = map_option (\<lambda>rest. ''/'' @ rest) (strip_prefix (url_serialization base) url)"

definition joins_below :: "url_lib \<Rightarrow> Url \<Rightarrow> bool" where
  "joins_below ul base \<longleftrightarrow>
     (\<forall>sha url. is_sha256 sha \<longrightarrow> ul_join ul base (''v1/proofs/'' @ sha @ ''.json'') = Some url \<longrightarrow>
        url_serialization url = url_serialization base @ ''v1/proofs/'' @ sha @ ''.json'')"

lemma request_path_of_descriptor:
  assumes "joins_below ul base" and "describe_result ul base request a stored = Inr (Success protocol rid s d m)"
    and "is_sha256 (sha256 stored)"
  shows "request_path base (pd_url d) = Some (''/v1/proofs/'' @ pd_sha256 d @ ''.json'')"
proof -
  obtain url where "ul_join ul base (''v1/proofs/'' @ sha256 stored @ ''.json'') = Some url"
    and "pd_url d = url_serialization url" "pd_sha256 d = sha256 stored"
    using assms(2) by (auto simp: describe_result_eq_Inr)
  with assms(1,3) have "strip_prefix (url_serialization base) (pd_url d) = Some (''v1/proofs/'' @ pd_sha256 d @ ''.json'')"
    by (simp add: joins_below_def)
  then show ?thesis by (simp add: request_path_def del: strip_prefix_eq_Some)
qed

section \<open>A router\<close>

text \<open>An instance that serves the routes of a table with one capture at the end.\<close>

definition add_cors :: "CorsLayer \<Rightarrow> Response \<Rightarrow> Response" where
  "add_cors cors response =
     (if cors_any_origin cors
      then response\<lparr>headers := (headers response)(''access-control-allow-origin'' \<mapsto> ''*'')\<rparr> else response)"

definition capture :: "string \<Rightarrow> string \<Rightarrow> string option" where
  "capture pattern path =
     (case strip_suffix ''/{artifact}'' pattern of
        None \<Rightarrow> None
      | Some prefix \<Rightarrow>
          if CHR ''{'' \<in> set prefix then None else
          (case strip_prefix (prefix @ ''/'') path of
             None \<Rightarrow> None
           | Some seg \<Rightarrow> if plain_segment seg then Some seg else None))"

definition serve_route :: "Router \<Rightarrow> (Method \<times> (string \<Rightarrow> answer)) list \<Rightarrow> Method \<Rightarrow> string \<Rightarrow> Response" where
  "serve_route r hs m seg =
     add_cors (ro_cors r)
       (case map_of hs m of
          None \<Rightarrow> empty_response 405
        | Some h \<Rightarrow>
            (case h seg of
               A_Response response \<Rightarrow> response
             | A_Json _ \<Rightarrow> (empty_response 200)\<lparr>headers := [''content-type'' \<mapsto> ''application/json'']\<rparr>))"

definition table_router :: "Router \<Rightarrow> Method \<Rightarrow> string \<Rightarrow> Response" where
  "table_router r m path =
     (case static_route r path of
        Some hs \<Rightarrow> serve_route r hs m []
      | None \<Rightarrow>
          (case find (\<lambda>(pattern, _). capture pattern path \<noteq> None) (ro_routes r) of
             None \<Rightarrow> add_cors (ro_cors r) (empty_response 404)
           | Some (pattern, hs) \<Rightarrow> serve_route r hs m (the (capture pattern path))))"

lemma capture_eq_Some:
  "capture pattern path = Some seg \<longleftrightarrow>
     (\<exists>prefix. pattern = prefix @ ''/{artifact}'' \<and> CHR ''{'' \<notin> set prefix \<and> path = prefix @ ''/'' @ seg \<and> plain_segment seg)"
proof -
  have strip: "strip_suffix ''/{artifact}'' (prefix @ ''/{artifact}'') = Some prefix"
    "strip_prefix (prefix @ ''/'') (prefix @ CHR ''/'' # seg) = Some seg" for prefix
    by simp_all
  show ?thesis
    by (auto simp: capture_def strip simp del: strip_suffix_eq_Some strip_prefix_eq_Some
        split: option.splits if_splits) (auto simp: capture_def)
qed

lemma capture_pattern:
  assumes "capture pattern path = Some seg" and "capture pattern' path = Some seg'"
  shows "pattern = pattern' \<and> seg = seg'"
proof -
  obtain prefix prefix' where p: "pattern = prefix @ ''/{artifact}''" "pattern' = prefix' @ ''/{artifact}''"
    and path: "path = prefix @ CHR ''/'' # seg" "path = prefix' @ CHR ''/'' # seg'"
    and "plain_segment seg" "plain_segment seg'"
    using assms by (auto simp: capture_eq_Some)
  then have "CHR ''/'' \<notin> set seg" "CHR ''/'' \<notin> set seg'"
    by (auto simp: plain_segment_def list_all_iff)
  with path last_field_inject have "seg = seg'" by metis
  with p path show ?thesis by simp
qed

lemma table_router_axum: "axum table_router"
proof
  fix r prefix hs seg m h handled
  assume distinct: "distinct (map fst (ro_routes r))" and cors: "cors_any_origin (ro_cors r)"
    and route: "(prefix @ ''/{artifact}'', hs) \<in> set (ro_routes r)" and "CHR ''{'' \<notin> set prefix"
    and "plain_segment seg" and static: "static_route r (prefix @ ''/'' @ seg) = None"
    and handler: "map_of hs m = Some h" "h seg = A_Response handled"
  let ?path = "prefix @ ''/'' @ seg"
  have here: "capture (prefix @ ''/{artifact}'') ?path = Some seg"
    using \<open>CHR ''{'' \<notin> set prefix\<close> \<open>plain_segment seg\<close> by (simp add: capture_eq_Some)
  obtain pattern hs' where found: "find (\<lambda>(pattern, _). capture pattern ?path \<noteq> None) (ro_routes r) = Some (pattern, hs')"
    using route here by (cases "find (\<lambda>(pattern, _). capture pattern ?path \<noteq> None) (ro_routes r)")
      (auto simp: find_None_iff)
  then have "(pattern, hs') \<in> set (ro_routes r)" "capture pattern ?path \<noteq> None"
    by (auto simp: find_Some_iff in_set_conv_nth)
  then have "pattern = prefix @ ''/{artifact}''" "hs' = hs"
    using capture_pattern [OF here] distinct route by (fastforce dest: eq_key_imp_eq_value)+
  then have "table_router r m ?path = add_cors (ro_cors r) handled"
    unfolding table_router_def static found by (simp add: here [simplified] serve_route_def handler)
  then show "with_cors handled (table_router r m ?path)"
    by (simp add: with_cors_def add_cors_def cors)
qed

interpretation table: axum table_router
  by (rule table_router_axum)

section \<open>Properties\<close>

text \<open>C6: whoever follows the descriptor of a published success gets the proof, by GET and by
  HEAD. After the processor returned a result, and after any later puts, let a client ask
  for the URL of the descriptor, which reaches the application below the public base URL. A
  GET is answered 200 to every origin, as the proof media type, with bytes of exactly the
  digest and the size of the descriptor, which the native verifier accepts for the
  descriptor's program hash and the statement of the result; a HEAD is answered with the
  same status and the same headers and no body.\<close>

theorem published_proof_downloadable:
  assumes "artifact_store H store_ok put get content healthy" and "store_ok store"
    and "\<And>bs. length (H bs) = 32" and "axum respond" and "healthy g" and "joins_below ul (public_base_url p)"
    and "process ul (\<lambda>input. Returned (engine_prove_job lib describe clock engine input)) (put f) p store request =
      (Inr r, p', store')"
  shows "\<exists>s d m path. r = Success SOUL_WIRE_PROTOCOL (jr_id request) s d m \<and>
    request_path (public_base_url p) (pd_url d) = Some path \<and>
    (let app = artifact_router header_from_str (get g (fold (\<lambda>(f, q) st. snd (put f st q)) later store'));
         sent = respond app Get path; head = respond app Head path in
     status sent = 200 \<and> headers sent ''content-type'' = Some PROOF_MEDIA_TYPE \<and>
     headers sent ''access-control-allow-origin'' = Some ''*'' \<and>
     sha256_hex H (body sent) = pd_sha256 d \<and> of_nat (length (body sent)) = pd_byte_size d \<and>
     verify_serialized lib (body sent) (as_str (pd_program_hash d)) s = Inr () \<and>
     status head = 200 \<and> body head = [] \<and>
     (\<forall>name. name \<noteq> ''vary'' \<longrightarrow> headers head name = headers sent name))"
proof -
  obtain a stored where put: "put f store (va_proof_bytes a) = (Inr stored, store')"
    and verified: "verify_serialized lib (va_proof_bytes a) (as_str (expected_program_hash engine)) (va_statement a) = Inr ()"
    and hash: "va_program_hash a = expected_program_hash engine"
    and described: "describe_result ul (public_base_url p) request a stored = Inr r"
    using process_engine_eq_Inr [OF assms(7)] .
  have stored: "stored = \<lparr>sha256 = sha256_hex H (va_proof_bytes a), byte_size = of_nat (length (va_proof_bytes a))\<rparr>"
    using artifact_store.put_stored [OF assms(1,2) put] by simp
  have ok: "store_ok store'" and "content store' (sha256_hex H (va_proof_bytes a)) = Some (va_proof_bytes a)"
    using artifact_store.put_inv [OF assms(1,2) put] artifact_store.put_stored [OF assms(1,2) put] by simp_all
  then have later: "store_ok (fold (\<lambda>(f, q) st. snd (put f st q)) later store')"
    "content (fold (\<lambda>(f, q) st. snd (put f st q)) later store') (sha256_hex H (va_proof_bytes a)) = Some (va_proof_bytes a)"
    using artifact_store.puts_keep [OF assms(1) ok] by blast+
  have sha: "is_sha256 (sha256_hex H (va_proof_bytes a))"
    using is_sha256_hex [where H = H] assms(3) by blast
  obtain d m where r: "r = Success SOUL_WIRE_PROTOCOL (jr_id request) (va_statement a) d m"
    and d: "pd_sha256 d = sha256 stored" "pd_byte_size d = byte_size stored" "pd_program_hash d = va_program_hash a"
    using described by (auto simp: describe_result_eq_Inr)
  let ?path = "''/v1/proofs/'' @ pd_sha256 d @ ''.json''"
    and ?app = "artifact_router header_from_str (get g (fold (\<lambda>(f, q) st. snd (put f st q)) later store'))"
  have path: "request_path (public_base_url p) (pd_url d) = Some ?path"
    by (rule request_path_of_descriptor [OF assms(6) described [unfolded r]]) (simp add: stored sha)
  have proof_of: "pd_sha256 d = sha256_hex H (va_proof_bytes a)" "pd_byte_size d = of_nat (length (va_proof_bytes a))"
    "pd_program_hash d = expected_program_hash engine"
    by (simp_all add: d stored hash)
  note answers = content_answered [OF assms(1) later sha assms(5,4), of header_from_str, folded proof_of(1)]
  have sent: "status (respond ?app Get ?path) = 200" "body (respond ?app Get ?path) = va_proof_bytes a"
    "headers (respond ?app Get ?path) ''content-type'' = Some PROOF_MEDIA_TYPE"
    "headers (respond ?app Get ?path) ''access-control-allow-origin'' = Some ''*''"
    using answers(1) by (simp_all add: with_cors_def immutable_response_fields(1-3))
  have "sha256_hex H (body (respond ?app Get ?path)) = pd_sha256 d"
    "of_nat (length (body (respond ?app Get ?path))) = pd_byte_size d"
    "verify_serialized lib (body (respond ?app Get ?path)) (as_str (pd_program_hash d)) (va_statement a) = Inr ()"
    unfolding sent(2) by (simp_all add: proof_of verified)
  moreover have "status (respond ?app Head ?path) = 200" "body (respond ?app Head ?path) = []"
    using answers(2) by (simp_all add: with_cors_def immutable_response_fields(1,4))
  ultimately show ?thesis
    unfolding Let_def
    by (intro exI [of _ "va_statement a"] exI [of _ d] exI [of _ m] exI [of _ ?path] conjI allI impI r path sent
        same_headers [OF answers])
qed

theorem published_proof_downloadable_witness:
  "\<exists>r store' s d m path. process example_urls example_engine (memory_put zero_hash) example_processor Map.empty
     example_job_request = (Inr r, example_processor, store') \<and>
     r = Success SOUL_WIRE_PROTOCOL (jr_id example_job_request) s d m \<and>
     request_path (public_base_url example_processor) (pd_url d) = Some path \<and>
     status (table_router (artifact_router Some (memory_get store')) Get path) = 200 \<and>
     status (table_router (artifact_router Some (memory_get store')) Head path) = 200"
proof -
  obtain r store' where
    run: "process example_urls (\<lambda>input. example_engine input) (memory_put zero_hash) example_processor Map.empty
      example_job_request = (Inr r, example_processor, store')"
    using example_processed by blast
  have mem: "memory_ok zero_hash Map.empty" by (simp add: memory_ok_def)
  have digest: "length (zero_hash bs) = 32" for bs by (simp add: zero_hash_def)
  have below: "joins_below example_urls (public_base_url example_processor)"
    by (simp add: joins_below_def example_urls_def)
  obtain s d m path where r: "r = Success SOUL_WIRE_PROTOCOL (jr_id example_job_request) s d m"
    and path: "request_path (public_base_url example_processor) (pd_url d) = Some path"
    and answers: "status (table_router (artifact_router Some (memory_get store')) Get path) = 200 \<and>
      status (table_router (artifact_router Some (memory_get store')) Head path) = 200"
    using published_proof_downloadable [OF memory.artifact_store_axioms mem digest table_router_axum TrueI below
        run [unfolded example_engine_def], where later = "[]" and header_from_str = Some]
    unfolding Let_def fold.simps id_apply by (elim exE conjE) (rule that, simp_all)
  from run r path answers show ?thesis by blast
qed

end
