(* ===== verification/Relays.thy ===== *)
theory Relays
  imports Wire
begin

text \<open>
  What the provider and the local client see of the relay pool of the \<open>nostr_sdk\<close> crate: its
  notifications, and the relays that took part in a publication or a subscription, by URL.
  The pool itself is a parameter of the definitions that use it.
\<close>

datatype RelayPoolNotification = NotifyEvent Event | NotifyMessage | NotifyShutdown

record pool_output =
  accepted_by :: "string list"
  refused_by :: "string list"

end
