(* ===== verification/Client.thy ===== *)
theory Client
  imports Exchange Relays
begin

text \<open>
  \<open>apps/provider/examples/local_client.rs\<close>: the smoke client. It publishes Fibonacci(10),
  waits for a result event, checks it against its own request and prints it. The second
  property runs it against the handler of the provider.

  The environment, the key and relay library, the signer and the notifications received
  before the timeout are the fields of \<open>client_lib\<close>; a failed \<open>recv\<close> is \<open>None\<close>. The two
  readings of the clock are arguments, and what the client prints is returned beside its
  outcome.
\<close>

section \<open>Definitions\<close>

record result_filter =
  rf_kind :: u16
  rf_event :: string
  rf_author :: "string option"

record client_lib =
  cl_wire :: wire_lib
  cl_env :: "string \<Rightarrow> string option"
  cl_parse_key :: "string \<Rightarrow> string option"
  cl_add_relay :: "string \<Rightarrow> bool"
  cl_connected :: "string \<Rightarrow> bool"
  cl_sign :: "u16 \<Rightarrow> string \<Rightarrow> string list list \<Rightarrow> Event option"
  cl_subscribe :: "result_filter \<Rightarrow> pool_output option"
  cl_send :: "Event \<Rightarrow> pool_output option"
  cl_received :: "u64 \<Rightarrow> RelayPoolNotification option list"

datatype ClientError =
    CE_Timeout
  | CE_ProviderKey
  | CE_AddRelay
  | CE_NotConnected
  | CE_Encoding
  | CE_Wire WireError
  | CE_Signing
  | CE_Subscribe
  | CE_NoSubscription
  | CE_Send
  | CE_NotPublished
  | CE_Receive
  | CE_Shutdown
  | CE_TimedOut
  | CE_ErrorResult

definition env_or :: "client_lib \<Rightarrow> string \<Rightarrow> string \<Rightarrow> string" where
  "env_or lib key fallback = (case cl_env lib key of Some value \<Rightarrow> value | None \<Rightarrow> fallback)"

definition expected_provider :: "client_lib \<Rightarrow> (ClientError, string option) result" where
  "expected_provider lib =
     (case cl_env lib ''SOUL_E2E_PROVIDER_PUBKEY'' of
        None \<Rightarrow> Inr None
      | Some value \<Rightarrow> map_err (\<lambda>_. CE_ProviderKey)
          (and_then (ok_or () (cl_parse_key lib value)) (\<lambda>key. Inr (Some key))))"

text \<open>The wait for an event of the result kind.\<close>

fun await_result ::
  "u16 \<Rightarrow> string option \<Rightarrow> RelayPoolNotification option list \<Rightarrow> (ClientError, Event) result" where
  "await_result kind expected [] = Inl CE_TimedOut"
| "await_result kind expected (None # ns) = Inl CE_Receive"
| "await_result kind expected (Some (NotifyEvent event) # ns) =
     (if ev_kind event = kind
      then
        if (case expected of None \<Rightarrow> False | Some provider \<Rightarrow> ev_pubkey event \<noteq> provider)
        then await_result kind expected ns
        else Inr event
      else await_result kind expected ns)"
| "await_result kind expected (Some NotifyShutdown # ns) = Inl CE_Shutdown"
| "await_result kind expected (Some NotifyMessage # ns) = await_result kind expected ns"

text \<open>Up to the publication of the request: the event, the request, the expected provider and
  the timeout.\<close>

definition publish_request ::
  "client_lib \<Rightarrow> u64 \<Rightarrow> (ClientError, Event \<times> JobRequest \<times> string option \<times> u64) result" where
  "publish_request lib now =
     (let relay = env_or lib ''SOUL_E2E_RELAY'' ''ws://127.0.0.1:7000'' in
     and_then (ok_or CE_Timeout (parse_u64 (env_or lib ''SOUL_E2E_TIMEOUT_SECS'' ''180''))) (\<lambda>timeout_seconds.
     and_then (expected_provider lib) (\<lambda>expected.
     if \<not> cl_add_relay lib relay then Inl CE_AddRelay else
     if \<not> cl_connected lib relay then Inl CE_NotConnected else
     let content = JobRequestContent_new (InFibonacci 10) (Some (now + 300)) in
     and_then (ok_or CE_Encoding (canonical_json (cl_wire lib) content)) (\<lambda>content_json.
     and_then (map_err CE_Wire (request_tags (cl_wire lib) content None)) (\<lambda>tags.
     and_then (map_err CE_Wire (into_nostr_tags (cl_wire lib) tags)) (\<lambda>nostr_tags.
     and_then (ok_or CE_Signing (cl_sign lib (request_kind (rc_service content)) content_json nostr_tags)) (\<lambda>event.
     and_then (map_err CE_Wire (parse_request_event (cl_wire lib) event now)) (\<lambda>request.
     and_then (ok_or CE_Subscribe (cl_subscribe lib
       \<lparr>rf_kind = result_kind (rc_service content), rf_event = ev_id event, rf_author = expected\<rparr>)) (\<lambda>subscription.
     if accepted_by subscription = [] then Inl CE_NoSubscription else
     and_then (ok_or CE_Send (cl_send lib event)) (\<lambda>publication.
     if accepted_by publication = [] then Inl CE_NotPublished else
     Inr (event, request, expected, timeout_seconds)))))))))))"

text \<open>The whole client: what it prints, and how it ends.\<close>

definition local_client :: "client_lib \<Rightarrow> u64 \<Rightarrow> u64 \<Rightarrow> string list \<times> (ClientError, unit) result" where
  "local_client lib now later =
     (case
        and_then (publish_request lib now) (\<lambda>(event, request, expected, timeout_seconds).
        and_then (await_result (result_kind (jr_service request)) expected (cl_received lib timeout_seconds)) (\<lambda>result_event.
        and_then (map_err CE_Wire (parse_result_event (cl_wire lib) result_event request later)) (\<lambda>r.
        and_then (ok_or CE_Encoding (json_to_string (cl_wire lib) (ser_JobResultContent r))) (\<lambda>printed.
        Inr (r, printed)))))
      of
        Inl e \<Rightarrow> ([], Inl e)
      | Inr (r, printed) \<Rightarrow>
          ([printed], case r of Error _ _ _ \<Rightarrow> Inl CE_ErrorResult | Success _ _ _ _ _ \<Rightarrow> Inr ()))"

section \<open>Waiting\<close>

text \<open>What the client waits past: other messages, events of other kinds, and events of the
  result kind by anyone but the provider it expects.\<close>

definition passed_over :: "u16 \<Rightarrow> string option \<Rightarrow> RelayPoolNotification \<Rightarrow> bool" where
  "passed_over kind expected n \<longleftrightarrow>
     (case n of
        NotifyEvent e \<Rightarrow> ev_kind e \<noteq> kind \<or> (\<exists>provider. expected = Some provider \<and> ev_pubkey e \<noteq> provider)
      | NotifyMessage \<Rightarrow> True
      | NotifyShutdown \<Rightarrow> False)"

lemma await_result_passed:
  "passed_over kind expected n \<Longrightarrow> await_result kind expected (Some n # ns) = await_result kind expected ns"
  by (cases n) (auto simp: passed_over_def split: option.split)

lemma await_result_taken:
  "\<not> passed_over kind expected n \<Longrightarrow> await_result kind expected (Some n # ns) =
     (case n of NotifyEvent e \<Rightarrow> Inr e | _ \<Rightarrow> Inl CE_Shutdown)"
  by (cases n) (auto simp: passed_over_def split: option.split)

lemma await_result_skips:
  "list_all (passed_over kind expected) before \<Longrightarrow>
     await_result kind expected (map Some before @ ns) = await_result kind expected ns"
  by (induction before) (simp_all add: await_result_passed del: await_result.simps(3-5))

lemma await_result_finds:
  "await_result kind expected ns = Inr event \<Longrightarrow>
     \<exists>before rest. ns = map Some before @ Some (NotifyEvent event) # rest \<and>
        list_all (passed_over kind expected) before \<and> \<not> passed_over kind expected (NotifyEvent event)"
proof (induction ns)
  case (Cons n ns)
  obtain m where n: "n = Some m" using Cons.prems by (cases n) simp_all
  show ?case
  proof (cases "passed_over kind expected m")
    case True
    then obtain before rest where "ns = map Some before @ Some (NotifyEvent event) # rest"
      "list_all (passed_over kind expected) before" "\<not> passed_over kind expected (NotifyEvent event)"
      using Cons by (auto simp: n await_result_passed simp del: await_result.simps(3-5))
    with True show ?thesis by (intro exI [of _ "m # before"]) (simp add: n)
  next
    case False
    with Cons.prems have "m = NotifyEvent event"
      by (auto simp: n await_result_taken simp del: await_result.simps(3-5) split: RelayPoolNotification.splits)
    with False show ?thesis by (intro exI [of _ "[]"] exI [of _ ns]) (simp add: n)
  qed
qed simp

declare await_result.simps(3-5) [simp del]

section \<open>The request of the client\<close>

lemma parse_request_event_same:
  assumes "parse_request_event lib event t = Inr request" and "parse_request_event lib event t' = Inr request'"
  shows "request = request'"
proof -
  from assms(1) obtain c bid serialized where "accepted_request lib event t c bid serialized"
    and request: "request = request_of event c bid serialized"
    by (rule parse_request_event_sound)
  moreover from assms(2) obtain c' bid' serialized' where "accepted_request lib event t' c' bid' serialized'"
    and request': "request' = request_of event c' bid' serialized'"
    by (rule parse_request_event_sound)
  ultimately have "c = c'" "serialized = serialized'"
    "request_tags lib c bid = Inr (ev_tags event)" "request_tags lib c' bid' = Inr (ev_tags event)"
    by (auto simp: accepted_request_def)
  moreover from this have "map_option u64_to_string bid = map_option u64_to_string bid'"
    using optional_scalar_tag_bid by (metis sum.inject(2))
  then have "bid = bid'"
    by (cases bid; cases bid') simp_all
  ultimately show ?thesis by (simp add: request request')
qed

lemma publish_request_parsed:
  "publish_request lib now = Inr (event, request, expected, secs) \<Longrightarrow>
     parse_request_event (cl_wire lib) event now = Inr request"
  by (auto simp: publish_request_def Let_def and_then_eq_Inr split: if_splits)

lemma publish_request_sends:
  "publish_request lib now = Inr (own, request, expected, secs) \<Longrightarrow>
     \<exists>json tags publication.
       canonical_json (cl_wire lib) (JobRequestContent_new (InFibonacci 10) (Some (now + 300))) = Some json \<and>
       cl_sign lib (request_kind Fibonacci) json tags = Some own \<and>
       cl_send lib own = Some publication \<and> accepted_by publication \<noteq> [] \<and>
       expected_provider lib = Inr expected \<and>
       parse_u64 (env_or lib ''SOUL_E2E_TIMEOUT_SECS'' ''180'') = Some secs"
  by (auto simp: publish_request_def Let_def and_then_eq_Inr JobRequestContent_new_def JobInput_service_def
      split: if_splits)

lemma local_client_prints:
  "local_client lib now later = (printed, outcome) \<Longrightarrow> printed \<noteq> [] \<or> outcome = Inr () \<Longrightarrow>
     \<exists>own request expected secs event r line. publish_request lib now = Inr (own, request, expected, secs) \<and>
       await_result (result_kind (jr_service request)) expected (cl_received lib secs) = Inr event \<and>
       parse_result_event (cl_wire lib) event request later = Inr r \<and>
       json_to_string (cl_wire lib) (ser_JobResultContent r) = Some line \<and> printed = [line] \<and>
       outcome = (case r of Error _ _ _ \<Rightarrow> Inl CE_ErrorResult | Success _ _ _ _ _ \<Rightarrow> Inr ())"
  by (auto simp: local_client_def and_then_eq_Inr split: sum.splits prod.splits)

section \<open>An instance\<close>

text \<open>A client at time 1700 whose pool has one relay that delivers the given events.\<close>

definition example_client :: "RelayPoolNotification list \<Rightarrow> client_lib" where
  "example_client ns =
     \<lparr>cl_wire = hl_wire (exchange_handler 1700 None),
      cl_env = (\<lambda>key. if key = ''SOUL_E2E_TIMEOUT_SECS'' then Some (u64_to_string 60) else None),
      cl_parse_key = Some, cl_add_relay = (\<lambda>_. True), cl_connected = (\<lambda>_. True),
      cl_sign = (\<lambda>kind content tags.
        Some ((exchange_event 1700 None)\<lparr>ev_kind := kind, ev_content := content, ev_tags := tags\<rparr>)),
      cl_subscribe = (\<lambda>_. Some \<lparr>accepted_by = [''ws://127.0.0.1:7000''], refused_by = []\<rparr>),
      cl_send = (\<lambda>_. Some \<lparr>accepted_by = [''ws://127.0.0.1:7000''], refused_by = []\<rparr>),
      cl_received = (\<lambda>_. map Some ns)\<rparr>"

lemma exchange_parsed_1700:
  "parse_request_event (hl_wire (exchange_handler 1700 None)) (exchange_event 1700 None) 1700 =
     Inr (exchange_request 1700 None)"
  by (rule exchange_accepted) (simp_all add: content_valid_def exchange_content JobInput_service_def)

lemma example_published:
  "publish_request (example_client ns) 1700 =
     Inr (exchange_event 1700 None, exchange_request 1700 None, None, 60)"
proof -
  let ?lib = "hl_wire (exchange_handler 1700 None)" and ?tags = "ev_tags (exchange_event 1700 None)"
  have content: "JobRequestContent_new (InFibonacci 10) (Some 2000) = example_content"
    by (simp add: example_content_def)
  have tags: "request_tags ?lib example_content None = Inr ?tags"
    by (rule exchange_tags) simp
  have "into_nostr_tags ?lib ?tags = Inr ?tags"
    using exchange.tag_values by (simp add: into_nostr_tags_def exchange_event_def)
  moreover have same: "exchange_event 1700 None \<lparr>ev_kind := 5601, ev_content := example_text\<rparr> =
      exchange_event 1700 None"
    by (simp add: exchange_event_def example_event_def)
  ultimately show ?thesis
    using exchange_parsed_1700 tags
    by (simp add: same publish_request_def example_client_def env_or_def expected_provider_def content exchange_json
        exchange_content service_defs constants)
qed

lemma example_client_run:
  "\<exists>ev. local_client (example_client [NotifyMessage, NotifyEvent ev]) 1700 1701 = ([''{}''], Inl CE_ErrorResult)"
proof -
  obtain ev sh' where run: "handle_event (exchange_handler 1700 None) (memory_put zero_hash) (exchange_event 1700 None) 1700
      busy_shared = Some (Inr (Some ev), sh')"
    and ev: "ev_created_at ev = 1700" "ev_kind ev = result_kind Fibonacci"
    using exchange_handler_answers [OF exchange_parsed_1700] by metis
  have "parse_result_event (hl_wire (exchange_handler 1700 None)) ev (exchange_request 1700 None) 1701 =
      (if unat (jr_created_at (exchange_request 1700 None)) \<le> unat (ev_created_at ev) \<and>
          unat (ev_created_at ev) \<le> unat (1701 :: u64) + 300
       then Inr busy_answer else Inl InvalidTimestamp)"
    unfolding exchange_busy [of 1700 None, symmetric]
    by (rule provider_answer_accepted [OF exchange_codecs exchange_parsed_1700 busy_unanswered run
        exchange_engine_typed exchange_signs exchange_urls])
  then have "parse_result_event (cl_wire (example_client ns)) ev (exchange_request 1700 None) 1701 = Inr busy_answer" for ns
    by (simp add: ev example_client_def)
  moreover have "await_result (result_kind Fibonacci) None
      (cl_received (example_client [NotifyMessage, NotifyEvent ev]) 60) = Inr ev"
    by (simp add: example_client_def await_result_passed await_result_taken passed_over_def ev)
  moreover have "json_to_string (cl_wire (example_client ns)) (ser_JobResultContent busy_answer) = Some ''{}''" for ns
    by (simp add: example_client_def exchange_handler_def ser_result_not_request)
  ultimately have "local_client (example_client [NotifyMessage, NotifyEvent ev]) 1700 1701 = ([''{}''], Inl CE_ErrorResult)"
    by (simp add: local_client_def example_published)
      (simp add: busy_answer_def error_content_def JobResultContent_error_def)
  then show ?thesis by blast
qed

section \<open>Properties\<close>

text \<open>C26: the smoke client prints nothing unbound. Whatever it receives, a line it prints is the
  text of a result that \<open>parse_result_event\<close> accepts for the request in the very event that
  the client signed for Fibonacci(10) and sent, and that some relay took; it came in an event
  received before the timeout of the environment, of the result kind and by the provider the
  client was told to expect, and it names the id of the event sent; and the client reports
  success exactly for a successful result.\<close>

theorem client_prints_bound_results:
  assumes "local_client lib now later = (printed, outcome)" and "printed \<noteq> [] \<or> outcome = Inr ()"
  shows "\<exists>json tags own request expected secs publication event r line.
    canonical_json (cl_wire lib) (JobRequestContent_new (InFibonacci 10) (Some (now + 300))) = Some json \<and>
    cl_sign lib (request_kind Fibonacci) json tags = Some own \<and>
    cl_send lib own = Some publication \<and> accepted_by publication \<noteq> [] \<and>
    parse_request_event (cl_wire lib) own now = Inr request \<and>
    expected_provider lib = Inr expected \<and>
    parse_u64 (env_or lib ''SOUL_E2E_TIMEOUT_SECS'' ''180'') = Some secs \<and>
    Some (NotifyEvent event) \<in> set (cl_received lib secs) \<and>
    ev_kind event = result_kind (jr_service request) \<and>
    (\<forall>provider. expected = Some provider \<longrightarrow> ev_pubkey event = provider) \<and>
    parse_result_event (cl_wire lib) event request later = Inr r \<and>
    JobResultContent_request_id r = ev_id own \<and>
    json_to_string (cl_wire lib) (ser_JobResultContent r) = Some line \<and> printed = [line] \<and>
    (outcome = Inr () \<longleftrightarrow> JobResultContent_status r = ''success'')"
proof -
  obtain own request expected secs event r line where
    published: "publish_request lib now = Inr (own, request, expected, secs)"
    and awaited: "await_result (result_kind (jr_service request)) expected (cl_received lib secs) = Inr event"
    and result: "parse_result_event (cl_wire lib) event request later = Inr r"
    and printed: "json_to_string (cl_wire lib) (ser_JobResultContent r) = Some line" "printed = [line]"
      "outcome = (case r of Error _ _ _ \<Rightarrow> Inl CE_ErrorResult | Success _ _ _ _ _ \<Rightarrow> Inr ())"
    using local_client_prints [OF assms] by blast
  note own = publish_request_parsed [OF published]
  obtain json tags publication where
    sent: "canonical_json (cl_wire lib) (JobRequestContent_new (InFibonacci 10) (Some (now + 300))) = Some json"
      "cl_sign lib (request_kind Fibonacci) json tags = Some own"
      "cl_send lib own = Some publication" "accepted_by publication \<noteq> []"
    and env: "expected_provider lib = Inr expected"
      "parse_u64 (env_or lib ''SOUL_E2E_TIMEOUT_SECS'' ''180'') = Some secs"
    using publish_request_sends [OF published] by blast
  obtain before rest where "cl_received lib secs = map Some before @ Some (NotifyEvent event) # rest"
    and "\<not> passed_over (result_kind (jr_service request)) expected (NotifyEvent event)"
    using await_result_finds [OF awaited] by blast
  then have "Some (NotifyEvent event) \<in> set (cl_received lib secs)"
    "ev_kind event = result_kind (jr_service request)"
    "\<forall>provider. expected = Some provider \<longrightarrow> ev_pubkey event = provider"
    by (auto simp: passed_over_def)
  moreover have "JobResultContent_request_id r = ev_id own"
    using result accepted_request_id(1) [OF own]
    by (auto simp: parse_result_event_def Let_def and_then_eq_Inr split: if_splits)
  moreover have "outcome = Inr () \<longleftrightarrow> JobResultContent_status r = ''success''"
    by (cases r) (simp_all add: printed(3) JobResultContent_status_def)
  ultimately show ?thesis
    using own sent env result printed(1,2) by blast
qed

theorem client_prints_bound_results_witness:
  "\<exists>ev own request r. local_client (example_client [NotifyMessage, NotifyEvent ev]) 1700 1701 = ([''{}''], Inl CE_ErrorResult) \<and>
     cl_send (example_client [NotifyMessage, NotifyEvent ev]) own \<noteq> None \<and>
     parse_request_event (hl_wire (exchange_handler 1700 None)) own 1700 = Inr request \<and>
     parse_result_event (hl_wire (exchange_handler 1700 None)) ev request 1701 = Inr r \<and>
     JobResultContent_request_id r = ev_id own"
proof -
  obtain ev where run: "local_client (example_client [NotifyMessage, NotifyEvent ev]) 1700 1701 =
      ([''{}''], Inl CE_ErrorResult)"
    using example_client_run by blast
  have "[''{}''] \<noteq> [] \<or> (Inl CE_ErrorResult :: (ClientError, unit) result) = Inr ()" by simp
  from client_prints_bound_results [OF run this]
  obtain own request secs publication event r where
    "cl_send (example_client [NotifyMessage, NotifyEvent ev]) own = Some publication"
    "parse_request_event (cl_wire (example_client [NotifyMessage, NotifyEvent ev])) own 1700 = Inr request"
    "Some (NotifyEvent event) \<in> set (cl_received (example_client [NotifyMessage, NotifyEvent ev]) secs)"
    "parse_result_event (cl_wire (example_client [NotifyMessage, NotifyEvent ev])) event request 1701 = Inr r"
    "JobResultContent_request_id r = ev_id own"
    by blast
  then show ?thesis
    using run by (auto simp: example_client_def)
qed

text \<open>C11: the smoke test of a working installation passes. If the client has published its
  request, the provider's handler answered that request with an event, and the event reaches
  the client in time, before anything else it would take for the answer, then the client
  prints the processor's result or its sanitised error and succeeds exactly on the former,
  provided the clocks agree to within five minutes.\<close>

theorem client_served_by_provider:
  assumes "wire_codecs (hl_wire hl)" and "cl_wire lib = hl_wire hl"
    and "publish_request lib now = Inr (own, request, expected, secs)"
    and "completed_result sh (jr_id request) = None"
    and "handle_event hl put own t sh = Some (Inr (Some ev), sh')"
    and "\<And>input a. hl_prove hl input = Returned (Inr a) \<Longrightarrow> artifact_typed a"
    and "\<And>kind content tags e. hl_sign hl kind content tags = Some e \<Longrightarrow>
      event_verify (hl_wire hl) e \<and> ev_kind e = kind \<and> ev_content e = content \<and> ev_tags e = tags"
    and "ul_parse (hl_urls hl) = url_parse (hl_wire hl)"
    and "cl_received lib secs = map Some before @ Some (NotifyEvent ev) # rest"
    and "list_all (passed_over (result_kind (jr_service request)) expected) before"
    and "expected = None \<or> expected = Some (ev_pubkey ev)"
    and "unat (ev_created_at own) \<le> unat (ev_created_at ev)" and "unat (ev_created_at ev) \<le> unat later + 300"
  shows "\<exists>line. json_to_string (hl_wire hl) (ser_JobResultContent (job_answer hl put sh request)) = Some line \<and>
    local_client lib now later =
      ([line], case job_answer hl put sh request of
                 Success _ _ _ _ _ \<Rightarrow> Inr () | Error _ _ _ \<Rightarrow> Inl CE_ErrorResult)"
proof -
  let ?r = "job_answer hl put sh request"
  have own: "parse_request_event (hl_wire hl) own now = Inr request"
    using publish_request_parsed [OF assms(3)] assms(2) by simp
  obtain request' where "parse_request_event (hl_wire hl) own t = Inr request'"
    using assms(5) by (cases "parse_request_event (hl_wire hl) own t") (auto simp: handle_event_def)
  then have request: "parse_request_event (hl_wire hl) own t = Inr request"
    using parse_request_event_same [OF own] by simp
  have "jr_created_at request = ev_created_at own"
    using own by (auto elim!: parse_request_event_sound simp: request_of_def)
  moreover have "parse_result_event (hl_wire hl) ev request later =
    (if unat (jr_created_at request) \<le> unat (ev_created_at ev) \<and> unat (ev_created_at ev) \<le> unat later + 300
     then Inr ?r else Inl InvalidTimestamp)"
    by (rule provider_answer_accepted [OF assms(1) request assms(4,5)]) (fact assms)+
  ultimately have result: "parse_result_event (hl_wire hl) ev request later = Inr ?r"
    using assms(12,13) by simp
  have signed: "sign_result hl request ?r = Inr ev"
    by (rule handle_event_signs [OF request assms(4,5)])
  then obtain line where line: "json_to_string (hl_wire hl) (ser_JobResultContent ?r) = Some line"
    and "ev_kind ev = result_kind (jr_service request)"
    using assms(7) by (auto simp: sign_result_eq_Inr)
  then have "await_result (result_kind (jr_service request)) expected (cl_received lib secs) = Inr ev"
    using assms(10,11) by (auto simp: assms(9) await_result_skips await_result_taken passed_over_def)
  then show ?thesis
    using line result assms(2,3)
    by (auto simp: local_client_def split: JobResultContent.split)
qed

theorem client_served_by_provider_witness:
  "\<exists>ev. local_client (example_client [NotifyMessage, NotifyEvent ev]) 1700 1701 = ([''{}''], Inl CE_ErrorResult)"
proof -
  obtain ev sh' where run: "handle_event (exchange_handler 1700 None) (memory_put zero_hash) (exchange_event 1700 None) 1700
      busy_shared = Some (Inr (Some ev), sh')"
    and ev: "ev_created_at ev = 1700" "ev_kind ev = result_kind Fibonacci"
    using exchange_handler_answers [OF exchange_parsed_1700] by metis
  let ?client = "example_client [NotifyMessage, NotifyEvent ev]"
  have "\<exists>line. json_to_string (hl_wire (exchange_handler 1700 None)) (ser_JobResultContent busy_answer) = Some line \<and>
     local_client ?client 1700 1701 = ([line], case busy_answer of
                 Success _ _ _ _ _ \<Rightarrow> Inr () | Error _ _ _ \<Rightarrow> Inl CE_ErrorResult)"
    unfolding exchange_busy [of 1700 None, symmetric]
    by (rule client_served_by_provider [OF exchange_codecs _ example_published busy_unanswered run
        exchange_engine_typed exchange_signs exchange_urls, where before = "[NotifyMessage]" and rest = "[]"])
      (simp_all add: example_client_def passed_over_def ev)
  then show ?thesis
    by (auto simp: exchange_handler_def ser_result_not_request busy_answer_def error_content_def JobResultContent_error_def)
qed

end
