(* ===== verification/Board.thy ===== *)
theory Board
  imports Handler
begin

text \<open>
  What concurrent deliveries promise together, as an abstract specification: a board on
  which an id is claimed once, a claimed id is answered at most once, and only recorded
  answers are published. The interleaved handler of \<open>handler_step\<close> refines the board while
  no more ids have been claimed than the provider remembers. The second part is progress:
  from every reachable state each delivery comes to its end in its own next phases.
\<close>

section \<open>The board\<close>

record board =
  board_claimed :: "string set"
  board_answers :: "string \<rightharpoonup> Event"
  board_published :: "Event list"

definition empty_board :: board where
  "empty_board = \<lparr>board_claimed = {}, board_answers = Map.empty, board_published = []\<rparr>"

inductive board_step :: "board \<Rightarrow> board \<Rightarrow> bool" where
  board_skip: "board_step b b"
| board_claim:
    "k \<notin> board_claimed b \<Longrightarrow> board_step b (b\<lparr>board_claimed := insert k (board_claimed b)\<rparr>)"
| board_answer:
    "k \<in> board_claimed b \<Longrightarrow> board_answers b k = None \<Longrightarrow>
     board_step b (b\<lparr>board_answers := (board_answers b)(k \<mapsto> ev)\<rparr>)"
| board_publish:
    "board_answers b k = Some ev \<Longrightarrow> board_step b (b\<lparr>board_published := board_published b @ [ev]\<rparr>)"

text \<open>Every answer is about a claimed id, and everything published is an answer.\<close>

definition board_ok :: "board \<Rightarrow> bool" where
  "board_ok b \<longleftrightarrow> dom (board_answers b) \<subseteq> board_claimed b \<and> set (board_published b) \<subseteq> ran (board_answers b)"

lemma board_step_ok: "board_step b b' \<Longrightarrow> board_ok b \<Longrightarrow> board_ok b'"
  by (induction rule: board_step.induct) (auto simp: board_ok_def ran_map_upd intro: ranI)

lemma board_steps_ok: "board_step\<^sup>*\<^sup>* empty_board b \<Longrightarrow> board_ok b"
proof (induction rule: rtranclp_induct)
  case base
  show ?case by (simp add: board_ok_def empty_board_def)
qed (rule board_step_ok)

text \<open>The board a provider shows.\<close>

definition board_of :: "'s provider \<Rightarrow> board" where
  "board_of p =
     \<lparr>board_claimed = set (claimed_ids p), board_answers = cr_events (completed (pr_shared p)),
      board_published = pr_sent p\<rparr>"

section \<open>Refinement\<close>

text \<open>A delivery without an accepted request has no answer.\<close>

definition rejections_ok :: "'s provider \<Rightarrow> bool" where
  "rejections_ok p \<longleftrightarrow> (\<forall>c out held. (T_Done None c out, held) \<in> set (pr_tasks p) \<longrightarrow> (\<exists>e. out = Inl e))"

lemma task_step_rejects: "task_step hl put t sh = Some (T_Done None c out, sh') \<Longrightarrow> \<exists>e. out = Inl e"
  by (cases t) (auto simp: Let_def split: sum.splits option.splits prod.splits bool.splits)

lemma handler_step_rejections:
  "handler_step hl put p p' \<Longrightarrow> rejections_ok p \<Longrightarrow> rejections_ok p'"
proof (induction rule: handler_step.induct)
  case (advanced i p t f t' sh)
  then show ?case
    using task_step_rejects [of "hl f" "put f" t "pr_shared p"]
    by (fastforce simp: rejections_ok_def dest: subsetD [OF set_update_subset_insert])
next
  case (dispatched i p request claimed outcome)
  have "(T_Done request claimed outcome, True) \<in> set (pr_tasks p)"
    using dispatched(1,2) nth_mem by metis
  then show ?case
    using dispatched by (fastforce simp: rejections_ok_def dest: subsetD [OF set_update_subset_insert])
qed (auto simp: rejections_ok_def)

lemma claimed_ids_mono: "handler_step hl put p p' \<Longrightarrow> length (claimed_ids p) \<le> length (claimed_ids p')"
proof (induction rule: handler_step.induct)
  case (advanced i p t f t' sh)
  obtain us vs where "pr_tasks p = us @ (t, True) # vs" "\<And>y. (pr_tasks p)[i := y] = us @ y # vs"
    using split_at [OF advanced(1,2)] by blast
  then show ?case
    using length_claims_step [OF advanced(3)] by (simp add: claimed_ids_def)
next
  case (dispatched i p request claimed outcome)
  obtain us vs where "pr_tasks p = us @ (T_Done request claimed outcome, True) # vs"
    "\<And>y. (pr_tasks p)[i := y] = us @ y # vs"
    using split_at [OF dispatched(1,2)] by blast
  then show ?case by (simp add: claimed_ids_def)
qed (auto simp: claimed_ids_def)

text \<open>What a phase does to the board of its provider.\<close>

lemma advance_on_board:
  assumes ok: "claims_ok cap p" and small: "length (claimed_ids p') \<le> cap"
    and tasks: "pr_tasks p = us @ (t, True) # vs" and step: "task_step hl put t (pr_shared p) = Some (t', sh')"
    and p': "p' = p\<lparr>pr_shared := sh', pr_tasks := us @ (t', True) # vs\<rparr>"
  shows "board_step (board_of p) (board_of p')"
proof -
  define c where "c = completed (pr_shared p)"
  have tasks': "pr_tasks p' = us @ (t', True) # vs" and shared': "pr_shared p' = sh'" and sent': "pr_sent p' = pr_sent p"
    by (simp_all add: p')
  note counts = advanced_counts(1,2) [OF tasks tasks']
  have d: "dedupe_ok (dedupe (pr_shared p))" "set (window (dedupe (pr_shared p))) = set (claimed_ids p)"
    using ok by (simp_all add: claims_ok_def Let_def)
  consider (claiming) r where "t = T_Claim r" | (remembering) r ev where "t = T_Remember r ev"
    | (other) "\<And>r. t \<noteq> T_Claim r" "\<And>r ev. t \<noteq> T_Remember r ev"
    by blast
  then show ?thesis
  proof cases
    case claiming
    note claimed = task_step_claim [OF step [unfolded claiming] d(1)]
    show ?thesis
    proof (cases "jr_id r \<in> set (claimed_ids p)")
      case True
      with claimed d have "claimed_ids p' = claimed_ids p" and "completed sh' = c"
        using counts by (auto simp: claiming c_def)
      then show ?thesis
        using board_skip by (simp add: board_of_def shared' sent' c_def)
    next
      case False
      with claimed d have "set (claimed_ids p') = insert (jr_id r) (set (claimed_ids p))" and "completed sh' = c"
        using counts by (auto simp: claiming c_def)
      then show ?thesis
        using board_claim [of "jr_id r" "board_of p"] False by (simp add: board_of_def shared' sent' c_def)
    qed
  next
    case remembering
    have one: "task_claim t = [jr_id r]" by (simp add: remembering)
    have undone: "t \<noteq> T_Done r c out" for r c out by (simp add: remembering)
    note bound = completed_bound [OF ok tasks one undone, folded c_def]
    have same: "claimed_ids p' = claimed_ids p"
      using counts step by (auto simp: remembering)
    have c_ok: "fifo_ok (dom (cr_events c)) (cr_order c)" "cr_capacity c = cap"
      using ok by (simp_all add: claims_ok_def Let_def c_def)
    then have none: "cr_events c (jr_id r) = None"
      using bound(1) by (auto simp: fifo_ok_def)
    have "length (cr_order c) < cr_capacity c"
      using bound(2) small same c_ok(2) by simp
    from remember_new [OF none [unfolded c_def] c_ok(1) [unfolded c_def] this [unfolded c_def], of ev] step
    have "cr_events (completed sh') = (cr_events c)(jr_id r \<mapsto> ev)"
      by (auto simp: remembering c_def)
    moreover have "jr_id r \<in> set (claimed_ids p)"
      using counts(1) by (simp add: one)
    ultimately show ?thesis
      using board_answer [of "jr_id r" "board_of p" ev] none same
      by (simp add: board_of_def shared' sent' c_def)
  next
    case other
    from task_step_same_locks [OF step other] have "completed sh' = c" "claimed_ids p' = claimed_ids p"
      using counts by (simp_all add: c_def)
    then show ?thesis
      using board_skip by (simp add: board_of_def shared' sent' c_def)
  qed
qed

lemma handler_step_on_board:
  assumes "handler_step hl put p p'" and "claims_ok cap p" and "rejections_ok p"
    and "length (claimed_ids p') \<le> cap"
  shows "board_step (board_of p) (board_of p')"
  using assms(1)
proof cases
  case (notified event now)
  then have "board_of p' = board_of p"
    by (simp add: board_of_def claimed_ids_def)
  then show ?thesis by (simp add: board_skip)
next
  case dropped
  then show ?thesis by (simp add: board_skip)
next
  case (advanced i t f t' sh)
  obtain us vs where tasks: "pr_tasks p = us @ (t, True) # vs"
    and update: "\<And>y. (pr_tasks p)[i := y] = us @ y # vs"
    using split_at [OF advanced(2,3)] by blast
  have "p' = p\<lparr>pr_shared := sh, pr_tasks := us @ (t', True) # vs\<rparr>"
    using advanced(1) update by simp
  from advance_on_board [OF assms(2,4) tasks advanced(4) this] show ?thesis .
next
  case (dispatched i request claimed outcome)
  let ?t = "T_Done request claimed outcome"
  obtain us vs where tasks: "pr_tasks p = us @ (?t, True) # vs"
    and update: "\<And>y. (pr_tasks p)[i := y] = us @ y # vs"
    using split_at [OF dispatched(2,3)] by blast
  have same: "claimed_ids p' = claimed_ids p" "pr_shared p' = pr_shared p"
    using dispatched(1) update by (simp_all add: claimed_ids_def tasks)
  show ?thesis
  proof (cases "\<exists>ev. outcome = Inr (Some ev)")
    case False
    then have "board_of p' = board_of p"
      using dispatched(1) same by (auto simp: board_of_def split: sum.splits option.splits)
    then show ?thesis by (simp add: board_skip)
  next
    case True
    then obtain ev where ev: "outcome = Inr (Some ev)" by blast
    then obtain r where "request = Some r"
      using assms(3) tasks by (cases request) (auto simp: rejections_ok_def)
    then have "answered p r ev"
      using tasks ev by (auto simp: answered_def)
    then have "board_answers (board_of p) (jr_id r) = Some ev"
      using assms(2) by (auto simp: claims_ok_def Let_def board_of_def)
    from board_publish [OF this] show ?thesis
      using dispatched(1) same ev by (simp add: board_of_def)
  qed
qed

lemma handler_steps_on_board:
  assumes "(handler_step hl put)\<^sup>*\<^sup>* (provider_start sh) p" and "SignedJobHandler_new cap proc s = Inr sh"
    and "length (claimed_ids p) \<le> cap"
  shows "board_step\<^sup>*\<^sup>* empty_board (board_of p) \<and> rejections_ok p"
  using assms(1,3)
proof (induction rule: rtranclp_induct)
  case base
  have "completed sh = CompletedResults_new cap"
    using assms(2) by (auto simp: SignedJobHandler_new_def and_then_eq_Inr)
  then show ?case
    by (simp add: board_of_def provider_start_def claimed_ids_def empty_board_def CompletedResults_new_def
        rejections_ok_def)
next
  case (step p p')
  have few: "length (claimed_ids p) \<le> cap"
    using claimed_ids_mono [OF step(2)] step(4) by simp
  then have "claims_ok cap p"
    using handler_steps_ok [OF step(1) provider_start_ok [OF assms(2)]] by (simp add: provider_ok_def)
  moreover have run: "board_step\<^sup>*\<^sup>* empty_board (board_of p)" and rejected: "rejections_ok p"
    using step(3) [OF few] by blast+
  ultimately have "board_step (board_of p) (board_of p')"
    using handler_step_on_board [OF step(2)] step(4) by blast
  with run handler_step_rejections [OF step(2) rejected] show ?case
    by (auto intro: rtranclp.rtrancl_into_rtrancl)
qed

section \<open>Progress\<close>

fun task_rank :: "task \<Rightarrow> nat" where
  "task_rank (T_Received _ _) = 8"
| "task_rank (T_Lookup _) = 7"
| "task_rank (T_Claim _) = 6"
| "task_rank (T_Acquire _) = 5"
| "task_rank (T_Proving _) = 4"
| "task_rank (T_Store _ _) = 3"
| "task_rank (T_Sign _ _) = 2"
| "task_rank (T_Remember _ _) = 1"
| "task_rank (T_Done _ _ _) = 0"

lemma remember_result_returns:
  assumes "handler_ok sh"
  shows "\<exists>sh'. remember_result sh k ev = Some sh' \<and> handler_ok sh'"
proof (cases "cr_events (completed sh) k")
  case None
  then obtain c where "remember_result sh k ev = Some (sh\<lparr>completed := c\<rparr>)" "handler_ok (sh\<lparr>completed := c\<rparr>)"
    using remember_result_keeps [OF assms] by blast
  then show ?thesis by blast
next
  case (Some old)
  with assms show ?thesis
    by (simp add: remember_result_def CompletedResults_insert_def)
qed

text \<open>A phase of a delivery that is not done returns and leaves fewer phases.\<close>

lemma task_step_returns:
  assumes "handler_ok sh" and "0 < task_rank t"
  shows "\<exists>t' sh'. task_step hl put t sh = Some (t', sh') \<and> task_rank t' < task_rank t \<and> handler_ok sh'"
proof (cases t)
  case (T_Claim r)
  obtain d where "claim (dedupe sh) (jr_id r) = Some (jr_id r \<notin> set (window (dedupe sh)), d)" "dedupe_ok d"
    using claim_window [of "dedupe sh" "jr_id r"] assms(1) by (auto simp: handler_ok_def)
  then show ?thesis
    using assms(1) T_Claim by (cases "jr_id r \<in> set (window (dedupe sh))") (simp_all add: handler_ok_def)
next
  case (T_Remember r ev)
  then show ?thesis
    using remember_result_returns [OF assms(1), of "jr_id r" ev] by auto
qed (use assms in \<open>auto simp: Let_def handler_ok_def split: sum.splits option.splits prod.splits\<close>)

lemma task_step_handler_ok: "task_step hl put t sh = Some (t', sh') \<Longrightarrow> handler_ok sh \<Longrightarrow> handler_ok sh'"
  using task_step_returns [of sh t hl put] by (cases t) auto

lemma handler_steps_handler_ok:
  assumes "(handler_step hl put)\<^sup>*\<^sup>* p p'" and "handler_ok (pr_shared p)"
  shows "handler_ok (pr_shared p')"
  using assms
proof (induction rule: rtranclp_induct)
  case (step p' p'')
  from step(2) step(3) [OF step(4)] show ?case
    by cases (auto intro: task_step_handler_ok)
qed

text \<open>Running one delivery to its end.\<close>

lemma finish_task:
  assumes "handler_ok (pr_shared p)" and "i < length (pr_tasks p)" and "pr_tasks p ! i = (t, True)"
  shows "\<exists>n p' r c out. n \<le> task_rank t + 1 \<and> ((handler_step hl put) ^^ n) p p' \<and>
    pr_tasks p' = (pr_tasks p)[i := (T_Done r c out, False)] \<and> pr_slots p' = pr_slots p + 1"
  using assms
proof (induction "task_rank t" arbitrary: p t rule: less_induct)
  case less
  show ?case
  proof (cases "0 < task_rank t")
    case False
    then obtain r c out where t: "t = T_Done r c out" by (cases t) auto
    have "handler_step hl put p
       (p\<lparr>pr_slots := pr_slots p + 1, pr_tasks := (pr_tasks p)[i := (T_Done r c out, False)],
          pr_sent := pr_sent p @ (case out of Inr (Some ev) \<Rightarrow> [ev] | _ \<Rightarrow> [])\<rparr>)"
      using less.prems(2,3) t by (intro dispatched) simp_all
    then show ?thesis
      using t by (intro exI [of _ 1] exI conjI) auto
  next
    case True
    then obtain t' sh where next_phase: "task_step (hl undefined) (put undefined) t (pr_shared p) = Some (t', sh)"
      "task_rank t' < task_rank t" "handler_ok sh"
      using task_step_returns [OF less.prems(1)] by blast
    let ?p = "p\<lparr>pr_shared := sh, pr_tasks := (pr_tasks p)[i := (t', True)]\<rparr>"
    have first: "handler_step hl put p ?p"
      by (rule advanced [where f = undefined and hl = hl and put = put, OF less.prems(2,3) next_phase(1)])
    have "handler_ok (pr_shared ?p)" "i < length (pr_tasks ?p)" "pr_tasks ?p ! i = (t', True)"
      using less.prems next_phase(3) by simp_all
    from less.hyps [OF next_phase(2) this] obtain n p' r c out where
      "n \<le> task_rank t' + 1" "((handler_step hl put) ^^ n) ?p p'"
      "pr_tasks p' = (pr_tasks ?p)[i := (T_Done r c out, False)]" "pr_slots p' = pr_slots ?p + 1"
      by blast
    moreover from this have "((handler_step hl put) ^^ Suc n) p p'"
      using first by (metis relpowp_Suc_I2)
    ultimately show ?thesis
      using next_phase(2) by (intro exI [of _ "Suc n"] exI [of _ p']) auto
  qed
qed

lemma task_rank_le: "task_rank t \<le> 8"
  by (cases t) auto

section \<open>Properties\<close>

text \<open>C13: the concurrent handler refines the board for as long as it can remember: in every
  state reachable from a new provider in which no more ids have been claimed than its
  capacity, the ids claimed, the answers cached and the events handed to the relays are
  those of a run of the board, so that an id is claimed once, its answer never changes, and
  everything published is the recorded answer of a claimed id. (Past the capacity an evicted
  id can be claimed again, and nothing is said.)\<close>

theorem deliveries_refine_board:
  assumes "SignedJobHandler_new cap proc s = Inr sh"
    and "(handler_step hl put)\<^sup>*\<^sup>* (provider_start sh) p"
    and "length (claimed_ids p) \<le> cap"
  shows "board_step\<^sup>*\<^sup>* empty_board
      \<lparr>board_claimed = set (claimed_ids p), board_answers = cr_events (completed (pr_shared p)),
       board_published = pr_sent p\<rparr> \<and>
    (\<forall>ev \<in> set (pr_sent p). \<exists>k \<in> set (claimed_ids p). cr_events (completed (pr_shared p)) k = Some ev)"
proof -
  have run: "board_step\<^sup>*\<^sup>* empty_board (board_of p)"
    using handler_steps_on_board [OF assms(2,1,3)] by blast
  then have "board_ok (board_of p)" by (rule board_steps_ok)
  with run show ?thesis
    unfolding board_ok_def board_of_def by (fastforce simp: ran_def dom_def)
qed

theorem deliveries_refine_board_witness:
  "\<exists>ev p. (handler_step (\<lambda>_ :: unit. example_handler) (\<lambda>_. memory_put zero_hash))\<^sup>*\<^sup>*
       (provider_start busy_shared) p \<and> pr_sent p = [ev] \<and>
     cr_events (completed (pr_shared p)) (jr_id example_request) = Some ev"
proof -
  let ?R = "handler_step (\<lambda>_ :: unit. example_handler) (\<lambda>_. memory_put zero_hash)"
  obtain ev sh where run: "?R\<^sup>*\<^sup>* (provider_start busy_shared)
      (lone (T_Done (Some example_request) True (Inr (Some ev))) sh)"
    using lone_answer by blast
  let ?p = "\<lparr>pr_shared = sh, pr_slots = 64, pr_tasks = [(T_Done (Some example_request) True (Inr (Some ev)), False)],
    pr_sent = [ev]\<rparr>"
  have "?R (lone (T_Done (Some example_request) True (Inr (Some ev))) sh) ?p"
    using dispatched [of 0 "lone (T_Done (Some example_request) True (Inr (Some ev))) sh"
        "Some example_request" True "Inr (Some ev)" "\<lambda>_ :: unit. example_handler" "\<lambda>_. memory_put zero_hash"]
    by simp
  with run have sent: "?R\<^sup>*\<^sup>* (provider_start busy_shared) ?p" by simp
  moreover have "claimed_ids ?p = [jr_id example_request]" by (simp add: claimed_ids_def)
  ultimately show ?thesis
    using deliveries_refine_board [OF busy_shared_new sent]
    by (intro exI [of _ ev] exI [of _ ?p]) auto
qed

text \<open>C27: every delivery ends: in a state reachable from a new provider, a delivery that holds a
  dispatch slot finishes and gives the slot back within nine of its own phases, whatever
  the others hold meanwhile; none of them waits for another. (The engine, the signer and
  the store are functions here: that they return is theirs to ensure.)\<close>

theorem delivery_completes:
  assumes "SignedJobHandler_new cap proc s = Inr sh"
    and "(handler_step hl put)\<^sup>*\<^sup>* (provider_start sh) p"
    and "i < length (pr_tasks p)" and "pr_tasks p ! i = (t, True)"
  shows "\<exists>n p' r c out. n \<le> 9 \<and> ((handler_step hl put) ^^ n) p p' \<and>
    pr_tasks p' = (pr_tasks p)[i := (T_Done r c out, False)] \<and> pr_slots p' = pr_slots p + 1"
proof -
  have "handler_ok (pr_shared (provider_start sh))"
    using SignedJobHandler_new_ok [OF assms(1)] by (simp add: provider_start_def)
  then have "handler_ok (pr_shared p)"
    using handler_steps_handler_ok [OF assms(2)] by blast
  from finish_task [OF this assms(3,4), of hl put] obtain n p' r c out where
    "n \<le> task_rank t + 1" "((handler_step hl put) ^^ n) p p'"
    "pr_tasks p' = (pr_tasks p)[i := (T_Done r c out, False)]" "pr_slots p' = pr_slots p + 1"
    by blast
  moreover from this have "n \<le> 9"
    using task_rank_le [of t] by simp
  ultimately show ?thesis by blast
qed

theorem delivery_completes_witness:
  "\<exists>n p' r c out. n \<le> 9 \<and> ((handler_step (\<lambda>_ :: unit. example_handler) (\<lambda>_. memory_put zero_hash)) ^^ n)
       (lone (T_Received example_event 1001) busy_shared) p' \<and>
     pr_tasks p' = [(T_Done r c out, False)] \<and> pr_slots p' = 64"
  using delivery_completes [OF busy_shared_new lone_start [where event = example_event and now = 1001],
      of 0 "T_Received example_event 1001" "\<lambda>_ :: unit. example_handler" "\<lambda>_. memory_put zero_hash"]
  by simp

end
