(* ===== verification/Config.thy ===== *)
theory Config
  imports Types Decimal
begin

text \<open>
  \<open>apps/provider/src/config.rs\<close>: the provider's configuration from its environment. The
  environment, the parser of URLs and of socket addresses and the file system are the
  fields of \<open>config_lib\<close>; splitting, trimming and integer parsing are standard library and
  written out. Each \<open>bail!\<close> and \<open>context\<close> is a constructor of \<open>ConfigError\<close>. The target is
  Unix.
\<close>

unbundle bit_operations_syntax

section \<open>Definitions\<close>

definition MODE :: string where "MODE = ''SOUL_PROVIDER_MODE''"

definition RELAYS :: string where "RELAYS = ''SOUL_PROVIDER_RELAYS''"

definition SECRET_KEY :: string where "SECRET_KEY = ''SOUL_PROVIDER_SECRET_KEY''"

definition SECRET_KEY_FILE :: string where "SECRET_KEY_FILE = ''SOUL_PROVIDER_SECRET_KEY_FILE''"

definition NAME :: string where "NAME = ''SOUL_PROVIDER_NAME''"

definition HTTP_ADDR :: string where "HTTP_ADDR = ''SOUL_PROVIDER_HTTP_ADDR''"

definition ARTIFACT_DIR :: string where "ARTIFACT_DIR = ''SOUL_PROVIDER_ARTIFACT_DIR''"

definition PUBLIC_BASE_URL :: string where "PUBLIC_BASE_URL = ''SOUL_PROVIDER_PUBLIC_BASE_URL''"

definition MAX_CONCURRENT_PROOFS :: string where
  "MAX_CONCURRENT_PROOFS = ''SOUL_PROVIDER_MAX_CONCURRENT_PROOFS''"

definition CAIRO_EXECUTABLE :: string where "CAIRO_EXECUTABLE = ''SOUL_CAIRO_EXECUTABLE''"

definition CAIRO_PROGRAM_HASH :: string where "CAIRO_PROGRAM_HASH = ''SOUL_CAIRO_PROGRAM_HASH''"

definition CAIRO_EXECUTABLE_SHA256 :: string where
  "CAIRO_EXECUTABLE_SHA256 = ''SOUL_CAIRO_EXECUTABLE_SHA256''"

lemmas env_keys = MODE_def RELAYS_def SECRET_KEY_def SECRET_KEY_FILE_def NAME_def HTTP_ADDR_def
  ARTIFACT_DIR_def PUBLIC_BASE_URL_def MAX_CONCURRENT_PROOFS_def CAIRO_EXECUTABLE_def
  CAIRO_PROGRAM_HASH_def CAIRO_EXECUTABLE_SHA256_def

datatype ConfigError =
    InvalidMode string
  | RequiredInProduction string
  | AlwaysRequired string
  | InvalidRelayUrl string
  | UnsafeRelayUrl
  | InsecureRelayUrl
  | NoRelays
  | SecretsExclusive
  | SecretRequired
  | SecretFileInspection string
  | SecretFileKind
  | SecretFilePermissions
  | SecretFileRead string
  | SecretFileContent
  | InvalidName
  | InvalidHttpAddr
  | InvalidBaseUrl
  | UnsafeBaseUrl
  | InsecureBaseUrl
  | ConcurrencyNotInteger
  | ConcurrencyOutOfRange
  | InvalidProgramHash ValidationError
  | InvalidExecutableSha256

text \<open>\<open>env_var\<close> is \<open>None\<close> for a variable that is unset or not Unicode.\<close>

record file_metadata =
  fm_is_file :: bool
  fm_len :: u64
  fm_mode :: u32

record 'addr config_lib =
  env_var :: "string \<Rightarrow> string option"
  cl_url_parse :: "string \<Rightarrow> Url option"
  cl_set_path :: "Url \<Rightarrow> string \<Rightarrow> Url"
  addr_parse :: "string \<Rightarrow> 'addr option"
  fs_metadata :: "string \<Rightarrow> file_metadata option"
  fs_read_to_string :: "string \<Rightarrow> string option"

datatype ProviderMode = Production | Development | Test

definition env_or :: "('addr, 'x) config_lib_scheme \<Rightarrow> string \<Rightarrow> string \<Rightarrow> string" where
  "env_or lib key fallback = (case env_var lib key of Some value \<Rightarrow> value | None \<Rightarrow> fallback)"

definition ProviderMode_from_env :: "('addr, 'x) config_lib_scheme \<Rightarrow> (ConfigError, ProviderMode) result" where
  "ProviderMode_from_env lib =
     (let value = env_or lib MODE ''production'' in
      if value = ''production'' then Inr Production
      else if value = ''development'' then Inr Development
      else if value = ''test'' then Inr Test
      else Inl (InvalidMode value))"

definition permits_ephemeral_identity :: "ProviderMode \<Rightarrow> bool" where
  "permits_ephemeral_identity mode \<longleftrightarrow> mode = Development \<or> mode = Test"

record 'addr Config =
  cf_mode :: ProviderMode
  cf_relay_urls :: "string list"
  cf_secret_key :: "string option"
  cf_name :: string
  cf_http_addr :: 'addr
  cf_artifact_dir :: string
  cf_public_base_url :: Url
  cf_max_concurrent_proofs :: nat
  cf_cairo_executable :: string
  cf_expected_program_hash :: FeltHex
  cf_expected_executable_sha256 :: string

text \<open>\<open>str::split\<close> at an ASCII character, and \<open>str::trim\<close>.\<close>

fun str_split :: "char \<Rightarrow> string \<Rightarrow> string list" where
  "str_split c [] = [[]]"
| "str_split c (x # xs) =
     (if x = c then [] # str_split c xs
      else (case str_split c xs of [] \<Rightarrow> [[x]] | w # ws \<Rightarrow> (x # w) # ws))"

definition str_trim :: "string \<Rightarrow> string" where
  "str_trim s = utf8_encode (rev (dropWhile is_whitespace (rev (dropWhile is_whitespace (utf8_chars s)))))"

definition validate_relay_url ::
  "('addr, 'x) config_lib_scheme \<Rightarrow> string \<Rightarrow> bool \<Rightarrow> (ConfigError, string) result" where
  "validate_relay_url lib value is_production =
     and_then (ok_or (InvalidRelayUrl value) (cl_url_parse lib value)) (\<lambda>url.
     if \<not> (url_scheme url = ''ws'' \<or> url_scheme url = ''wss'')
        \<or> url_host url = None
        \<or> url_username url \<noteq> ''''
        \<or> url_password url \<noteq> None
        \<or> url_fragment url \<noteq> None
     then Inl UnsafeRelayUrl
     else if is_production \<and> url_scheme url \<noteq> ''wss'' then Inl InsecureRelayUrl
     else Inr (url_serialization url))"

definition config_is_loopback_host :: "Url \<Rightarrow> bool" where
  "config_is_loopback_host url =
     (case url_host url of
        Some (Domain domain) \<Rightarrow> eq_ignore_ascii_case domain ''localhost''
      | Some (Ipv4 address) \<Rightarrow> ipv4_is_loopback address
      | Some (Ipv6 address) \<Rightarrow> ipv6_is_loopback address
      | None \<Rightarrow> False)"

definition validate_public_base_url ::
  "('addr, 'x) config_lib_scheme \<Rightarrow> string \<Rightarrow> (ConfigError, Url) result" where
  "validate_public_base_url lib value =
     and_then (ok_or InvalidBaseUrl (cl_url_parse lib value)) (\<lambda>url.
     if \<not> (url_scheme url = ''http'' \<or> url_scheme url = ''https'')
        \<or> url_host url = None
        \<or> url_username url \<noteq> ''''
        \<or> url_password url \<noteq> None
        \<or> url_query url \<noteq> None
        \<or> url_fragment url \<noteq> None
        \<or> (url_scheme url = ''http'' \<and> \<not> config_is_loopback_host url)
     then Inl UnsafeBaseUrl
     else if strip_suffix ''/'' (url_path url) = None
     then Inr (cl_set_path lib url (url_path url @ ''/''))
     else Inr url)"

text \<open>A variable that is set and not empty.\<close>

definition env_nonempty :: "('addr, 'x) config_lib_scheme \<Rightarrow> string \<Rightarrow> string option" where
  "env_nonempty lib key =
     (case env_var lib key of Some value \<Rightarrow> if value \<noteq> [] then Some value else None | None \<Rightarrow> None)"

definition read_secret_key :: "('addr, 'x) config_lib_scheme \<Rightarrow> (ConfigError, string option) result" where
  "read_secret_key lib =
     (let inline = env_nonempty lib SECRET_KEY; file = env_nonempty lib SECRET_KEY_FILE in
      if inline \<noteq> None \<and> file \<noteq> None then Inl SecretsExclusive else
      case file of
        None \<Rightarrow> Inr inline
      | Some path \<Rightarrow>
          and_then (ok_or (SecretFileInspection path) (fs_metadata lib path)) (\<lambda>metadata.
          if \<not> fm_is_file metadata \<or> fm_len metadata > 256 then Inl SecretFileKind
          else if fm_mode metadata AND 0x3F \<noteq> 0 then Inl SecretFilePermissions
          else and_then (ok_or (SecretFileRead path) (fs_read_to_string lib path)) (\<lambda>text.
            let value = (case strip_suffix [CHR 0x0A] text of Some v \<Rightarrow> v | None \<Rightarrow> text);
                value = (case strip_suffix [CHR 0x0D] value of Some v \<Rightarrow> v | None \<Rightarrow> value)
            in if value = [] \<or> list_ex is_whitespace (utf8_chars value) then Inl SecretFileContent
               else Inr (Some value))))"

text \<open>A variable that only the production mode requires.\<close>

definition required_or :: "('addr, 'x) config_lib_scheme \<Rightarrow> bool \<Rightarrow> string \<Rightarrow> string \<Rightarrow> (ConfigError, string) result" where
  "required_or lib is_production key fallback =
     (case env_var lib key of
        Some value \<Rightarrow> Inr value
      | None \<Rightarrow> if \<not> is_production then Inr fallback else Inl (RequiredInProduction key))"

definition Config_from_env :: "('addr, 'x) config_lib_scheme \<Rightarrow> (ConfigError, 'addr Config) result" where
  "Config_from_env lib =
     and_then (ProviderMode_from_env lib) (\<lambda>mode.
     let is_production = (mode = Production) in
     and_then (required_or lib is_production RELAYS ''ws://127.0.0.1:7000'') (\<lambda>relay_value.
     and_then (collect_results (map (\<lambda>value. validate_relay_url lib value is_production)
         (filter (\<lambda>value. value \<noteq> []) (map str_trim (str_split CHR '','' relay_value))))) (\<lambda>relay_urls.
     if relay_urls = [] then Inl NoRelays else
     and_then (read_secret_key lib) (\<lambda>secret_key.
     if is_production \<and> secret_key = None then Inl SecretRequired else
     let name = env_or lib NAME ''soul-provider'' in
     if name = [] \<or> length name > 64 \<or> list_ex is_control (utf8_chars name) then Inl InvalidName else
     and_then (ok_or InvalidHttpAddr (addr_parse lib (env_or lib HTTP_ADDR ''127.0.0.1:8081''))) (\<lambda>http_addr.
     let artifact_dir = env_or lib ARTIFACT_DIR ''./var/proofs'' in
     and_then (required_or lib is_production PUBLIC_BASE_URL ''http://127.0.0.1:8081'') (\<lambda>base_value.
     and_then (validate_public_base_url lib base_value) (\<lambda>public_base_url.
     if is_production \<and> url_scheme public_base_url \<noteq> ''https'' then Inl InsecureBaseUrl else
     and_then (ok_or ConcurrencyNotInteger (parse_unsigned (2 ^ 64) (env_or lib MAX_CONCURRENT_PROOFS ''1'')))
       (\<lambda>max_concurrent_proofs.
     if \<not> (1 \<le> max_concurrent_proofs \<and> max_concurrent_proofs \<le> 16) then Inl ConcurrencyOutOfRange else
     and_then (required_or lib is_production CAIRO_EXECUTABLE
       ''crates/soul-cairo/target/dev/soul_cairo.executable.json'') (\<lambda>cairo_executable.
     and_then (ok_or (AlwaysRequired CAIRO_PROGRAM_HASH) (env_var lib CAIRO_PROGRAM_HASH)) (\<lambda>hash_value.
     and_then (map_err InvalidProgramHash (FeltHex_parse hash_value)) (\<lambda>expected_program_hash.
     and_then (ok_or (AlwaysRequired CAIRO_EXECUTABLE_SHA256) (env_var lib CAIRO_EXECUTABLE_SHA256))
       (\<lambda>expected_executable_sha256.
     if length expected_executable_sha256 \<noteq> 64 \<or> \<not> list_all lower_hex_byte expected_executable_sha256
     then Inl InvalidExecutableSha256
     else Inr
       \<lparr>cf_mode = mode, cf_relay_urls = relay_urls, cf_secret_key = secret_key, cf_name = name,
        cf_http_addr = http_addr, cf_artifact_dir = artifact_dir, cf_public_base_url = public_base_url,
        cf_max_concurrent_proofs = max_concurrent_proofs, cf_cairo_executable = cairo_executable,
        cf_expected_program_hash = expected_program_hash,
        cf_expected_executable_sha256 = expected_executable_sha256\<rparr>))))))))))))"

section \<open>What the readers accept\<close>

lemma validate_relay_url_eq_Inr:
  "validate_relay_url lib value is_production = Inr r \<longleftrightarrow>
     (\<exists>url. cl_url_parse lib value = Some url \<and> r = url_serialization url \<and>
        (url_scheme url = ''wss'' \<or> url_scheme url = ''ws'' \<and> \<not> is_production) \<and>
        url_host url \<noteq> None \<and> url_username url = [] \<and> url_password url = None \<and> url_fragment url = None)"
  by (auto simp: validate_relay_url_def and_then_eq_Inr)

lemma config_is_loopback_host_eq: "config_is_loopback_host = is_loopback_host"
  by (simp add: fun_eq_iff config_is_loopback_host_def is_loopback_host_def)

definition base_url_safe :: "Url \<Rightarrow> bool" where
  "base_url_safe url \<longleftrightarrow>
     (url_scheme url = ''https'' \<or> url_scheme url = ''http'' \<and> is_loopback_host url) \<and>
     url_host url \<noteq> None \<and> url_username url = [] \<and> url_password url = None \<and>
     url_query url = None \<and> url_fragment url = None"

lemma no_suffix_iff: "strip_suffix x path = None \<longleftrightarrow> (\<nexists>p. path = p @ x)"
  by (metis not_None_eq strip_suffix_eq_Some)

lemma validate_public_base_url_eq_Inr:
  "validate_public_base_url lib value = Inr r \<longleftrightarrow>
     (\<exists>url. cl_url_parse lib value = Some url \<and> base_url_safe url \<and>
        r = (if \<exists>p. url_path url = p @ ''/'' then url else cl_set_path lib url (url_path url @ ''/'')))"
  by (auto simp: validate_public_base_url_def and_then_eq_Inr base_url_safe_def config_is_loopback_host_eq
      no_suffix_iff split: if_splits)

lemma read_secret_key_nonempty:
  assumes "read_secret_key lib = Inr (Some key)"
  shows "key \<noteq> []"
proof (cases "env_nonempty lib SECRET_KEY_FILE")
  case None
  with assms show ?thesis
    by (auto simp: read_secret_key_def Let_def env_nonempty_def split: option.splits if_splits)
next
  case (Some path)
  with assms show ?thesis
    by (auto simp: read_secret_key_def Let_def and_then_eq_Inr split: if_splits)
qed

lemma collect_results_mem:
  "collect_results (map f xs) = Inr rs \<Longrightarrow> r \<in> set rs \<Longrightarrow> \<exists>x \<in> set xs. f x = Inr r"
  by (induction xs arbitrary: rs) (auto simp: and_then_eq_Inr)

lemma guard_eq_Inr: "(if c then Inl e else r) = Inr a \<longleftrightarrow> \<not> c \<and> r = Inr a"
  by simp

text \<open>The checks that a configuration has passed.\<close>

definition config_checked :: "('addr, 'x) config_lib_scheme \<Rightarrow> 'addr Config \<Rightarrow> bool" where
  "config_checked lib cfg \<longleftrightarrow>
     (\<exists>relay_value base_value hash_value.
        collect_results (map (\<lambda>value. validate_relay_url lib value (cf_mode cfg = Production))
          (filter (\<lambda>value. value \<noteq> []) (map str_trim (str_split CHR '','' relay_value)))) = Inr (cf_relay_urls cfg) \<and>
        validate_public_base_url lib base_value = Inr (cf_public_base_url cfg) \<and>
        FeltHex_parse hash_value = Inr (cf_expected_program_hash cfg)) \<and>
     cf_relay_urls cfg \<noteq> [] \<and>
     read_secret_key lib = Inr (cf_secret_key cfg) \<and>
     (cf_mode cfg = Production \<longrightarrow> cf_secret_key cfg \<noteq> None \<and> url_scheme (cf_public_base_url cfg) = ''https'') \<and>
     cf_name cfg \<noteq> [] \<and> length (cf_name cfg) \<le> 64 \<and> \<not> list_ex is_control (utf8_chars (cf_name cfg)) \<and>
     1 \<le> cf_max_concurrent_proofs cfg \<and> cf_max_concurrent_proofs cfg \<le> 16 \<and>
     length (cf_expected_executable_sha256 cfg) = 64 \<and>
     list_all lower_hex_byte (cf_expected_executable_sha256 cfg)"

lemma Config_from_env_checked:
  assumes "Config_from_env lib = Inr cfg"
  shows "config_checked lib cfg"
proof -
  let ?name = "env_or lib NAME ''soul-provider''"
  from assms obtain mode relay_value relay_urls secret_key addr base_value base n exe hash_value hash digest where
    urls: "collect_results (map (\<lambda>value. validate_relay_url lib value (mode = Production))
      (filter (\<lambda>value. value \<noteq> []) (map str_trim (str_split CHR '','' relay_value)))) = Inr relay_urls"
      "relay_urls \<noteq> []"
    and secret: "read_secret_key lib = Inr secret_key" "\<not> (mode = Production \<and> secret_key = None)"
    and name: "\<not> (?name = [] \<or> length ?name > 64 \<or> list_ex is_control (utf8_chars ?name))"
    and base: "validate_public_base_url lib base_value = Inr base"
      "\<not> (mode = Production \<and> url_scheme base \<noteq> ''https'')"
    and n: "\<not> \<not> (1 \<le> n \<and> n \<le> 16)"
    and hash: "map_err InvalidProgramHash (FeltHex_parse hash_value) = Inr hash"
    and digest: "\<not> (length digest \<noteq> 64 \<or> \<not> list_all lower_hex_byte digest)"
    and cfg: "Inr \<lparr>cf_mode = mode, cf_relay_urls = relay_urls, cf_secret_key = secret_key, cf_name = ?name,
        cf_http_addr = addr, cf_artifact_dir = env_or lib ARTIFACT_DIR ''./var/proofs'', cf_public_base_url = base,
        cf_max_concurrent_proofs = n, cf_cairo_executable = exe, cf_expected_program_hash = hash,
        cf_expected_executable_sha256 = digest\<rparr> = (Inr cfg :: (ConfigError, _) result)"
    unfolding Config_from_env_def Let_def and_then_eq_Inr guard_eq_Inr by (elim exE conjE) (rule that)
  from cfg have "cf_mode cfg = mode" "cf_relay_urls cfg = relay_urls" "cf_secret_key cfg = secret_key"
    "cf_name cfg = ?name" "cf_public_base_url cfg = base" "cf_max_concurrent_proofs cfg = n"
    "cf_expected_program_hash cfg = hash" "cf_expected_executable_sha256 cfg = digest"
    by auto
  then show ?thesis
    using urls secret name base n hash digest unfolding config_checked_def by auto
qed

section \<open>An instance\<close>

definition example_config_lib :: "nat config_lib" where
  "example_config_lib =
     \<lparr>env_var = map_of
        [(RELAYS, '' wss://relay.example/,,wss://other.example/ ''),
         (SECRET_KEY_FILE, ''/run/secret''),
         (PUBLIC_BASE_URL, ''https://proofs.example/p''),
         (MAX_CONCURRENT_PROOFS, ''4''),
         (CAIRO_EXECUTABLE, ''/opt/soul.json''),
         (CAIRO_PROGRAM_HASH, as_str (FeltHex_from_u64 9)),
         (CAIRO_EXECUTABLE_SHA256, replicate 64 CHR ''a'')],
      cl_url_parse = (\<lambda>s. Some
        \<lparr>url_scheme = takeWhile (\<lambda>c. c \<noteq> CHR '':'') s, url_username = [], url_password = None,
         url_host = Some (Domain ''host''), url_path = ''/p'', url_query = None, url_fragment = None,
         url_serialization = s\<rparr>),
      cl_set_path = (\<lambda>url path. url\<lparr>url_path := path\<rparr>),
      addr_parse = (\<lambda>s. if s = ''127.0.0.1:8081'' then Some 8081 else None),
      fs_metadata = (\<lambda>_. Some \<lparr>fm_is_file = True, fm_len = 65, fm_mode = 0x8180\<rparr>),
      fs_read_to_string = (\<lambda>_. Some (''nsec1key'' @ [CHR 0x0D, CHR 0x0A]))\<rparr>"

lemma example_env:
  "env_var example_config_lib MODE = None" "env_var example_config_lib SECRET_KEY = None"
  "env_var example_config_lib NAME = None" "env_var example_config_lib HTTP_ADDR = None"
  "env_var example_config_lib ARTIFACT_DIR = None"
  "env_var example_config_lib RELAYS = Some '' wss://relay.example/,,wss://other.example/ ''"
  "env_var example_config_lib SECRET_KEY_FILE = Some ''/run/secret''"
  "env_var example_config_lib PUBLIC_BASE_URL = Some ''https://proofs.example/p''"
  "env_var example_config_lib MAX_CONCURRENT_PROOFS = Some ''4''"
  "env_var example_config_lib CAIRO_EXECUTABLE = Some ''/opt/soul.json''"
  "env_var example_config_lib CAIRO_PROGRAM_HASH = Some (as_str (FeltHex_from_u64 9))"
  "env_var example_config_lib CAIRO_EXECUTABLE_SHA256 = Some (replicate 64 CHR ''a'')"
  by (simp_all add: example_config_lib_def env_keys)

lemma example_relays:
  "collect_results (map (\<lambda>value. validate_relay_url example_config_lib value True)
     (filter (\<lambda>value. value \<noteq> []) (map str_trim (str_split CHR '','' '' wss://relay.example/,,wss://other.example/ '')))) =
   Inr [''wss://relay.example/'', ''wss://other.example/'']"
proof -
  have "str_trim '' wss://relay.example/'' = ''wss://relay.example/''"
    "str_trim ''wss://other.example/ '' = ''wss://other.example/''" "str_trim [] = []"
    by (simp_all add: str_trim_def is_whitespace_def utf8_encode_char_def char_of_eq_iff)
  then show ?thesis
    by (simp add: validate_relay_url_def example_config_lib_def)
qed

lemma example_secret: "read_secret_key example_config_lib = Inr (Some ''nsec1key'')"
proof -
  have secret_file: "fs_metadata example_config_lib path = Some \<lparr>fm_is_file = True, fm_len = 65, fm_mode = 0x8180\<rparr>"
    "fs_read_to_string example_config_lib path = Some (''nsec1key'' @ [CHR 0x0D, CHR 0x0A])" for path
    by (simp_all add: example_config_lib_def)
  have strips: "strip_suffix [CHR 0x0A] (''nsec1key'' @ [CHR 0x0D, CHR 0x0A]) = Some (''nsec1key'' @ [CHR 0x0D])"
    "strip_suffix [CHR 0x0D] (''nsec1key'' @ [CHR 0x0D]) = Some ''nsec1key''"
    by simp_all
  have "list_ex is_whitespace (utf8_chars ''nsec1key'') = False"
    by (simp add: is_whitespace_def)
  then show ?thesis
    by (simp add: read_secret_key_def env_nonempty_def example_env secret_file strips Let_def
        del: append.simps strip_suffix_eq_Some utf8_chars.simps list_ex_iff)
qed

lemma example_config:
  "\<exists>cfg. Config_from_env example_config_lib = Inr cfg \<and> cf_mode cfg = Production \<and>
     cf_relay_urls cfg = [''wss://relay.example/'', ''wss://other.example/''] \<and>
     cf_secret_key cfg = Some ''nsec1key'' \<and> cf_max_concurrent_proofs cfg = 4 \<and>
     url_path (cf_public_base_url cfg) = ''/p/'' \<and>
     cf_expected_executable_sha256 cfg = replicate 64 CHR ''a''"
proof -
  have base: "\<exists>url. validate_public_base_url example_config_lib ''https://proofs.example/p'' = Inr url \<and>
      url_scheme url = ''https'' \<and> url_path url = ''/p/''"
    by (simp add: validate_public_base_url_eq_Inr example_config_lib_def base_url_safe_def)
  have "parse_unsigned (2 ^ 64) ''4'' = Some 4"
    by (simp add: parse_unsigned_def is_ascii_digit_def dec_digit_val_def)
  moreover have "\<not> list_ex is_control (utf8_chars ''soul-provider'')"
    by (simp add: is_control_def)
  moreover have "addr_parse example_config_lib ''127.0.0.1:8081'' = Some 8081"
    by (simp add: example_config_lib_def)
  moreover have "list_all lower_hex_byte (replicate 64 CHR ''a'')"
    by (simp add: list_all_replicate lower_hex_byte_def)
  moreover have "ProviderMode_from_env example_config_lib = Inr Production"
    by (simp add: ProviderMode_from_env_def env_or_def example_env)
  ultimately show ?thesis
    using base example_relays example_secret FeltHex_parse_as_str [OF felt_ok_from_u64 [of 9]]
    by (auto simp: Config_from_env_def env_or_def required_or_def example_env Let_def
        simp del: str_split.simps list_ex_iff utf8_chars.simps)
qed

section \<open>Properties\<close>

text \<open>C32: a configuration that is read is a safe one: at least one relay, each the canonical
  text of a WebSocket URL with a host and without credentials; a base URL that is HTTPS, or
  HTTP to a loopback host outside production, ends in a slash and carries no credentials,
  query or fragment; one to sixteen proofs at a time; a program hash that is a canonical
  field element and a digest of 64 lower-case digits; a printable name. In production the
  relays use TLS, the base URL HTTPS, and a nonempty secret key is given. \<open>Url::set_path\<close>
  is only asked to keep the other parts and the final slash of the path of an HTTP URL.\<close>

theorem config_read_is_safe:
  assumes "Config_from_env lib = Inr cfg"
    and "\<And>url path. url_scheme url = ''http'' \<or> url_scheme url = ''https'' \<Longrightarrow>
      url_scheme (cl_set_path lib url path) = url_scheme url \<and> url_host (cl_set_path lib url path) = url_host url \<and>
      url_username (cl_set_path lib url path) = url_username url \<and>
      url_password (cl_set_path lib url path) = url_password url \<and>
      url_query (cl_set_path lib url path) = url_query url \<and>
      url_fragment (cl_set_path lib url path) = url_fragment url"
    and "\<And>url path. url_scheme url = ''http'' \<or> url_scheme url = ''https'' \<Longrightarrow>
      \<exists>p. url_path (cl_set_path lib url (path @ ''/'')) = p @ ''/''"
  shows "cf_relay_urls cfg \<noteq> [] \<and>
    (\<forall>r \<in> set (cf_relay_urls cfg). \<exists>value url. cl_url_parse lib value = Some url \<and> r = url_serialization url \<and>
       (url_scheme url = ''wss'' \<or> url_scheme url = ''ws'' \<and> cf_mode cfg \<noteq> Production) \<and>
       url_host url \<noteq> None \<and> url_username url = [] \<and> url_password url = None \<and> url_fragment url = None) \<and>
    (cf_mode cfg = Production \<longrightarrow> cf_secret_key cfg \<noteq> None) \<and> cf_secret_key cfg \<noteq> Some [] \<and>
    base_url_safe (cf_public_base_url cfg) \<and>
    (cf_mode cfg = Production \<longrightarrow> url_scheme (cf_public_base_url cfg) = ''https'') \<and>
    (\<exists>p. url_path (cf_public_base_url cfg) = p @ ''/'') \<and>
    1 \<le> cf_max_concurrent_proofs cfg \<and> cf_max_concurrent_proofs cfg \<le> 16 \<and>
    felt_ok (cf_expected_program_hash cfg) \<and>
    length (cf_expected_executable_sha256 cfg) = 64 \<and> list_all lower_hex_byte (cf_expected_executable_sha256 cfg) \<and>
    0 < length (cf_name cfg) \<and> length (cf_name cfg) \<le> 64 \<and> \<not> list_ex is_control (utf8_chars (cf_name cfg))"
proof -
  note checked = Config_from_env_checked [OF assms(1), unfolded config_checked_def]
  then obtain relay_value base_value hash_value where
    relays: "collect_results (map (\<lambda>value. validate_relay_url lib value (cf_mode cfg = Production))
      (filter (\<lambda>value. value \<noteq> []) (map str_trim (str_split CHR '','' relay_value)))) = Inr (cf_relay_urls cfg)"
    and base: "validate_public_base_url lib base_value = Inr (cf_public_base_url cfg)"
    and hash: "FeltHex_parse hash_value = Inr (cf_expected_program_hash cfg)"
    by blast
  have "\<exists>value. validate_relay_url lib value (cf_mode cfg = Production) = Inr r" if "r \<in> set (cf_relay_urls cfg)" for r
    using collect_results_mem [OF relays that] by blast
  then have each: "\<forall>r \<in> set (cf_relay_urls cfg). \<exists>value url. cl_url_parse lib value = Some url \<and> r = url_serialization url \<and>
       (url_scheme url = ''wss'' \<or> url_scheme url = ''ws'' \<and> cf_mode cfg \<noteq> Production) \<and>
       url_host url \<noteq> None \<and> url_username url = [] \<and> url_password url = None \<and> url_fragment url = None"
    by (simp add: validate_relay_url_eq_Inr)
  obtain url where url: "base_url_safe url" and set: "cf_public_base_url cfg =
      (if \<exists>p. url_path url = p @ ''/'' then url else cl_set_path lib url (url_path url @ ''/''))"
    using base by (auto simp: validate_public_base_url_eq_Inr)
  then have http: "url_scheme url = ''http'' \<or> url_scheme url = ''https''"
    by (auto simp: base_url_safe_def)
  have safe: "base_url_safe (cf_public_base_url cfg) \<and> (\<exists>p. url_path (cf_public_base_url cfg) = p @ ''/'')"
    using url set assms(2,3) [OF http] by (auto simp: base_url_safe_def is_loopback_host_def)
  have "cf_secret_key cfg \<noteq> Some []"
    using checked read_secret_key_nonempty by metis
  moreover have "cf_relay_urls cfg \<noteq> []" "cf_mode cfg = Production \<longrightarrow> cf_secret_key cfg \<noteq> None"
    "cf_mode cfg = Production \<longrightarrow> url_scheme (cf_public_base_url cfg) = ''https''"
    "1 \<le> cf_max_concurrent_proofs cfg" "cf_max_concurrent_proofs cfg \<le> 16"
    "length (cf_expected_executable_sha256 cfg) = 64" "list_all lower_hex_byte (cf_expected_executable_sha256 cfg)"
    "0 < length (cf_name cfg)" "length (cf_name cfg) \<le> 64" "\<not> list_ex is_control (utf8_chars (cf_name cfg))"
    using checked by simp_all
  ultimately show ?thesis
    using each safe felt_ok_parse [OF hash] by (elim conjE, intro conjI)
qed

theorem config_read_is_safe_witness:
  "\<exists>cfg. Config_from_env example_config_lib = Inr cfg \<and> cf_mode cfg = Production \<and>
     cf_secret_key cfg \<noteq> None \<and> url_scheme (cf_public_base_url cfg) = ''https'' \<and>
     felt_ok (cf_expected_program_hash cfg)"
proof -
  obtain cfg where cfg: "Config_from_env example_config_lib = Inr cfg" "cf_mode cfg = Production"
    using example_config by blast
  from config_read_is_safe [OF cfg(1)] cfg show ?thesis
    by (auto simp: example_config_lib_def)
qed

end
