(* ===== verification/Startup.thy ===== *)
theory Startup
  imports Handler Config
begin

text \<open>
  \<open>apps/provider/src/main.rs\<close> and the transport of \<open>apps/provider/src/nostr/handler.rs\<close> up to
  the subscription: the provider is assembled from its configuration, its identity, the
  store, the pinned engine, the processor and the handler. A panic of a constructor is the
  error \<open>S_Panic\<close>. The key codec, the directory, the relay pool and the listener are the
  fields of \<open>startup_lib\<close>; tracing, serving and shutdown are left out.
\<close>

section \<open>Definitions\<close>

datatype StartupError =
    S_Config ConfigError
  | S_InvalidSecretKey
  | S_SecretKeyRequired
  | S_Store
  | S_Engine ProverError
  | S_AddRelay string
  | S_NoRelayConnected
  | S_Bind
  | S_Panic string

record ('addr, 'keys) startup_lib =
  config_ops :: "'addr config_lib"
  host_ops :: host
  keys_parse :: "string \<Rightarrow> 'keys option"
  keys_generate :: 'keys
  create_dir_all :: "string \<Rightarrow> bool"
  add_relay :: "string \<Rightarrow> bool"
  relays_connected :: "string list \<Rightarrow> bool list"
  bind_listener :: "'addr \<Rightarrow> bool"

definition provider_keys ::
  "('addr, 'keys, 'x) startup_lib_scheme \<Rightarrow> 'addr Config \<Rightarrow> (StartupError, 'keys) result" where
  "provider_keys lib config =
     (case cf_secret_key config of
        Some secret_key \<Rightarrow> ok_or S_InvalidSecretKey (keys_parse lib secret_key)
      | None \<Rightarrow>
          if permits_ephemeral_identity (cf_mode config) then Inr (keys_generate lib)
          else Inl S_SecretKeyRequired)"

definition NostrEventHandler_new ::
  "('addr, 'keys, 'x) startup_lib_scheme \<Rightarrow> string list \<Rightarrow> ProofProcessor \<Rightarrow> 's \<Rightarrow>
   (StartupError, 's provider) result" where
  "NostrEventHandler_new lib relay_urls p s =
     and_then (collect_results (map (\<lambda>relay.
       if add_relay lib relay then Inr () else Inl (S_AddRelay relay)) relay_urls)) (\<lambda>_.
     let connected = length (filter (\<lambda>c. c) (relays_connected lib relay_urls)) in
     if connected = 0 then Inl S_NoRelayConnected else
     and_then (map_err S_Panic (SignedJobHandler_new MAX_DEDUPE_ENTRIES p s)) (\<lambda>sh.
     Inr (provider_start sh)))"

definition run_startup ::
  "('addr, 'keys, 'x) startup_lib_scheme \<Rightarrow> 's \<Rightarrow>
   (StartupError, 'addr Config \<times> 'keys \<times> VerifiableJobEngine \<times> 's provider) result" where
  "run_startup lib s =
     and_then (map_err S_Config (Config_from_env (config_ops lib))) (\<lambda>config.
     and_then (provider_keys lib config) (\<lambda>keys.
     and_then (map_err (\<lambda>_. S_Store) (FileProofArtifactStore_new (create_dir_all lib) (cf_artifact_dir config))) (\<lambda>_.
     and_then (map_err S_Engine (VerifiableJobEngine_new (host_ops lib) (cf_cairo_executable config)
       (cf_expected_program_hash config) (cf_expected_executable_sha256 config))) (\<lambda>engine.
     and_then (map_err S_Panic (ProofProcessor_new (cf_public_base_url config)
       (cf_max_concurrent_proofs config))) (\<lambda>p.
     and_then (NostrEventHandler_new lib (cf_relay_urls config) p s) (\<lambda>provider.
     if \<not> bind_listener lib (cf_http_addr config) then Inl S_Bind else
     Inr (config, keys, engine, provider)))))))"

text \<open>The filter of the subscription: the request kinds, and a finite look-back.\<close>

record request_filter =
  filter_kinds :: "u16 list"
  filter_since :: u64

definition subscription_filter :: "u64 \<Rightarrow> request_filter" where
  "subscription_filter now =
     \<lparr>filter_kinds = REQUESTS, filter_since = saturating_sub now MAX_REQUEST_AGE_SECS\<rparr>"

section \<open>What start-up checks\<close>

lemma VerifiableJobEngine_new_eq_Inr:
  "VerifiableJobEngine_new h exe program_hash digest = Inr engine \<longleftrightarrow>
     engine = \<lparr>engine_executable = exe, expected_program_hash = program_hash\<rparr> \<and> is_file h exe \<and>
     length digest = 64 \<and> list_all lower_hex_byte digest \<and>
     (\<exists>bs. fs_read h exe = Inr bs \<and> hex_of_bytes (sha256_digest h bs) = digest)"
  by (auto simp: VerifiableJobEngine_new_def ensure_executable_def ensure_executable_digest_def Let_def
      and_then_eq_Inr)

lemma ProofProcessor_new_config:
  "config_checked lib config \<Longrightarrow>
     ProofProcessor_new (cf_public_base_url config) (cf_max_concurrent_proofs config) =
       Inr \<lparr>public_base_url = cf_public_base_url config, proving_slots = cf_max_concurrent_proofs config\<rparr>"
  by (simp add: ProofProcessor_new_def config_checked_def)

lemma SignedJobHandler_new_returns: "0 < cap \<Longrightarrow> \<exists>sh. SignedJobHandler_new cap p s = Inr sh"
  by (simp add: SignedJobHandler_new_def RequestDeduplicator_new_def)

lemma add_relays_error:
  "collect_results (map (\<lambda>relay. if add_relay lib relay then Inr () else Inl (S_AddRelay relay)) urls) = Inl e \<Longrightarrow>
     \<exists>relay. e = S_AddRelay relay"
  by (drule collect_results_Inl_mem) (auto split: if_splits)

lemma NostrEventHandler_new_eq_Inr:
  "NostrEventHandler_new lib urls p s = Inr provider \<Longrightarrow>
     \<exists>sh. SignedJobHandler_new MAX_DEDUPE_ENTRIES p s = Inr sh \<and> provider = provider_start sh"
  by (auto simp: NostrEventHandler_new_def Let_def and_then_eq_Inr split: if_splits)

lemma run_startup_provider:
  assumes "run_startup lib s = Inr (config, keys, engine, p)"
  obtains q sh where "SignedJobHandler_new MAX_DEDUPE_ENTRIES q s = Inr sh" and "p = provider_start sh"
  using assms NostrEventHandler_new_eq_Inr
  by (force simp: run_startup_def and_then_eq_Inr split: if_splits)

lemma NostrEventHandler_new_no_panic: "NostrEventHandler_new lib urls p s \<noteq> Inl (S_Panic m)"
  using SignedJobHandler_new_returns [of MAX_DEDUPE_ENTRIES p s]
  by (auto simp: NostrEventHandler_new_def Let_def constants and_then_eq_Inl map_err_eq_Inl
      dest: add_relays_error split: if_splits)

lemma run_startup_no_panic: "run_startup lib s \<noteq> Inl (S_Panic m)"
proof
  assume "run_startup lib s = Inl (S_Panic m)"
  then obtain config p where "Config_from_env (config_ops lib) = Inr config"
    "ProofProcessor_new (cf_public_base_url config) (cf_max_concurrent_proofs config) = Inl m \<or>
     NostrEventHandler_new lib (cf_relay_urls config) p s = Inl (S_Panic m)"
    by (auto simp: run_startup_def provider_keys_def and_then_eq_Inl map_err_eq_Inl ok_or_eq_Inl
        split: if_splits option.splits)
  then show False
    using ProofProcessor_new_config [OF Config_from_env_checked] NostrEventHandler_new_no_panic by fastforce
qed

section \<open>An instance\<close>

definition example_startup :: "(nat, string) startup_lib" where
  "example_startup =
     \<lparr>config_ops = example_config_lib,
      host_ops = \<lparr>is_file = (\<lambda>_. True), fs_read = (\<lambda>_. Inr []), sha256_digest = (\<lambda>_. replicate 32 0xAA)\<rparr>,
      keys_parse = Some, keys_generate = ''ephemeral'', create_dir_all = (\<lambda>_. True),
      add_relay = (\<lambda>_. True), relays_connected = map (\<lambda>url. url = ''wss://relay.example/''),
      bind_listener = (\<lambda>_. True)\<rparr>"

definition example_shared :: "Url \<Rightarrow> (string \<rightharpoonup> bytes) shared" where
  "example_shared base =
     \<lparr>dedupe = \<lparr>capacity = 10000, state = \<lparr>ids = {}, order = []\<rparr>\<rparr>, completed = CompletedResults_new 10000,
      processor = \<lparr>public_base_url = base, proving_slots = 4\<rparr>, store = Map.empty\<rparr>"

lemma concat_replicate_pair: "concat (replicate n [c, c]) = replicate (2 * n) c"
  by (induction n) simp_all

lemma example_digest: "hex_of_bytes (replicate 32 0xAA) = replicate 64 CHR ''a''"
proof -
  have "hex_char 10 = CHR ''a''"
    by (simp add: hex_char_def char_of_eq_iff)
  then show ?thesis
    using concat_replicate_pair [of 32 "CHR ''a''"] by (simp add: hex_of_bytes_def)
qed

lemma example_started:
  "\<exists>config engine base. run_startup example_startup (Map.empty :: string \<rightharpoonup> bytes) =
     Inr (config, ''nsec1key'', engine, provider_start (example_shared base))"
proof -
  obtain config where config: "Config_from_env example_config_lib = Inr config" "cf_mode config = Production"
      "cf_relay_urls config = [''wss://relay.example/'', ''wss://other.example/'']"
      "cf_secret_key config = Some ''nsec1key''" "cf_max_concurrent_proofs config = 4"
      "cf_expected_executable_sha256 config = replicate 64 CHR ''a''"
    using example_config by blast
  have "\<exists>engine. VerifiableJobEngine_new (host_ops example_startup) (cf_cairo_executable config)
      (cf_expected_program_hash config) (cf_expected_executable_sha256 config) = Inr engine"
    using config(6) example_digest
    by (simp add: VerifiableJobEngine_new_eq_Inr example_startup_def list_all_replicate lower_hex_byte_def)
  moreover have "provider_keys example_startup config = Inr ''nsec1key''"
    by (simp add: provider_keys_def config(4) example_startup_def)
  moreover have "\<exists>provider. NostrEventHandler_new example_startup (cf_relay_urls config) q (Map.empty :: string \<rightharpoonup> bytes) = Inr provider" for q
  proof -
    obtain sh where "SignedJobHandler_new MAX_DEDUPE_ENTRIES q (Map.empty :: string \<rightharpoonup> bytes) = Inr sh"
      using SignedJobHandler_new_returns [of MAX_DEDUPE_ENTRIES q "Map.empty :: string \<rightharpoonup> bytes"] by (auto simp: constants)
    then show ?thesis
      by (simp add: NostrEventHandler_new_def config(3) example_startup_def)
  qed
  ultimately obtain engine provider where
    parts: "VerifiableJobEngine_new (host_ops example_startup) (cf_cairo_executable config)
      (cf_expected_program_hash config) (cf_expected_executable_sha256 config) = Inr engine"
    "provider_keys example_startup config = Inr ''nsec1key''"
    "NostrEventHandler_new example_startup (cf_relay_urls config)
      \<lparr>public_base_url = cf_public_base_url config, proving_slots = cf_max_concurrent_proofs config\<rparr>
      (Map.empty :: string \<rightharpoonup> bytes) = Inr provider"
    by blast
  have fields: "config_ops example_startup = example_config_lib" "create_dir_all example_startup dir"
    "bind_listener example_startup addr" for dir addr
    by (simp_all add: example_startup_def)
  have run: "run_startup example_startup (Map.empty :: string \<rightharpoonup> bytes) = Inr (config, ''nsec1key'', engine, provider)"
    using ProofProcessor_new_config [OF Config_from_env_checked [OF config(1)]] config(1) parts fields
    by (simp add: run_startup_def FileProofArtifactStore_new_def)
  obtain sh where "SignedJobHandler_new MAX_DEDUPE_ENTRIES
      \<lparr>public_base_url = cf_public_base_url config, proving_slots = cf_max_concurrent_proofs config\<rparr>
      (Map.empty :: string \<rightharpoonup> bytes) = Inr sh" and "provider = provider_start sh"
    using NostrEventHandler_new_eq_Inr [OF parts(3)] by blast
  then have "provider = provider_start (example_shared (cf_public_base_url config))"
    by (simp add: SignedJobHandler_new_def RequestDeduplicator_new_def example_shared_def constants config(5))
  with run show ?thesis by blast
qed

section \<open>Properties\<close>

text \<open>C33: start-up cannot panic, and what it starts is pinned to the configuration: the engine
  trusts the configured program hash and its executable had the configured digest, the
  identity is the configured key (an ephemeral one only outside production), the proving
  slots are the configured one to sixteen, all free, all 64 dispatch slots are free, and the
  handler remembers ten thousand ids.\<close>

theorem startup_pins_configuration:
  "run_startup lib s \<noteq> Inl (S_Panic m) \<and>
   (\<forall>config keys engine p. run_startup lib s = Inr (config, keys, engine, p) \<longrightarrow>
      expected_program_hash engine = cf_expected_program_hash config \<and>
      (\<exists>bs. fs_read (host_ops lib) (engine_executable engine) = Inr bs \<and>
         hex_of_bytes (sha256_digest (host_ops lib) bs) = cf_expected_executable_sha256 config) \<and>
      (case cf_secret_key config of
         Some k \<Rightarrow> keys_parse lib k = Some keys
       | None \<Rightarrow> keys = keys_generate lib \<and> cf_mode config \<noteq> Production) \<and>
      proving_slots (processor (pr_shared p)) = cf_max_concurrent_proofs config \<and>
      1 \<le> cf_max_concurrent_proofs config \<and> cf_max_concurrent_proofs config \<le> 16 \<and>
      public_base_url (processor (pr_shared p)) = cf_public_base_url config \<and>
      pr_slots p = 64 \<and> pr_tasks p = [] \<and> capacity (dedupe (pr_shared p)) = 10000 \<and> handler_ok (pr_shared p))"
proof (intro conjI allI impI)
  show "run_startup lib s \<noteq> Inl (S_Panic m)" by (rule run_startup_no_panic)
next
  fix config keys engine p
  assume run: "run_startup lib s = Inr (config, keys, engine, p)"
  then obtain q where config: "Config_from_env (config_ops lib) = Inr config"
    and keys: "provider_keys lib config = Inr keys"
    and engine: "VerifiableJobEngine_new (host_ops lib) (cf_cairo_executable config)
      (cf_expected_program_hash config) (cf_expected_executable_sha256 config) = Inr engine"
    and q: "ProofProcessor_new (cf_public_base_url config) (cf_max_concurrent_proofs config) = Inr q"
    and handler: "NostrEventHandler_new lib (cf_relay_urls config) q s = Inr p"
    by (auto simp: run_startup_def and_then_eq_Inr split: if_splits)
  note checked = Config_from_env_checked [OF config]
  have q: "q = \<lparr>public_base_url = cf_public_base_url config, proving_slots = cf_max_concurrent_proofs config\<rparr>"
    using q ProofProcessor_new_config [OF checked] by simp
  obtain sh where sh: "SignedJobHandler_new MAX_DEDUPE_ENTRIES q s = Inr sh" and p: "p = provider_start sh"
    using NostrEventHandler_new_eq_Inr [OF handler] by blast
  have shared: "processor sh = q" "capacity (dedupe sh) = 10000"
    using sh by (auto simp: SignedJobHandler_new_def RequestDeduplicator_new_def constants)
  show "expected_program_hash engine = cf_expected_program_hash config"
    and "\<exists>bs. fs_read (host_ops lib) (engine_executable engine) = Inr bs \<and>
         hex_of_bytes (sha256_digest (host_ops lib) bs) = cf_expected_executable_sha256 config"
    using engine by (auto simp: VerifiableJobEngine_new_eq_Inr)
  show "case cf_secret_key config of
         Some k \<Rightarrow> keys_parse lib k = Some keys
       | None \<Rightarrow> keys = keys_generate lib \<and> cf_mode config \<noteq> Production"
    using keys by (auto simp: provider_keys_def permits_ephemeral_identity_def split: option.splits if_splits)
  show "1 \<le> cf_max_concurrent_proofs config" "cf_max_concurrent_proofs config \<le> 16"
    using checked by (simp_all add: config_checked_def)
  show "proving_slots (processor (pr_shared p)) = cf_max_concurrent_proofs config"
    "public_base_url (processor (pr_shared p)) = cf_public_base_url config"
    "pr_slots p = 64" "pr_tasks p = []" "capacity (dedupe (pr_shared p)) = 10000" "handler_ok (pr_shared p)"
    using shared SignedJobHandler_new_ok [OF sh] by (simp_all add: p q provider_start_def MAX_INFLIGHT_EVENTS_def)
qed

theorem startup_pins_configuration_witness:
  "\<exists>config keys engine p. run_startup example_startup (Map.empty :: string \<rightharpoonup> bytes) = Inr (config, keys, engine, p) \<and>
     keys = ''nsec1key'' \<and> proving_slots (processor (pr_shared p)) = cf_max_concurrent_proofs config"
proof -
  obtain config engine base where "run_startup example_startup (Map.empty :: string \<rightharpoonup> bytes) =
     Inr (config, ''nsec1key'', engine, provider_start (example_shared base))"
    using example_started by blast
  with startup_pins_configuration [of example_startup "Map.empty :: string \<rightharpoonup> bytes"] show ?thesis by metis
qed

text \<open>The subscription misses no request the handler would accept: an event that
  \<open>parse_request_event\<close> accepts at a time not before the subscription has one of the
  subscribed kinds and is no older than the look-back.\<close>

theorem subscription_covers_requests:
  assumes "parse_request_event lib event t = Inr request" and "now \<le> t"
  shows "ev_kind event \<in> set (filter_kinds (subscription_filter now)) \<and>
    filter_since (subscription_filter now) \<le> ev_created_at event"
proof -
  from assms(1) obtain c bid serialized where "accepted_request lib event t c bid serialized"
    by (rule parse_request_event_sound)
  then have kind: "ev_kind event = request_kind (rc_service c)" and "unat t \<le> unat (ev_created_at event) + 600"
    by (simp_all add: accepted_request_def request_window_def)
  moreover have "unat now \<le> unat t"
    using assms(2) by (simp add: word_le_nat_alt)
  ultimately have "filter_since (subscription_filter now) \<le> ev_created_at event"
    by (simp add: subscription_filter_def word_le_nat_alt unat_saturating_sub constants)
  moreover have "request_kind service \<in> set REQUESTS" for service
    by (cases service) (simp_all add: service_defs constants)
  ultimately show ?thesis
    by (simp add: kind subscription_filter_def)
qed

theorem subscription_covers_requests_witness:
  "ev_kind example_event \<in> set (filter_kinds (subscription_filter 900)) \<and>
   filter_since (subscription_filter 900) \<le> ev_created_at example_event"
  using subscription_covers_requests [OF example_accepted, of 900] by simp

end
