(* ===== verification/Transport.thy ===== *)
theory Transport
  imports Board Startup Relays
begin

text \<open>
  The live transport of \<open>apps/provider/src/nostr/handler.rs\<close> and the life of the process in
  \<open>apps/provider/src/main.rs\<close>: the subscription, the notifications with their bounded intake,
  the dispatch of an event with the publication of its answer, and how \<open>run\<close> ends.

  \<open>dispatch\<close> is one delivery without interruption. The event loop runs deliveries
  concurrently; \<open>listen\<close> executes a given schedule of it, a list of stimuli: a notification,
  the next phase of a delivery, or the end of a delivery with what the relays said. Which
  relays accept is the relay pool's choice and part of the schedule.
\<close>

section \<open>Definitions\<close>

subsection \<open>One delivery\<close>

datatype dispatch_outcome =
    D_Discarded JobHandlingError
  | D_Duplicate
  | D_SendFailed
  | D_Refused "string list"
  | D_Published "string list" "string list"

text \<open>What \<open>send_event\<close> returned, \<open>None\<close> for an error.\<close>

definition publish_outcome :: "pool_output option \<Rightarrow> dispatch_outcome" where
  "publish_outcome sent =
     (case sent of
        Some out \<Rightarrow>
          if accepted_by out \<noteq> [] then D_Published (accepted_by out) (refused_by out)
          else D_Refused (refused_by out)
      | None \<Rightarrow> D_SendFailed)"

definition answer_outcome ::
  "(Event \<Rightarrow> pool_output option) \<Rightarrow> (JobHandlingError, Event option) result \<Rightarrow> dispatch_outcome" where
  "answer_outcome send answer =
     (case answer of
        Inr (Some result_event) \<Rightarrow> publish_outcome (send result_event)
      | Inr None \<Rightarrow> D_Duplicate
      | Inl e \<Rightarrow> D_Discarded e)"

definition dispatch ::
  "handler_lib \<Rightarrow> ('s \<Rightarrow> bytes \<Rightarrow> (ArtifactError, StoredArtifact) result \<times> 's) \<Rightarrow>
   (Event \<Rightarrow> pool_output option) \<Rightarrow> Event \<Rightarrow> u64 \<Rightarrow> 's shared \<Rightarrow> (dispatch_outcome \<times> 's shared) option" where
  "dispatch hl put send event now sh =
     map_option (\<lambda>(answer, sh'). (answer_outcome send answer, sh')) (handle_event hl put event now sh)"

subsection \<open>The event loop\<close>

datatype LoopError = LE_Subscribe | LE_NoSubscription "string list" | LE_Notifications

definition subscribe_requests ::
  "(request_filter \<Rightarrow> pool_output option) \<Rightarrow> u64 \<Rightarrow> (LoopError, string list) result" where
  "subscribe_requests subscribe now =
     and_then (ok_or LE_Subscribe (subscribe (subscription_filter now))) (\<lambda>subscription.
     if accepted_by subscription = [] then Inl (LE_NoSubscription (refused_by subscription))
     else Inr (refused_by subscription))"

text \<open>The callback of \<open>handle_notifications\<close>: whether to stop, and the provider; \<open>now\<close> is the
  time at which the spawned delivery starts.\<close>

definition on_notification :: "RelayPoolNotification \<Rightarrow> u64 \<Rightarrow> 's provider \<Rightarrow> bool \<times> 's provider" where
  "on_notification notification now p =
     (case notification of
        NotifyEvent event \<Rightarrow>
          if 0 < pr_slots p
          then (False, p\<lparr>pr_slots := pr_slots p - 1, pr_tasks := pr_tasks p @ [(T_Received event now, True)]\<rparr>)
          else (False, p)
      | NotifyShutdown \<Rightarrow> (True, p)
      | NotifyMessage \<Rightarrow> (False, p))"

datatype 'f stimulus =
    S_Notified RelayPoolNotification u64
  | S_Phase nat 'f
  | S_Finished nat "pool_output option"

record 's live =
  lv_provider :: "'s provider"
  lv_stopped :: bool
  lv_sent :: "(Event \<times> dispatch_outcome) list"

definition live_start :: "'s provider \<Rightarrow> 's live" where
  "live_start p = \<lparr>lv_provider = p, lv_stopped = False, lv_sent = []\<rparr>"

text \<open>The next phase of delivery \<open>i\<close>, if it has one, and its end, if it is done.\<close>

definition run_phase ::
  "handler_lib \<Rightarrow> ('s \<Rightarrow> bytes \<Rightarrow> (ArtifactError, StoredArtifact) result \<times> 's) \<Rightarrow> nat \<Rightarrow> 's provider \<Rightarrow> 's provider" where
  "run_phase hl put i p =
     (if i < length (pr_tasks p) then
        (case pr_tasks p ! i of
           (t, True) \<Rightarrow>
             (case task_step hl put t (pr_shared p) of
                Some (t', sh) \<Rightarrow> p\<lparr>pr_shared := sh, pr_tasks := (pr_tasks p)[i := (t', True)]\<rparr>
              | None \<Rightarrow> p)
         | (t, False) \<Rightarrow> p)
      else p)"

definition finish_dispatch :: "nat \<Rightarrow> pool_output option \<Rightarrow> 's live \<Rightarrow> 's live" where
  "finish_dispatch i sent lv =
     (let p = lv_provider lv in
      if i < length (pr_tasks p) then
        (case pr_tasks p ! i of
           (T_Done request claimed answer, True) \<Rightarrow>
             let events = (case answer of Inr (Some ev) \<Rightarrow> [ev] | _ \<Rightarrow> []) in
             lv\<lparr>lv_provider := p\<lparr>pr_slots := pr_slots p + 1,
                  pr_tasks := (pr_tasks p)[i := (T_Done request claimed answer, False)],
                  pr_sent := pr_sent p @ events\<rparr>,
                lv_sent := lv_sent lv @ map (\<lambda>ev. (ev, publish_outcome sent)) events\<rparr>
         | _ \<Rightarrow> lv)
      else lv)"

fun live_step ::
  "('f \<Rightarrow> handler_lib) \<Rightarrow> ('f \<Rightarrow> 's \<Rightarrow> bytes \<Rightarrow> (ArtifactError, StoredArtifact) result \<times> 's) \<Rightarrow>
   'f stimulus \<Rightarrow> 's live \<Rightarrow> 's live" where
  "live_step hl put (S_Notified notification now) lv =
     (if lv_stopped lv then lv
      else case on_notification notification now (lv_provider lv) of
        (stop, p) \<Rightarrow> lv\<lparr>lv_provider := p, lv_stopped := stop\<rparr>)"
| "live_step hl put (S_Phase i f) lv = lv\<lparr>lv_provider := run_phase (hl f) (put f) i (lv_provider lv)\<rparr>"
| "live_step hl put (S_Finished i sent) lv = finish_dispatch i sent lv"

definition listen ::
  "('f \<Rightarrow> handler_lib) \<Rightarrow> ('f \<Rightarrow> 's \<Rightarrow> bytes \<Rightarrow> (ArtifactError, StoredArtifact) result \<times> 's) \<Rightarrow>
   'f stimulus list \<Rightarrow> 's live \<Rightarrow> 's live" where
  "listen hl put stimuli lv = fold (live_step hl put) stimuli lv"

subsection \<open>The process\<close>

text \<open>What ends the \<open>select\<close> of \<open>run\<close>: the signal or the failure to wait for it, the event
  loop with its result, or the HTTP service.\<close>

datatype ending =
    Ended_Signal bool
  | Ended_Loop "(LoopError, unit) result"
  | Ended_Http bool

datatype RunError =
    RE_Tracing string
  | RE_Startup StartupError
  | RE_Signal
  | RE_Loop LoopError
  | RE_LoopTerminated
  | RE_Http
  | RE_HttpTerminated

text \<open>
  The result of \<open>run\<close> after the \<open>select\<close>, and whether it went on to the shutdown of the HTTP
  service and of the relay pool. The \<open>?\<close> and \<open>bail!\<close> of a branch return from \<open>run\<close> itself.
\<close>

definition after_select :: "ending \<Rightarrow> (RunError, unit) result \<times> bool" where
  "after_select e =
     (case e of
        Ended_Signal installed \<Rightarrow> if installed then (Inr (), True) else (Inl RE_Signal, False)
      | Ended_Loop (Inl err) \<Rightarrow> (Inl (RE_Loop err), False)
      | Ended_Loop (Inr _) \<Rightarrow> (Inl RE_LoopTerminated, False)
      | Ended_Http ok \<Rightarrow> (Inl (if ok then RE_HttpTerminated else RE_Http), False))"

text \<open>Logging: the filter of the environment or the default one. The filter's parsers and the
  installation of the subscriber, with the filter and whether targets are shown, are arguments.\<close>

definition init_tracing ::
  "(string, 'filter) result \<Rightarrow> (string \<Rightarrow> 'filter) \<Rightarrow> ('filter \<Rightarrow> bool \<Rightarrow> (string, unit) result) \<Rightarrow>
   (string, unit) result" where
  "init_tracing default_env filter_new try_init =
     (let env_filter =
        (case default_env of
           Inr chosen \<Rightarrow> chosen
         | Inl _ \<Rightarrow> filter_new ''info,soul_provider=debug,soul_core=debug,soul_prover=info'') in
      map_err (\<lambda>e. ''failed to initialize tracing: '' @ e) (try_init env_filter True))"

definition provider_main ::
  "(string, unit) result \<Rightarrow> ('addr, 'keys, 'x) startup_lib_scheme \<Rightarrow> 's \<Rightarrow> ending \<Rightarrow> (RunError, unit) result \<times> bool" where
  "provider_main tracing lib s e =
     (case tracing of
        Inl m \<Rightarrow> (Inl (RE_Tracing m), False)
      | Inr _ \<Rightarrow>
          (case run_startup lib s of
             Inl err \<Rightarrow> (Inl (RE_Startup err), False)
           | Inr _ \<Rightarrow> after_select e))"

section \<open>The loop refines the interleaved handler\<close>

lemma on_notification_step:
  assumes "on_notification n now p = (stop, p')"
  shows "(handler_step hl put)\<^sup>*\<^sup>* p p'"
  using assms handler_step.notified [of p hl put]
  by (cases n) (auto simp: on_notification_def split: if_splits)

lemma run_phase_step: "(handler_step hl put)\<^sup>*\<^sup>* p (run_phase (hl f) (put f) i p)"
proof (cases "i < length (pr_tasks p) \<and> snd (pr_tasks p ! i) \<and> task_step (hl f) (put f) (fst (pr_tasks p ! i)) (pr_shared p) \<noteq> None")
  case True
  then obtain t t' sh where "i < length (pr_tasks p)" "pr_tasks p ! i = (t, True)"
    "task_step (hl f) (put f) t (pr_shared p) = Some (t', sh)"
    by (cases "pr_tasks p ! i") auto
  then show ?thesis
    using handler_step.advanced [of i p t hl f put t' sh] by (simp add: run_phase_def)
next
  case False
  then have "run_phase (hl f) (put f) i p = p"
    by (auto simp: run_phase_def split: prod.splits bool.splits option.splits)
  then show ?thesis by simp
qed

lemma finish_dispatch_step: "(handler_step hl put)\<^sup>*\<^sup>* (lv_provider lv) (lv_provider (finish_dispatch i sent lv))"
proof (cases "\<exists>request claimed answer. i < length (pr_tasks (lv_provider lv)) \<and>
    pr_tasks (lv_provider lv) ! i = (T_Done request claimed answer, True)")
  case True
  then obtain request claimed answer where "i < length (pr_tasks (lv_provider lv))"
    "pr_tasks (lv_provider lv) ! i = (T_Done request claimed answer, True)" by blast
  then show ?thesis
    using handler_step.dispatched [of i "lv_provider lv" request claimed answer hl put]
    by (simp add: finish_dispatch_def Let_def)
next
  case False
  then have "finish_dispatch i sent lv = lv"
    by (auto simp: finish_dispatch_def Let_def split: prod.splits bool.splits task.splits)
  then show ?thesis by simp
qed

lemma live_step_refines: "(handler_step hl put)\<^sup>*\<^sup>* (lv_provider lv) (lv_provider (live_step hl put st lv))"
proof (cases st)
  case (S_Notified n now)
  then show ?thesis
    by (auto intro: on_notification_step split: prod.split)
qed (simp_all add: run_phase_step finish_dispatch_step)

lemma listen_refines: "(handler_step hl put)\<^sup>*\<^sup>* (lv_provider lv) (lv_provider (listen hl put stimuli lv))"
proof (induction stimuli arbitrary: lv)
  case (Cons st stimuli)
  have "(handler_step hl put)\<^sup>*\<^sup>* (lv_provider lv) (lv_provider (live_step hl put st lv))"
    by (rule live_step_refines)
  also have "(handler_step hl put)\<^sup>*\<^sup>* \<dots> (lv_provider (listen hl put stimuli (live_step hl put st lv)))"
    by (rule Cons)
  finally show ?case by (simp add: listen_def)
qed (simp add: listen_def)

text \<open>Every publication was handed to the pool.\<close>

lemma live_step_sent:
  "map fst (lv_sent lv) = pr_sent (lv_provider lv) \<Longrightarrow>
     map fst (lv_sent (live_step hl put st lv)) = pr_sent (lv_provider (live_step hl put st lv))"
  by (cases st)
    (auto simp: on_notification_def run_phase_def finish_dispatch_def Let_def comp_def
      split: RelayPoolNotification.splits prod.splits bool.splits option.splits sum.splits task.splits)

lemma listen_sent:
  "map fst (lv_sent lv) = pr_sent (lv_provider lv) \<Longrightarrow>
     map fst (lv_sent (listen hl put stimuli lv)) = pr_sent (lv_provider (listen hl put stimuli lv))"
  by (induction stimuli arbitrary: lv) (simp_all add: listen_def live_step_sent)

text \<open>A stopped loop takes no more events.\<close>

lemma stopped_live_step: "lv_stopped lv \<Longrightarrow> lv_stopped (live_step hl put st lv) \<and>
    length (pr_tasks (lv_provider (live_step hl put st lv))) = length (pr_tasks (lv_provider lv))"
  by (cases st)
    (auto simp: run_phase_def finish_dispatch_def Let_def
      split: prod.splits bool.splits option.splits sum.splits task.splits)

lemma stopped_listen: "lv_stopped lv \<Longrightarrow> lv_stopped (listen hl put stimuli lv) \<and>
    length (pr_tasks (lv_provider (listen hl put stimuli lv))) = length (pr_tasks (lv_provider lv))"
  by (induction stimuli arbitrary: lv) (simp_all add: listen_def stopped_live_step)

section \<open>A delivery alone\<close>

text \<open>A delivery alone: the phases of one task, one after the other.\<close>

fun run_task ::
  "handler_lib \<Rightarrow> ('s \<Rightarrow> bytes \<Rightarrow> (ArtifactError, StoredArtifact) result \<times> 's) \<Rightarrow> nat \<Rightarrow> task \<Rightarrow> 's shared \<Rightarrow> task \<times> 's shared" where
  "run_task hl put 0 t sh = (t, sh)"
| "run_task hl put (Suc n) t sh = (case task_step hl put t sh of None \<Rightarrow> (t, sh) | Some (t', sh') \<Rightarrow> run_task hl put n t' sh')"

lemma run_task_done [simp]: "run_task hl put n (T_Done r c out) sh = (T_Done r c out, sh)"
  by (cases n) simp_all

lemma run_phases_alone:
  assumes "lv_provider lv = \<lparr>pr_shared = sh, pr_slots = k, pr_tasks = [(t, True)], pr_sent = es\<rparr>"
  shows "listen (\<lambda>_ :: unit. hl) (\<lambda>_. put) (replicate n (S_Phase 0 ())) lv =
    lv\<lparr>lv_provider := \<lparr>pr_shared = snd (run_task hl put n t sh), pr_slots = k,
         pr_tasks = [(fst (run_task hl put n t sh), True)], pr_sent = es\<rparr>\<rparr>"
  using assms
proof (induction n arbitrary: lv t sh)
  case 0
  then show ?case by (simp add: listen_def)
next
  case (Suc n)
  show ?case
  proof (cases "task_step hl put t sh")
    case None
    then have "live_step (\<lambda>_ :: unit. hl) (\<lambda>_. put) (S_Phase 0 ()) lv = lv"
      using Suc.prems by (simp add: run_phase_def)
    moreover have "run_task hl put n t sh = (t, sh)" for n
      using None by (cases n) simp_all
    ultimately show ?thesis
      using Suc.IH [OF Suc.prems] unfolding listen_def replicate_Suc fold_Cons o_apply by (simp add: None)
  next
    case (Some step)
    then show ?thesis
      using Suc by (cases step) (simp add: listen_def run_phase_def)
  qed
qed

lemma run_task_add: "run_task hl put (m + n) t sh = (case run_task hl put m t sh of (t', sh') \<Rightarrow> run_task hl put n t' sh')"
proof (induction m arbitrary: t sh)
  case (Suc m)
  have "run_task hl put n t sh = (t, sh)" if "task_step hl put t sh = None" for n
    using that by (cases n) simp_all
  with Suc show ?case by (auto split: option.split)
qed simp

text \<open>From the claim to the content of the answer, as \<open>process\<close> does it.\<close>

lemma run_task_processes:
  assumes "process (hl_urls hl) (hl_prove hl) put (processor sh) (store sh) request = (outcome, p, s)"
  shows "\<exists>m \<le> 3. run_task hl put m (T_Acquire request) sh =
    (T_Sign request (case outcome of Inr r \<Rightarrow> r | Inl e \<Rightarrow> error_content request e), sh\<lparr>processor := p, store := s\<rparr>)"
proof (cases "acquire_slot (processor sh)")
  case (Inl e)
  with assms show ?thesis
    by (intro exI [of _ 1]) (auto simp: process_def)
next
  case (Inr held)
  have proved [simp]: "worker_outcome (Returned (Inr a)) = Inr a" for a
    by simp
  have free: "release_slot held = processor sh"
    using release_acquired [OF Inr] .
  show ?thesis
  proof (cases "and_then (worker_outcome (hl_prove hl (jr_input request))) (\<lambda>a. and_then (check_binding request a) (\<lambda>_. Inr a))")
    case (Inl e)
    with Inr free assms show ?thesis
      by (intro exI [of _ 2]) (auto simp: process_def numeral_2_eq_2 Let_def and_then_def split: sum.splits)
  next
    case (Inr a)
    with \<open>acquire_slot (processor sh) = Inr held\<close> free assms show ?thesis
      by (intro exI [of _ 3])
        (auto simp: process_def numeral_3_eq_3 Let_def and_then_def split: sum.splits prod.splits)
  qed
qed


lemma run_task_handles:
  assumes "handle_event hl put event now sh = Some (answer, sh')"
  shows "\<exists>r c. run_task hl put 8 (T_Received event now) sh = (T_Done r c answer, sh')"
proof -
  have enough: "\<exists>r c. run_task hl put 8 t sh = (T_Done r c answer, sh')"
    if "run_task hl put m t sh = (T_Done r c answer, sh')" "m \<le> 8" for m t r c
    using run_task_add [of hl put m "8 - m" t sh] that by auto
  show ?thesis
  proof (cases "parse_request_event (hl_wire hl) event now")
    case (Inl e)
    with assms enough [of "Suc 0" "T_Received event now"] show ?thesis by (auto simp: handle_event_def)
  next
    case (Inr request)
    note parsed = Inr
    show ?thesis
    proof (cases "completed_result sh (jr_id request)")
      case (Some ev)
      with assms Inr enough [of 2 "T_Received event now"] show ?thesis by (auto simp: handle_event_def numeral_2_eq_2)
    next
      case None
      show ?thesis
      proof (cases "claim (dedupe sh) (jr_id request)")
        case None
        with assms parsed \<open>completed_result sh (jr_id request) = None\<close> show ?thesis by (simp add: handle_event_def)
      next
        case (Some claimed)
        obtain new d where claimed: "claim (dedupe sh) (jr_id request) = Some (new, d)"
          using Some by (cases claimed) simp
        show ?thesis
        proof (cases new)
          case False
          with assms parsed None claimed enough [of 3 "T_Received event now"] show ?thesis
            by (auto simp: handle_event_def numeral_3_eq_3)
        next
          case True
          obtain outcome p s where run: "process (hl_urls hl) (hl_prove hl) put (processor sh) (store sh) request = (outcome, p, s)"
            using prod_cases3 by blast
          let ?r = "case outcome of Inr r \<Rightarrow> r | Inl e \<Rightarrow> error_content request e"
          obtain m where m: "m \<le> 3" "run_task hl put m (T_Acquire request) (sh\<lparr>dedupe := d\<rparr>) =
              (T_Sign request ?r, sh\<lparr>dedupe := d, processor := p, store := s\<rparr>)"
            using run_task_processes [of hl put "sh\<lparr>dedupe := d\<rparr>" request outcome p s] run by auto
          have "run_task hl put 3 (T_Received event now) sh = (T_Acquire request, sh\<lparr>dedupe := d\<rparr>)"
            using parsed None claimed True by (simp add: numeral_3_eq_3)
          then have "run_task hl put (3 + m) (T_Received event now) sh =
              (T_Sign request ?r, sh\<lparr>dedupe := d, processor := p, store := s\<rparr>)"
            using m(2) by (simp add: run_task_add)
          moreover have "\<exists>r c. run_task hl put 2 (T_Sign request ?r) (sh\<lparr>dedupe := d, processor := p, store := s\<rparr>) =
              (T_Done r c answer, sh')"
            using assms parsed None claimed True run
            by (auto simp: handle_event_def Let_def numeral_2_eq_2 split: sum.splits)
          ultimately show ?thesis
            using enough [of "3 + m + 2"] m(1) run_task_add [of hl put "3 + m" 2 "T_Received event now" sh] by auto
        qed
      qed
    qed
  qed
qed

lemma lone_delivery:
  assumes "handle_event hl put event now sh = Some (answer, sh')"
    and "lv = listen (\<lambda>_ :: unit. hl) (\<lambda>_. put)
      (S_Notified (NotifyEvent event) now # replicate 8 (S_Phase 0 ()) @ [S_Finished 0 sent]) (live_start (provider_start sh))"
  shows "pr_shared (lv_provider lv) = sh' \<and> pr_slots (lv_provider lv) = 64 \<and>
    lv_sent lv = (case answer of Inr (Some ev) \<Rightarrow> [(ev, publish_outcome sent)] | _ \<Rightarrow> [])"
proof -
  obtain r c where run: "run_task hl put 8 (T_Received event now) sh = (T_Done r c answer, sh')"
    using run_task_handles [OF assms(1)] by blast
  let ?lv = "\<lparr>lv_provider = \<lparr>pr_shared = sh, pr_slots = 63, pr_tasks = [(T_Received event now, True)], pr_sent = []\<rparr>,
    lv_stopped = False, lv_sent = []\<rparr>"
  have "live_step (\<lambda>_ :: unit. hl) (\<lambda>_. put) (S_Notified (NotifyEvent event) now) (live_start (provider_start sh)) = ?lv"
    by (simp add: live_start_def provider_start_def MAX_INFLIGHT_EVENTS_def on_notification_def)
  then have "lv = finish_dispatch 0 sent (listen (\<lambda>_ :: unit. hl) (\<lambda>_. put) (replicate 8 (S_Phase 0 ())) ?lv)"
    unfolding assms(2) listen_def by simp
  also have "\<dots> = finish_dispatch 0 sent (?lv\<lparr>lv_provider :=
      \<lparr>pr_shared = sh', pr_slots = 63, pr_tasks = [(T_Done r c answer, True)], pr_sent = []\<rparr>\<rparr>)"
    using run_phases_alone [of ?lv sh 63 "T_Received event now" "[]" hl put 8] by (simp add: run)
  finally show ?thesis
    by (simp add: finish_dispatch_def Let_def split: sum.split option.split)
qed


section \<open>An instance\<close>

text \<open>A worker that panics, and one relay that takes everything: the answer is the sanitised
  error of the job.\<close>

definition failing_handler :: handler_lib where
  "failing_handler = example_handler\<lparr>hl_prove := \<lambda>_. Panicked\<rparr>"

definition one_relay :: "pool_output option" where
  "one_relay = Some \<lparr>accepted_by = [''wss://relay.example/''], refused_by = []\<rparr>"

definition one_delivery :: "unit stimulus list" where
  "one_delivery = S_Notified (NotifyEvent example_event) 1001 # replicate 7 (S_Phase 0 ()) @ [S_Finished 0 one_relay]"

lemma failing_parses: "parse_request_event (hl_wire failing_handler) example_event 1001 = Inr example_request"
  using example_handler_parses by (simp add: failing_handler_def)

lemma failing_signs: "\<exists>ev. sign_result failing_handler example_request r = Inr ev"
  using example_handler_signs [of r] by (simp add: failing_handler_def sign_result_def cong: if_cong)

lemma one_delivery_sent:
  "\<exists>ev. lv_sent (listen (\<lambda>_. failing_handler) (\<lambda>_. memory_put zero_hash) one_delivery
       (live_start (provider_start (example_shared base)))) = [(ev, D_Published [''wss://relay.example/''] [])] \<and>
     claimed_ids (lv_provider (listen (\<lambda>_. failing_handler) (\<lambda>_. memory_put zero_hash) one_delivery
       (live_start (provider_start (example_shared base))))) = [jr_id example_request]"
proof -
  obtain ev where signed: "sign_result failing_handler example_request (error_content example_request P_Worker) = Inr ev"
    using failing_signs by blast
  have worker: "worker_outcome (hl_prove failing_handler input) = Inl P_Worker" for input
    by (simp add: worker_outcome_def failing_handler_def catch_unwind_def)
  have seven: "replicate 7 st = [st, st, st, st, st, st, st]" for st :: "unit stimulus"
    by (simp add: numeral_eq_Suc)
  show ?thesis
    using signed worker
    by (auto simp: listen_def one_delivery_def seven live_start_def provider_start_def MAX_INFLIGHT_EVENTS_def
        on_notification_def run_phase_def failing_parses completed_result_def example_shared_def CompletedResults_new_def
        claim_def evict.simps acquire_slot_def remember_result_def CompletedResults_insert_def evict_completed.simps
        finish_dispatch_def publish_outcome_def one_relay_def claimed_ids_def Let_def)
qed

section \<open>Properties\<close>

text \<open>C10: the running provider keeps the promises of the board for as long as it can remember.
  For a provider started from its configuration, under any schedule of notifications,
  phases, publications and refusals: the 64 slots of the intake are conserved, and once the
  pool has shut down, no further event is taken in. And as long as at most ten thousand ids
  have been claimed, which is what it remembers: what it shows is a run of the board, so
  each id was claimed once and answered at most once, and everything handed to the relays,
  accepted or not, is the recorded answer of a claimed id. (After that an evicted id can be
  claimed again.)\<close>

theorem live_provider_refines_board:
  assumes "run_startup lib s = Inr (config, keys, engine, p)"
    and "lv = listen hl put stimuli (live_start p)"
  shows "pr_slots (lv_provider lv) + held_slots (lv_provider lv) = 64 \<and>
    (lv_stopped lv \<longrightarrow> (\<forall>later. length (pr_tasks (lv_provider (listen hl put later lv))) =
       length (pr_tasks (lv_provider lv)))) \<and>
    (length (claimed_ids (lv_provider lv)) \<le> 10000 \<longrightarrow>
       board_step\<^sup>*\<^sup>* empty_board (board_of (lv_provider lv)) \<and>
       (\<forall>(ev, outcome) \<in> set (lv_sent lv). \<exists>k. k \<in> set (claimed_ids (lv_provider lv)) \<and>
          board_answers (board_of (lv_provider lv)) k = Some ev))"
proof -
  obtain q sh where "SignedJobHandler_new MAX_DEDUPE_ENTRIES q s = Inr sh" and p: "p = provider_start sh"
    using run_startup_provider [OF assms(1)] .
  then have new: "SignedJobHandler_new 10000 q s = Inr sh"
    by (simp add: constants)
  have run: "(handler_step hl put)\<^sup>*\<^sup>* (provider_start sh) (lv_provider lv)"
    using listen_refines [of hl put "live_start p" stimuli] by (simp add: assms(2) live_start_def p)
  have "map fst (lv_sent lv) = pr_sent (lv_provider lv)"
    unfolding assms(2) by (rule listen_sent) (simp add: live_start_def p provider_start_def)
  then have sent: "set (pr_sent (lv_provider lv)) = fst ` set (lv_sent lv)"
    by (metis list.set_map)
  have "board_step\<^sup>*\<^sup>* empty_board (board_of (lv_provider lv)) \<and>
      (\<forall>(ev, outcome) \<in> set (lv_sent lv). \<exists>k. k \<in> set (claimed_ids (lv_provider lv)) \<and>
         board_answers (board_of (lv_provider lv)) k = Some ev)"
    if "length (claimed_ids (lv_provider lv)) \<le> 10000"
  proof -
    have board: "board_step\<^sup>*\<^sup>* empty_board (board_of (lv_provider lv))"
      using handler_steps_on_board [OF run new that] by blast
    have "\<exists>k. k \<in> set (claimed_ids (lv_provider lv)) \<and> board_answers (board_of (lv_provider lv)) k = Some ev"
      if "(ev, outcome) \<in> set (lv_sent lv)" for ev outcome
    proof -
      have "ev \<in> set (pr_sent (lv_provider lv))"
        unfolding sent using that by force
      then show ?thesis
        using board_steps_ok [OF board] by (fastforce simp: board_ok_def board_of_def ran_def)
    qed
    with board show ?thesis by blast
  qed
  moreover have "pr_slots (lv_provider lv) + held_slots (lv_provider lv) = 64"
    using handler_steps_ok [OF run provider_start_ok [OF new]] by (simp add: provider_ok_def MAX_INFLIGHT_EVENTS_def)
  ultimately show ?thesis
    by (auto intro: conjunct2 [OF stopped_listen])
qed

theorem live_provider_refines_board_witness:
  "\<exists>base ev k lv. lv = listen (\<lambda>_. failing_handler) (\<lambda>_. memory_put zero_hash) one_delivery
       (live_start (provider_start (example_shared base))) \<and>
     lv_sent lv = [(ev, D_Published [''wss://relay.example/''] [])] \<and>
     board_answers (board_of (lv_provider lv)) k = Some ev"
proof -
  obtain config engine base where start: "run_startup example_startup (Map.empty :: string \<rightharpoonup> bytes) =
     Inr (config, ''nsec1key'', engine, provider_start (example_shared base))"
    using example_started by blast
  let ?lv = "listen (\<lambda>_. failing_handler) (\<lambda>_. memory_put zero_hash) one_delivery
       (live_start (provider_start (example_shared base)))"
  obtain ev where sent: "lv_sent ?lv = [(ev, D_Published [''wss://relay.example/''] [])]"
    and few: "length (claimed_ids (lv_provider ?lv)) \<le> 10000"
    using one_delivery_sent [of base] by auto
  from live_provider_refines_board [OF start refl, where hl = "\<lambda>_. failing_handler" and put = "\<lambda>_. memory_put zero_hash"
      and stimuli = one_delivery] few sent
  obtain k where "board_answers (board_of (lv_provider ?lv)) k = Some ev" by auto
  with sent show ?thesis by blast
qed

text \<open>C24: a result that no relay took is not lost while it can be remembered. If the first
  accepted delivery of a request was answered but the publication failed or every relay
  refused, then after any further deliveries, fewer in number than the ids that both the
  window and the cache hold, every delivery of the request publishes the very same signed
  event again, with whatever the relays then say, and changes nothing; so the customer only
  has to send the request again before that many others have come in.\<close>

theorem failed_publication_is_repeated:
  assumes "handler_ok sh" and "parse_request_event (hl_wire hl) event now = Inr request"
    and "completed_result sh (jr_id request) = None" and "jr_id request \<notin> set (window (dedupe sh))"
    and "dispatch hl put send event now sh = Some (outcome, sh1)"
    and "outcome = D_SendFailed \<or> outcome = D_Refused refused"
  shows "\<exists>ev. answer_outcome send (Inr (Some ev)) = outcome \<and>
    (\<forall>later. length later < min (capacity (dedupe sh)) (cr_capacity (completed sh)) \<longrightarrow>
      (\<exists>sh2. deliver_all later sh1 = Some sh2 \<and>
        (\<forall>hl' put' send' event' now' request' p s.
           parse_request_event (hl_wire hl') event' now' = Inr request' \<longrightarrow> jr_id request' = jr_id request \<longrightarrow>
           dispatch hl' put' send' event' now' (sh2\<lparr>processor := p, store := s\<rparr>) =
             Some (publish_outcome (send' ev), sh2\<lparr>processor := p, store := s\<rparr>))))"
proof -
  obtain answer sh' where first: "handle_event hl put event now sh = Some (answer, sh')"
    and kept: "\<And>later. length later < min (capacity (dedupe sh)) (cr_capacity (completed sh)) \<Longrightarrow>
       \<exists>sh2. deliver_all later sh' = Some sh2 \<and>
         kept 0 (jr_id request) (case answer of Inr (Some ev) \<Rightarrow> Some ev | _ \<Rightarrow> None) sh2"
    using answer_kept [OF assms(1-4), of put] by blast
  have outcome: "outcome = answer_outcome send answer" "sh1 = sh'"
    using assms(5) first by (simp_all add: dispatch_def)
  then obtain ev where answer: "answer = Inr (Some ev)"
    using assms(6) by (auto simp: answer_outcome_def split: sum.splits option.splits)
  have "\<exists>sh2. deliver_all later sh1 = Some sh2 \<and>
      (\<forall>hl' put' send' event' now' request' p s.
         parse_request_event (hl_wire hl') event' now' = Inr request' \<longrightarrow> jr_id request' = jr_id request \<longrightarrow>
         dispatch hl' put' send' event' now' (sh2\<lparr>processor := p, store := s\<rparr>) =
           Some (publish_outcome (send' ev), sh2\<lparr>processor := p, store := s\<rparr>))"
    if few: "length later < min (capacity (dedupe sh)) (cr_capacity (completed sh))" for later
  proof -
    obtain sh2 where sh2: "deliver_all later sh1 = Some sh2" "kept 0 (jr_id request) (Some ev) sh2"
      using kept [OF few] by (auto simp: outcome(2) answer)
    have "dispatch hl' put' send' event' now' (sh2\<lparr>processor := p, store := s\<rparr>) =
        Some (publish_outcome (send' ev), sh2\<lparr>processor := p, store := s\<rparr>)"
      if "parse_request_event (hl_wire hl') event' now' = Inr request'" "jr_id request' = jr_id request"
      for hl' put' send' event' now' request' p s
      using kept_answers [OF sh2(2) [folded that(2)] that(1)] by (simp add: dispatch_def answer_outcome_def)
    with sh2(1) show ?thesis by blast
  qed
  then show ?thesis
    using outcome(1) answer by blast
qed

theorem failed_publication_is_repeated_witness:
  "\<exists>ev sh1 sh2. dispatch example_handler (memory_put zero_hash) (\<lambda>_. None) example_event 1001 busy_shared =
       Some (D_SendFailed, sh1) \<and>
     deliver_all [(example_handler, memory_put zero_hash, example_event, 1001)] sh1 = Some sh2 \<and>
     dispatch example_handler (memory_put zero_hash) (\<lambda>e. if e = ev then one_relay else None) example_event 1001
       (sh2\<lparr>processor := example_processor, store := Map.empty\<rparr>) =
       Some (D_Published [''wss://relay.example/''] [], sh2\<lparr>processor := example_processor, store := Map.empty\<rparr>)"
proof -
  let ?again = "[(example_handler, memory_put zero_hash, example_event, 1001)]"
  note ok = SignedJobHandler_new_ok [OF busy_shared_new]
  have fresh: "completed_result busy_shared (jr_id example_request) = None"
    "jr_id example_request \<notin> set (window (dedupe busy_shared))"
    and room: "length ?again < min (capacity (dedupe busy_shared)) (cr_capacity (completed busy_shared))"
    by (simp_all add: completed_result_def busy_shared_def CompletedResults_new_def)
  obtain ev where "sign_result example_handler example_request (error_content example_request P_Busy) = Inr ev"
    using example_handler_signs by blast
  then obtain sh1 where first: "handle_event example_handler (memory_put zero_hash) example_event 1001 busy_shared =
      Some (Inr (Some ev), sh1)"
    by (auto simp: handle_event_def example_handler_parses completed_result_def busy_shared_def
        CompletedResults_new_def claim_def evict.simps process_def acquire_slot_def remember_result_def
        CompletedResults_insert_def evict_completed.simps Let_def)
  then have failed: "dispatch example_handler (memory_put zero_hash) (\<lambda>_. None) example_event 1001 busy_shared =
      Some (D_SendFailed, sh1)"
    by (simp add: dispatch_def answer_outcome_def publish_outcome_def)
  obtain ev' where all: "\<And>later. length later < min (capacity (dedupe busy_shared)) (cr_capacity (completed busy_shared)) \<Longrightarrow>
      \<exists>sh2. deliver_all later sh1 = Some sh2 \<and>
        (\<forall>hl' put' send' event' now' request' p s.
           parse_request_event (hl_wire hl') event' now' = Inr request' \<longrightarrow> jr_id request' = jr_id example_request \<longrightarrow>
           dispatch hl' put' send' event' now' (sh2\<lparr>processor := p, store := s\<rparr>) =
             Some (publish_outcome (send' ev'), sh2\<lparr>processor := p, store := s\<rparr>))"
    using failed_publication_is_repeated [OF ok example_handler_parses fresh failed, of "[]"] by blast
  obtain sh2 where later: "deliver_all ?again sh1 = Some sh2"
    and again: "\<And>send' p s. dispatch example_handler (memory_put zero_hash) send' example_event 1001
      (sh2\<lparr>processor := p, store := s\<rparr>) = Some (publish_outcome (send' ev'), sh2\<lparr>processor := p, store := s\<rparr>)"
    using all [OF room] example_handler_parses by blast
  from again [of "\<lambda>e. if e = ev' then one_relay else None" Map.empty example_processor] failed later
  show ?thesis
    by (auto simp: publish_outcome_def one_relay_def)
qed

text \<open>C23: the sequential handler is the concurrent one with nothing beside it. When \<open>dispatch\<close>
  returns, on whichever branch, the schedule of that one delivery (its notification, eight
  phases, which always suffice, and its end) leaves the same shared state, cache, window,
  slots and store included, gives the dispatch slot back and publishes exactly what
  \<open>dispatch\<close> published. So what is proved of \<open>handle_event\<close> holds of the event loop.\<close>

theorem dispatch_is_lone_schedule:
  assumes "dispatch hl put (\<lambda>_. sent) event now sh = Some (outcome, sh')"
    and "lv = listen (\<lambda>_ :: unit. hl) (\<lambda>_. put)
      (S_Notified (NotifyEvent event) now # replicate 8 (S_Phase 0 ()) @ [S_Finished 0 sent]) (live_start (provider_start sh))"
  shows "pr_shared (lv_provider lv) = sh' \<and> pr_slots (lv_provider lv) = 64 \<and>
    map snd (lv_sent lv) = (case outcome of D_Discarded _ \<Rightarrow> [] | D_Duplicate \<Rightarrow> [] | _ \<Rightarrow> [outcome])"
proof -
  obtain answer where "handle_event hl put event now sh = Some (answer, sh')"
    and outcome: "outcome = answer_outcome (\<lambda>_. sent) answer"
    using assms(1) by (auto simp: dispatch_def)
  from lone_delivery [OF this(1) assms(2)] show ?thesis
    by (auto simp: outcome answer_outcome_def publish_outcome_def split: sum.split option.split)
qed

theorem dispatch_is_lone_schedule_witness:
  "\<exists>lv :: (string \<rightharpoonup> bytes) live. lv = listen (\<lambda>_ :: unit. example_handler) (\<lambda>_. memory_put zero_hash)
      (S_Notified (NotifyEvent example_event) 1001 # replicate 8 (S_Phase 0 ()) @ [S_Finished 0 one_relay])
      (live_start (provider_start busy_shared)) \<and>
    map snd (lv_sent lv) = [D_Published [''wss://relay.example/''] []]"
proof -
  obtain ev where "sign_result example_handler example_request (error_content example_request P_Busy) = Inr ev"
    using example_handler_signs by blast
  then obtain sh1 where "handle_event example_handler (memory_put zero_hash) example_event 1001 busy_shared =
      Some (Inr (Some ev), sh1)"
    by (auto simp: handle_event_def example_handler_parses completed_result_def busy_shared_def
        CompletedResults_new_def claim_def evict.simps process_def acquire_slot_def remember_result_def
        CompletedResults_insert_def evict_completed.simps Let_def)
  then have "dispatch example_handler (memory_put zero_hash) (\<lambda>_. one_relay) example_event 1001 busy_shared =
      Some (D_Published [''wss://relay.example/''] [], sh1)"
    by (simp add: dispatch_def answer_outcome_def publish_outcome_def one_relay_def)
  from dispatch_is_lone_schedule [OF this refl] show ?thesis by simp
qed

text \<open>A broken filter in the environment does not keep the provider from starting.\<close>

lemma init_tracing_falls_back:
  "init_tracing (Inl e) filter_new try_init =
     init_tracing (Inr (filter_new ''info,soul_provider=debug,soul_core=debug,soul_prover=info'')) filter_new try_init"
  by (simp add: init_tracing_def)

text \<open>How the process ends: it leaves with success, and goes through the shutdown of the HTTP
  service and of the relay pool, exactly after a signal; every other ending returns its error
  before the shutdown.\<close>

lemma shutdown_only_after_signal:
  "snd (provider_main tracing lib s e) \<longleftrightarrow> fst (provider_main tracing lib s e) = Inr ()"
  "snd (provider_main tracing lib s e) \<Longrightarrow> e = Ended_Signal True"
  by (auto simp: provider_main_def after_select_def split: sum.splits ending.splits if_splits)

end
