(* ===== verification/Wasm.thy ===== *)
theory Wasm
  imports Verifier
begin

text \<open>
  \<open>crates/soul-wasm/src/lib.rs\<close>: the browser verifier, which repeats the native decoder and
  the native pinned parameters with its own error type, checks in a different order and on
  a 32-bit \<open>usize\<close>. It is modelled from its own source and compared with \<open>Verifier\<close>. The
  reading of the expected statement from JSON is a parameter.
\<close>

section \<open>Definitions\<close>

datatype BrowserVerificationError =
    B_ProofTooLarge u64
  | B_InvalidExpectedProgramHash
  | B_InvalidExpectedStatement string
  | B_MalformedProof
  | B_InvalidProof
  | B_UnsupportedProofProfile
  | B_InvalidOutput string
  | B_ProgramHashMismatch
  | B_StatementMismatch

definition wasm_required_pcs_config :: PcsConfig where
  "wasm_required_pcs_config =
     \<lparr>pow_bits = 26,
      fri_config =
        \<lparr>log_last_layer_degree_bound = 0, log_blowup_factor = 1, n_queries = 70, fold_step = 1\<rparr>,
      lifting_log_size = None\<rparr>"

definition wasm_validate_proof_profile ::
  "('fe, 'proof, 'memory, 'variant, 'x) stwo_lib_scheme \<Rightarrow> PcsConfig \<Rightarrow> 'variant \<Rightarrow>
   (BrowserVerificationError, unit) result" where
  "wasm_validate_proof_profile lib config variant =
     (if config \<noteq> wasm_required_pcs_config \<or> variant \<noteq> canonical_variant lib
      then Inl B_UnsupportedProofProfile else Inr ())"

definition wasm_field_to_felt ::
  "('fe, 'x) field_lib_scheme \<Rightarrow> 'fe \<Rightarrow> (BrowserVerificationError, FeltHex) result" where
  "wasm_field_to_felt lib value =
     map_err (\<lambda>_. B_InvalidOutput ''non-canonical field element'')
       (FeltHex_parse (''0x'' @ hex_encode lib (to_bytes_be lib value)))"

definition wasm_take_u64 ::
  "('fe, 'x) field_lib_scheme \<Rightarrow> 'fe list \<Rightarrow> nat \<Rightarrow> string \<Rightarrow>
   (BrowserVerificationError, u64 \<times> nat) result" where
  "wasm_take_u64 lib output cursor err =
     and_then (ok_or (B_InvalidOutput err) (list_get output cursor)) (\<lambda>value.
     let bytes = to_bytes_be lib value in
     if list_ex (\<lambda>byte. byte \<noteq> 0) (take 24 bytes)
     then Inl (B_InvalidOutput ''integer output does not fit u64'')
     else and_then
       (ok_or (B_InvalidOutput ''invalid integer encoding'') (u64_from_be_bytes (drop 24 bytes)))
       (\<lambda>v. Inr (v, cursor + 1)))"

definition wasm_take_len ::
  "('fe, 'x) field_lib_scheme \<Rightarrow> 'fe list \<Rightarrow> nat \<Rightarrow> string \<Rightarrow>
   (BrowserVerificationError, nat \<times> nat) result" where
  "wasm_take_len lib output cursor err =
     and_then (wasm_take_u64 lib output cursor err) (\<lambda>(value, cursor).
     if unat value < 2 ^ usize_bits lib then Inr (unat value, cursor)
     else Inl (B_InvalidOutput ''array length is too large''))"

definition wasm_take_felts ::
  "('fe, 'x) field_lib_scheme \<Rightarrow> 'fe list \<Rightarrow> nat \<Rightarrow> nat \<Rightarrow> string \<Rightarrow>
   (BrowserVerificationError, FeltHex list \<times> nat) result" where
  "wasm_take_felts lib output cursor len err =
     (if \<not> cursor + len < 2 ^ usize_bits lib
      then Inl (B_InvalidOutput ''array length overflow'')
      else let end = cursor + len in
        and_then (ok_or (B_InvalidOutput err) (slice_get output cursor end)) (\<lambda>values.
        and_then (collect_results (map (wasm_field_to_felt lib) values)) (\<lambda>felts.
        Inr (felts, end))))"

definition wasm_decode_boolean :: "FeltHex \<Rightarrow> (BrowserVerificationError, bool) result" where
  "wasm_decode_boolean value =
     (if value = FeltHex_from_u64 0 then Inr False
      else if value = FeltHex_from_u64 1 then Inr True
      else Inl (B_InvalidOutput ''boolean output must be zero or one''))"

definition wasm_validate_statement :: "ProofStatement \<Rightarrow> (BrowserVerificationError, unit) result" where
  "wasm_validate_statement s =
     and_then
       (map_err (\<lambda>error. B_InvalidExpectedStatement (ValidationError_to_string error))
         (ProofStatement_validate s))
       (\<lambda>_.
     case (st_service s, st_output s) of
       (Fibonacci, OutFibonacci result) \<Rightarrow>
         if length (st_public_input s) = 1 \<and> st_public_output s = [result] then Inr ()
         else Inl (B_InvalidExpectedStatement ''service, arity, raw output, and typed output disagree'')
     | (HashVerify, OutHashVerify valid) \<Rightarrow>
         if length (st_public_input s) = 1
            \<and> st_public_output s = [FeltHex_from_u64 (u64_of_bool valid)] then Inr ()
         else Inl (B_InvalidExpectedStatement ''service, arity, raw output, and typed output disagree'')
     | (MerkleProof, OutMerkleProof valid) \<Rightarrow>
         if length (st_public_input s) = 3
            \<and> st_public_output s = [FeltHex_from_u64 (u64_of_bool valid)] then Inr ()
         else Inl (B_InvalidExpectedStatement ''service, arity, raw output, and typed output disagree'')
     | _ \<Rightarrow> Inl (B_InvalidExpectedStatement ''service, arity, raw output, and typed output disagree''))"

definition wasm_decode_statement ::
  "('fe, 'x) field_lib_scheme \<Rightarrow> 'fe list \<Rightarrow> (BrowserVerificationError, ProofStatement) result" where
  "wasm_decode_statement lib output =
     and_then (wasm_take_u64 lib output 0 ''missing service'') (\<lambda>(service_id, cursor).
     and_then (wasm_take_len lib output cursor ''missing public input length'')
       (\<lambda>(public_input_len, cursor).
     and_then (wasm_take_felts lib output cursor public_input_len ''truncated public input'')
       (\<lambda>(public_input, cursor).
     and_then (wasm_take_len lib output cursor ''missing public output length'')
       (\<lambda>(public_output_len, cursor).
     and_then (wasm_take_felts lib output cursor public_output_len ''truncated public output'')
       (\<lambda>(public_output, cursor).
     if cursor \<noteq> length output then Inl (B_InvalidOutput ''trailing output values'') else
     and_then
       (if service_id = 1 \<and> length public_input = 1 \<and> length public_output = 1 then
          Inr (Fibonacci, OutFibonacci (public_output ! 0))
        else if service_id = 2 \<and> length public_input = 1 \<and> length public_output = 1 then
          and_then (wasm_decode_boolean (public_output ! 0)) (\<lambda>valid. Inr (HashVerify, OutHashVerify valid))
        else if service_id = 3 \<and> length public_input = 3 \<and> length public_output = 1 then
          and_then (wasm_decode_boolean (public_output ! 0)) (\<lambda>valid. Inr (MerkleProof, OutMerkleProof valid))
        else if 1 \<le> service_id \<and> service_id \<le> 3 then
          Inl (B_InvalidOutput ''service input/output arity mismatch'')
        else Inl (B_InvalidOutput ''unsupported service id''))
       (\<lambda>(service, typed_output).
     let statement =
       \<lparr>st_service = service, st_program = CAIRO_PROGRAM, st_public_input = public_input,
        st_public_output = public_output, st_output = typed_output\<rparr> in
     and_then (wasm_validate_statement statement) (\<lambda>_. Inr statement)))))))"

definition verify_proof_impl ::
  "('fe, 'proof, 'memory, 'variant, 'x) stwo_lib_scheme \<Rightarrow>
   (string \<Rightarrow> (string, ProofStatement) result) \<Rightarrow> bytes \<Rightarrow> string \<Rightarrow> string \<Rightarrow>
   (BrowserVerificationError, unit) result" where
  "verify_proof_impl lib statement_from_str proof_bytes expected_hash expected_statement_json =
     (if length proof_bytes > unat MAX_PROOF_BYTES then Inl (B_ProofTooLarge MAX_PROOF_BYTES)
      else
        and_then (map_err (\<lambda>_. B_InvalidExpectedProgramHash) (FeltHex_parse expected_hash))
          (\<lambda>expected_program_hash.
        and_then (map_err B_InvalidExpectedStatement (statement_from_str expected_statement_json))
          (\<lambda>expected_statement.
        and_then (wasm_validate_statement expected_statement) (\<lambda>_.
        and_then (map_err (\<lambda>_. B_MalformedProof) (proof_from_slice lib proof_bytes)) (\<lambda>proof.
        and_then (wasm_validate_proof_profile lib (stark_config lib proof)
          (preprocessed_trace_variant lib proof)) (\<lambda>_.
        and_then (map_err (\<lambda>_. B_InvalidProof) (catch_unwind (verify_cairo lib proof))) (\<lambda>verification.
        and_then (map_err (\<lambda>_. B_InvalidProof) verification) (\<lambda>_.
        and_then (map_err (\<lambda>_. B_InvalidProof)
          (catch_unwind (get_verification_output lib (public_memory lib proof)))) (\<lambda>public_data.
        and_then (wasm_field_to_felt lib (vo_program_hash public_data)) (\<lambda>program_hash.
        if program_hash \<noteq> expected_program_hash then Inl B_ProgramHashMismatch else
        and_then (wasm_decode_statement lib (vo_output public_data)) (\<lambda>statement.
        if statement \<noteq> expected_statement then Inl B_StatementMismatch else Inr ())))))))))))"

text \<open>The exported method: \<open>true\<close>, or the error's text as a JavaScript exception.\<close>

definition BrowserVerificationError_to_string :: "BrowserVerificationError \<Rightarrow> string" where
  "BrowserVerificationError_to_string e =
     (case e of
        B_ProofTooLarge n \<Rightarrow> ''proof exceeds the '' @ u64_to_string n @ ''-byte limit''
      | B_InvalidExpectedProgramHash \<Rightarrow> ''invalid expected program hash''
      | B_InvalidExpectedStatement m \<Rightarrow> ''invalid expected statement: '' @ m
      | B_MalformedProof \<Rightarrow> ''malformed STWO proof''
      | B_InvalidProof \<Rightarrow> ''STWO proof verification failed''
      | B_UnsupportedProofProfile \<Rightarrow> ''proof does not use the required 96-bit STWO verifier profile''
      | B_InvalidOutput m \<Rightarrow> ''invalid Soul Cairo public output: '' @ m
      | B_ProgramHashMismatch \<Rightarrow> ''Cairo program hash mismatch''
      | B_StatementMismatch \<Rightarrow> ''proof statement mismatch'')"

definition verify_proof ::
  "('fe, 'proof, 'memory, 'variant, 'x) stwo_lib_scheme \<Rightarrow>
   (string \<Rightarrow> (string, ProofStatement) result) \<Rightarrow> bytes \<Rightarrow> string \<Rightarrow> string \<Rightarrow> (string, bool) result" where
  "verify_proof lib statement_from_str proof_bytes expected_hash expected_statement_json =
     map_err BrowserVerificationError_to_string
       (and_then (verify_proof_impl lib statement_from_str proof_bytes expected_hash expected_statement_json)
         (\<lambda>_. Inr True))"

section \<open>The browser decoder against the native one\<close>

text \<open>The text of an error in the decoder, as the browser reports it.\<close>

fun browser_error :: "StatementError \<Rightarrow> BrowserVerificationError" where
  "browser_error (SE_InvalidOutput m) =
     B_InvalidOutput (if m = ''field element is not canonical'' then ''non-canonical field element'' else m)"
| "browser_error (SE_InvalidStatement m) =
     B_InvalidExpectedStatement
       (if m = ''core statement validation failed'' then ''proof statement is invalid'' else m)"
| "browser_error (SE_InvalidInput v) = B_InvalidExpectedStatement (ValidationError_to_string v)"
| "browser_error (SE_InvalidFelt m) = B_InvalidOutput m"

lemma map_err_and_then:
  "map_err g (and_then r f) = and_then (map_err g r) (\<lambda>a. map_err g (f a))"
  by (cases r) simp_all

lemma map_err_ok_or: "map_err g (ok_or e x) = ok_or (g e) x"
  by (cases x) simp_all

lemma map_err_map_err: "map_err g (map_err h r) = map_err (\<lambda>e. g (h e)) r"
  by (cases r) simp_all

lemma map_err_collect: "map_err g (collect_results rs) = collect_results (map (map_err g) rs)"
  by (induction rs) (simp_all add: map_err_and_then)

lemmas map_err_push = map_err_and_then map_err_ok_or map_err_map_err map_err_collect

lemma wasm_field_to_felt_native:
  "wasm_field_to_felt lib = (\<lambda>x. map_err browser_error (field_to_felt lib x))"
  by (simp add: fun_eq_iff wasm_field_to_felt_def field_to_felt_def map_err_map_err)

lemma wasm_take_u64_native:
  "e \<noteq> ''field element is not canonical'' \<Longrightarrow>
     wasm_take_u64 lib out c e = map_err browser_error (take_u64 lib out c e)"
  by (simp add: wasm_take_u64_def take_u64_def Let_def map_err_push if_distrib [of "map_err _"]
      cong: if_cong)

lemma wasm_take_len_native:
  "e \<noteq> ''field element is not canonical'' \<Longrightarrow>
     wasm_take_len lib out c e = map_err browser_error (take_len lib out c e)"
  by (simp add: wasm_take_len_def take_len_def wasm_take_u64_native map_err_push case_prod_unfold
      if_distrib [of "map_err _"] cong: if_cong)

lemma wasm_take_felts_native:
  "e \<noteq> ''field element is not canonical'' \<Longrightarrow>
     wasm_take_felts lib out c n e = map_err browser_error (take_felts lib out c n e)"
  by (simp add: wasm_take_felts_def take_felts_def wasm_field_to_felt_native map_err_push Let_def
      if_distrib [of "map_err _"] comp_def cong: if_cong)

lemma wasm_decode_boolean_native: "wasm_decode_boolean f = map_err browser_error (decode_boolean f)"
  by (simp add: wasm_decode_boolean_def decode_boolean_def)

lemma wasm_validate_statement_native:
  "wasm_validate_statement s = map_err browser_error (validate_statement s)"
proof (cases "ProofStatement_validate s")
  case (Inl e)
  then have "e = InvalidStatement" by (simp add: ProofStatement_validate_error)
  with Inl show ?thesis
    by (simp add: wasm_validate_statement_def validate_statement_def)
next
  case (Inr u)
  then show ?thesis
    by (simp add: wasm_validate_statement_def validate_statement_def
        split: ServiceType.split JobOutput.split)
qed

lemma service_id_range: "1 \<le> (v :: u64) \<and> v \<le> 3 \<longleftrightarrow> v = 1 \<or> v = 2 \<or> v = 3"
proof -
  have "1 \<le> unat v \<and> unat v \<le> 3 \<longleftrightarrow> unat v = 1 \<or> unat v = 2 \<or> unat v = 3"
    by linarith
  then show ?thesis
    by (simp add: word_le_nat_alt word_unat_eq_iff)
qed

lemma wasm_decode_statement_native:
  "wasm_decode_statement lib out = map_err browser_error (decode_statement lib out)"
  by (simp add: wasm_decode_statement_def decode_statement_def wasm_take_u64_native
      wasm_take_len_native wasm_take_felts_native wasm_decode_boolean_native
      wasm_validate_statement_native service_id_range service_ids map_err_push case_prod_unfold
      if_distrib [of "map_err _"] Let_def cong: if_cong)

lemma wasm_profile_native:
  "wasm_validate_proof_profile lib c v = Inr () \<longleftrightarrow> validate_proof_profile lib c v = Inr ()"
  by (simp add: wasm_validate_proof_profile_def validate_proof_profile_def
      wasm_required_pcs_config_def required_pcs_config_def)

lemma verify_proof_impl_eq_Inr:
  "verify_proof_impl lib from_str proof_bytes h json = Inr () \<longleftrightarrow>
     (\<exists>s. from_str json = Inr s \<and> verify_serialized lib proof_bytes h s = Inr ())"
proof -
  have bytes: "unat MAX_PROOF_BYTES = 33554432" by (simp add: constants)
  show ?thesis
    unfolding verify_proof_impl_def bytes verify_serialized_eq_Inr verify_and_decode_eq_Inr
      stark_accepts_def
    by (auto simp: and_then_eq_Inr wasm_validate_statement_native wasm_field_to_felt_native
        wasm_decode_statement_native wasm_profile_native validators felt_ok_def FeltHex_parse_eq_Inr)
qed

text \<open>The width of \<open>usize\<close> does not matter to the verifiers once it holds 32 bits.\<close>

lemma stark_accepts_width [simp]:
  "stark_accepts (lib\<lparr>usize_bits := w\<rparr>) json out \<longleftrightarrow> stark_accepts lib json out"
  by (simp add: stark_accepts_def)

lemma stwo_codec_width: "stwo_codec lib fe_val \<Longrightarrow> 32 \<le> w \<Longrightarrow> stwo_codec (lib\<lparr>usize_bits := w\<rparr>) fe_val"
  by (simp add: stwo_codec_def field_codec_def)

section \<open>Properties\<close>

text \<open>The browser's copy of the decoder is the native decoder on every output, valid or
  not: it returns the same statement, and otherwise the same error message under its own
  error type.\<close>

theorem wasm_decode_agrees:
  "wasm_decode_statement lib out = map_err browser_error (decode_statement lib out)"
  by (simp add: wasm_decode_statement_native)

text \<open>C17: a proof verifies in the browser exactly when it verifies natively: for an expected
  statement given as JSON, the exported method returns true on a 32-bit \<open>usize\<close> if and
  only if the JSON reads as a statement for which \<open>verify_serialized\<close> accepts the same
  bytes and hash on a 64-bit one; it never returns false.\<close>

theorem browser_verifier_agrees:
  assumes "stwo_codec lib fe_val"
  shows "(verify_proof (lib\<lparr>usize_bits := 32\<rparr>) from_str proof_bytes h json = Inr True \<longleftrightarrow>
      (\<exists>s. from_str json = Inr s \<and>
         verify_serialized (lib\<lparr>usize_bits := 64\<rparr>) proof_bytes h s = Inr ())) \<and>
    verify_proof (lib\<lparr>usize_bits := 32\<rparr>) from_str proof_bytes h json \<noteq> Inr False"
proof -
  have "verify_serialized (lib\<lparr>usize_bits := 32\<rparr>) proof_bytes h s = Inr () \<longleftrightarrow>
      verify_serialized (lib\<lparr>usize_bits := 64\<rparr>) proof_bytes h s = Inr ()" for s
    using stwo_codec.verify_serialized_iff [OF stwo_codec_width [OF assms], of 32]
      stwo_codec.verify_serialized_iff [OF stwo_codec_width [OF assms], of 64]
    by simp
  then show ?thesis
    by (auto simp: verify_proof_def and_then_eq_Inr verify_proof_impl_eq_Inr)
qed

theorem browser_verifier_agrees_witness:
  "verify_proof ((example_stwo 64)\<lparr>usize_bits := 32\<rparr>) (\<lambda>_. Inr example_statement)
     [1, 9, 1, 1, 10, 1, 55] (as_str (FeltHex_from_u64 9)) ''{}'' = Inr True"
proof -
  have "(example_stwo 64)\<lparr>usize_bits := 64\<rparr> = example_stwo 64"
    by (simp add: example_stwo_def)
  then show ?thesis
    using browser_verifier_agrees [OF example_native.stwo_codec_axioms] example_verified
    by simp
qed

end
