(* ===== verification/Service.thy ===== *)
theory Service
  imports Stark Router Client Transport Wasm
begin

text \<open>
  The service as a whole, from both sides. Every request the provider accepts and has room for
  is answered with the statement it asks for, and its proof is downloaded and verified in the
  browser (completeness); and whatever a running provider has handed to the relays, under any
  schedule, stays downloadable, verifiable and true (safety). The proofs only compose what
  the components promise.
\<close>

section \<open>Canonical requests\<close>

text \<open>The field elements of an input, each of which the deserialiser has read.\<close>

fun input_felts :: "JobInput \<Rightarrow> FeltHex list" where
  "input_felts (InFibonacci n) = []"
| "input_felts (InHashVerify hash preimage) = [hash, preimage]"
| "input_felts (InMerkleProof root leaf path index) = root # leaf # path"

lemma job_felts_ok_iff: "job_felts_ok input \<longleftrightarrow> list_all felt_ok (input_felts input)"
  by (cases input) (auto simp: job_felts_ok_def)

text \<open>
  The \<open>serde\<close> derivation of a request calls the deserialiser of \<open>FeltHex\<close> for each of its
  field elements, with the deserialiser of strings.
\<close>

locale typed_codecs = wire_codecs +
  fixes string_deserialize :: "string \<Rightarrow> (string, string) result"
  assumes request_felts: "request_from_str lib s = Some c \<Longrightarrow> f \<in> set (input_felts (rc_input c)) \<Longrightarrow>
    \<exists>d. FeltHex_deserialize id string_deserialize d = Inr f"
begin

lemma accepted_felts_ok:
  assumes "parse_request_event lib event t = Inr request"
  shows "job_felts_ok (jr_input request)" and "input_bounds (jr_input request)"
    and "is_lower_hex (jr_id request) 64"
proof -
  from assms obtain c bid serialized where "accepted_request lib event t c bid serialized"
    and "request = request_of event c bid serialized"
    by (rule parse_request_event_sound)
  then have c: "request_from_str lib (ev_content event) = Some c" "jr_input request = rc_input c"
    "input_bounds (rc_input c)"
    by (auto simp: accepted_request_def request_of_def content_valid_def)
  then show "job_felts_ok (jr_input request)"
    using request_felts [OF c(1)] by (auto simp: job_felts_ok_iff list_all_iff FeltHex_deserialize_eq_Inr)
  show "input_bounds (jr_input request)"
    using c by simp
  show "is_lower_hex (jr_id request) 64"
    using verified_id accepted_request_id(1,2) [OF assms] by simp
qed

end

interpretation exchange_typed: typed_codecs "hl_wire (exchange_handler created bid)" Inr for created bid
  by unfold_locales (auto simp: exchange_handler_def example_lib_def exchange_content split: if_splits)

section \<open>Completeness\<close>

text \<open>The provider's base URL joins with the path of a proof to a URL a descriptor may have.\<close>

definition serves_proofs :: "url_lib \<Rightarrow> Url \<Rightarrow> bool" where
  "serves_proofs ul base \<longleftrightarrow>
     (\<forall>sha. is_lower_hex sha 64 \<longrightarrow>
        (\<exists>url parsed. ul_join ul base (''v1/proofs/'' @ sha @ ''.json'') = Some url \<and>
           ul_parse ul (url_serialization url) = Some parsed \<and> url_host parsed \<noteq> None \<and>
           (url_scheme parsed = ''https'' \<or> url_scheme parsed = ''http'' \<and> is_loopback_host parsed)))"

text \<open>A clock that a descriptor can carry.\<close>

definition clock_ok :: "nat \<times> nat \<times> nat \<Rightarrow> bool" where
  "clock_ok clock \<longleftrightarrow>
     fst clock < 2 ^ 53 \<and> fst (snd clock) < 2 ^ 53 \<and> snd (snd clock) < 2 ^ 53"

lemma elapsed_ms_safe: "n < 2 ^ 53 \<Longrightarrow> elapsed_ms n \<le> MAX_SAFE_INTEGER"
  by (simp add: elapsed_ms_def constants word_le_nat_alt unat_of_nat)

text \<open>What an interrupted-free \<open>process\<close> answers when nothing refuses.\<close>

lemma process_answers:
  assumes "0 < proving_slots p" and "prove (jr_input request) = Returned (Inr a)"
    and "statement_matches_request (va_statement a) (jr_input request)"
    and "put files (va_proof_bytes a) = (Inr stored, files')"
    and "describe_result ul (public_base_url p) request a stored = Inr r"
  shows "process ul prove put p files request = (Inr r, p, files')"
  using assms by (simp add: process_def acquire_slot_def release_slot_def worker_outcome_def check_binding_def Let_def)

lemma describe_result_answers:
  assumes "serves_proofs ul base" and "is_lower_hex (jr_id request) 64" and "statement_valid (va_statement a)"
    and "metrics_valid (va_metrics a)" and "is_lower_hex (sha256 stored) 64"
    and "0 < unat (byte_size stored)" and "unat (byte_size stored) \<le> 33554432"
  shows "\<exists>d. describe_result ul base request a stored =
      Inr (Success SOUL_WIRE_PROTOCOL (jr_id request) (va_statement a) d (va_metrics a)) \<and>
    pd_sha256 d = sha256 stored \<and> pd_byte_size d = byte_size stored \<and> pd_program_hash d = va_program_hash a"
proof -
  obtain url parsed where "ul_join ul base (''v1/proofs/'' @ sha256 stored @ ''.json'') = Some url"
    and "ul_parse ul (url_serialization url) = Some parsed" "url_host parsed \<noteq> None"
      "url_scheme parsed = ''https'' \<or> url_scheme parsed = ''http'' \<and> is_loopback_host parsed"
    using assms(1,5) by (auto simp: serves_proofs_def)
  with assms(2-) show ?thesis
    by (auto simp: describe_result_eq_Inr descriptor_valid_def)
qed

context complete_prover
begin

text \<open>An honest job at a provider with a free slot and a store that takes its proof.\<close>

lemma honest_job_processed:
  assumes "input_bounds (jr_input request)" and "job_felts_ok (jr_input request)" and "is_lower_hex (jr_id request) 64"
    and "engine_executable engine = executable" and "as_str (expected_program_hash engine) = trusted_hash"
    and "clock_ok clock" and "0 < proving_slots p" and "serves_proofs ul (public_base_url p)"
    and "artifact_store H store_ok put get content healthy" and "store_ok files" and "\<And>bs. length (H bs) = 32"
    and "\<And>bs. bs \<noteq> [] \<Longrightarrow> length bs \<le> 33554432 \<Longrightarrow> \<exists>stored files'. put f files bs = (Inr stored, files')"
  shows "\<exists>bs d m files'. process ul (\<lambda>input. Returned (engine_prove_job lib describe clock engine input)) (put f) p files request =
      (Inr (Success SOUL_WIRE_PROTOCOL (jr_id request) (expected_statement poseidon (jr_input request)) d m), p, files') \<and>
    store_ok files' \<and> content files' (pd_sha256 d) = Some bs \<and> is_sha256 (pd_sha256 d) \<and>
    pd_program_hash d = expected_program_hash engine \<and>
    verify_serialized lib bs (as_str (pd_program_hash d)) (expected_statement poseidon (jr_input request)) = Inr ()"
proof -
  let ?s = "expected_statement poseidon (jr_input request)"
  obtain a where proved: "prove_job lib clock engine (jr_input request) = Inr a"
    and a: "va_statement a = ?s" "va_program_hash a = expected_program_hash engine"
      "metrics_valid (va_metrics a)" "va_proof_bytes a \<noteq> []" "length (va_proof_bytes a) \<le> 33554432"
    using job_proved [OF assms(1,2,4,5), of clock] assms(6) elapsed_ms_safe
    by (elim exE conjE) (simp add: metrics_valid_def clock_ok_def)
  have verified: "verify_serialized lib (va_proof_bytes a) (as_str (expected_program_hash engine)) ?s = Inr ()"
    using prove_job_inner_eq_Inr [OF proved [unfolded prove_job_def]] a(1) by auto
  obtain stored files' where put: "put f files (va_proof_bytes a) = (Inr stored, files')"
    using assms(12) [OF a(4,5)] by blast
  have files': "store_ok files'" "content files' (sha256 stored) = Some (va_proof_bytes a)"
    "stored = \<lparr>sha256 = sha256_hex H (va_proof_bytes a), byte_size = of_nat (length (va_proof_bytes a))\<rparr>"
    using artifact_store.put_inv [OF assms(9,10) put] artifact_store.put_stored [OF assms(9,10) put] by auto
  have sha: "is_sha256 (sha256 stored)"
    using is_sha256_hex [where H = H] assms(11) files'(3) by simp
  then have hex: "is_lower_hex (sha256 stored) 64"
    by (simp add: is_sha256_def is_lower_hex_def)
  have valid: "statement_valid (va_statement a)"
    using expected_statement_ok(1) [OF assms(1,2)] a(1) by simp
  have size: "0 < unat (byte_size stored)" "unat (byte_size stored) \<le> 33554432"
    using a(4,5) by (simp_all add: files'(3) unat_of_nat)
  obtain d where d: "describe_result ul (public_base_url p) request a stored =
      Inr (Success SOUL_WIRE_PROTOCOL (jr_id request) (va_statement a) d (va_metrics a))"
    "pd_sha256 d = sha256 stored" "pd_program_hash d = va_program_hash a"
    using describe_result_answers [OF assms(8,3) valid a(3) hex size] by blast
  have "statement_matches_request (va_statement a) (jr_input request)"
    by (simp add: a(1) statement_matches_iff expected_statement_def)
  with proved have "process ul (\<lambda>input. Returned (engine_prove_job lib describe clock engine input)) (put f) p files request =
      (Inr (Success SOUL_WIRE_PROTOCOL (jr_id request) ?s d (va_metrics a)), p, files')"
    using process_answers [where put = "put f" and prove = "\<lambda>input. Returned (engine_prove_job lib describe clock engine input)",
        OF assms(7) _ _ put d(1)] a(1) by (simp add: engine_prove_job_def)
  then show ?thesis
    using files' sha d verified a(2) by auto
qed

end

text \<open>What the native verifier accepts, the browser accepts.\<close>

lemma browser_accepts:
  assumes "stwo_codec lib fe_val" and "verify_serialized lib bs h s = Inr ()" and "from_str json = Inr s"
  shows "verify_proof (lib\<lparr>usize_bits := 32\<rparr>) from_str bs h json = Inr True"
proof -
  have "verify_serialized (lib\<lparr>usize_bits := 32\<rparr>) bs h s = Inr ()"
    using assms(2) stwo_codec.verify_serialized_iff [OF assms(1)]
      stwo_codec.verify_serialized_iff [OF stwo_codec_width [OF assms(1)], of 32]
    by simp
  then show ?thesis
    using assms(3) by (auto simp: verify_proof_def and_then_eq_Inr verify_proof_impl_eq_Inr)
qed

text \<open>A new request whose processing is signed is answered.\<close>

lemma handle_event_answers:
  assumes "handler_ok sh" and "parse_request_event (hl_wire hl) event t = Inr request"
    and "completed_result sh (jr_id request) = None" and "jr_id request \<notin> set (window (dedupe sh))"
    and "process (hl_urls hl) (hl_prove hl) put (processor sh) (store sh) request = (Inr r, p, s)"
    and "sign_result hl request r = Inr ev"
  shows "\<exists>sh'. handle_event hl put event t sh = Some (Inr (Some ev), sh') \<and> store sh' = s"
proof -
  have "dedupe_ok (dedupe sh)" using assms(1) by (simp add: handler_ok_def)
  then obtain d where claimed: "claim (dedupe sh) (jr_id request) = Some (True, d)" and "dedupe_ok d"
    using claim_window [of "dedupe sh" "jr_id request"] assms(4) by auto
  let ?sh = "sh\<lparr>dedupe := d, processor := p, store := s\<rparr>"
  have "handler_ok ?sh" "cr_events (completed ?sh) (jr_id request) = None"
    using assms(1,3) \<open>dedupe_ok d\<close> by (simp_all add: handler_ok_def completed_result_def)
  then obtain c where "remember_result ?sh (jr_id request) ev = Some (?sh\<lparr>completed := c\<rparr>)"
    by (rule remember_result_keeps)
  with assms(2,3,5,6) claimed show ?thesis
    by (simp add: handle_event_def Let_def)
qed

section \<open>Safety\<close>

text \<open>
  A result is backed by the store when it names its request and, for a success, the store
  holds, under the digest and with the size of the descriptor, bytes that the verifier accepts
  for the engine's program hash and the statement, which is about the request.
\<close>

definition answer_backed ::
  "('fe, 'proof, 'memory, 'variant, 'x) stwo_lib_scheme \<Rightarrow> FeltHex \<Rightarrow> (string \<Rightarrow> bytes option) \<Rightarrow>
   JobRequest \<Rightarrow> JobResultContent \<Rightarrow> bool" where
  "answer_backed lib h look request r \<longleftrightarrow>
     JobResultContent_request_id r = jr_id request \<and>
     (case r of
        Success _ _ s d _ \<Rightarrow>
          statement_matches_request s (jr_input request) \<and> pd_program_hash d = h \<and> is_sha256 (pd_sha256 d) \<and>
          (\<exists>bs. look (pd_sha256 d) = Some bs \<and> of_nat (length bs) = pd_byte_size d \<and>
             verify_serialized lib bs (as_str h) s = Inr ())
      | Error _ _ _ \<Rightarrow> True)"

definition event_backed where
  "event_backed lib h hl look ev \<longleftrightarrow>
     (\<exists>f request r. sign_result (hl f) request r = Inr ev \<and> answer_backed lib h look request r)"

definition artifact_verified ::
  "('fe, 'proof, 'memory, 'variant, 'x) stwo_lib_scheme \<Rightarrow> FeltHex \<Rightarrow> VerifiedProofArtifact \<Rightarrow> bool" where
  "artifact_verified lib h a \<longleftrightarrow>
     va_program_hash a = h \<and> verify_serialized lib (va_proof_bytes a) (as_str h) (va_statement a) = Inr ()"

fun task_backed where
  "task_backed lib h hl look (T_Store request a) \<longleftrightarrow>
     artifact_verified lib h a \<and> statement_matches_request (va_statement a) (jr_input request)"
| "task_backed lib h hl look (T_Sign request r) \<longleftrightarrow> answer_backed lib h look request r"
| "task_backed lib h hl look (T_Remember request ev) \<longleftrightarrow> event_backed lib h hl look ev"
| "task_backed lib h hl look (T_Done request claimed (Inr (Some ev))) \<longleftrightarrow> event_backed lib h hl look ev"
| "task_backed lib h hl look t \<longleftrightarrow> True"

text \<open>More proofs in the store do not hurt.\<close>

lemma map_le_Some: "look \<subseteq>\<^sub>m look' \<Longrightarrow> look k = Some v \<Longrightarrow> look' k = Some v"
  unfolding map_le_def by (metis domI)

lemma answer_backed_mono:
  "answer_backed lib h look request r \<Longrightarrow> look \<subseteq>\<^sub>m look' \<Longrightarrow> answer_backed lib h look' request r"
  by (cases r) (auto simp: answer_backed_def dest: map_le_Some)

lemma event_backed_mono: "event_backed lib h hl look ev \<Longrightarrow> look \<subseteq>\<^sub>m look' \<Longrightarrow> event_backed lib h hl look' ev"
  unfolding event_backed_def using answer_backed_mono by blast

lemma task_backed_mono: "task_backed lib h hl look t \<Longrightarrow> look \<subseteq>\<^sub>m look' \<Longrightarrow> task_backed lib h hl look' t"
  by (cases "(lib, h, hl, look, t)" rule: task_backed.cases) (auto intro: answer_backed_mono event_backed_mono)

lemma error_backed: "answer_backed lib h look request (error_content request e)"
  by (simp add: answer_backed_def error_content_def JobResultContent_error_def JobResultContent_request_id_def)

text \<open>The cache only ever holds what was put in.\<close>

lemma remember_result_events:
  assumes "handler_ok sh" and "remember_result sh k ev = Some sh'"
  shows "handler_ok sh' \<and> store sh' = store sh \<and>
    ran (cr_events (completed sh')) \<subseteq> insert ev (ran (cr_events (completed sh)))"
proof (cases "cr_events (completed sh) k")
  case (Some old)
  with assms show ?thesis
    by (auto simp: remember_result_def CompletedResults_insert_def)
next
  case None
  let ?c = "(completed sh)\<lparr>cr_events := (cr_events (completed sh))(k \<mapsto> ev), cr_order := cr_order (completed sh) @ [k]\<rparr>"
  have ok: "fifo_ok (dom (cr_events ?c)) (cr_order ?c)"
    using assms(1) None fifo_ok_snoc [of "dom (cr_events (completed sh))" "cr_order (completed sh)" k]
    by (simp add: handler_ok_def domIff)
  then obtain c where c: "evict_completed (cr_capacity (completed sh)) ?c = Some c"
    "fifo_ok (dom (cr_events c)) (cr_order c)"
    by (rule completed.loop_evicts)
  note kept = evict_completed_events [OF ok c(1)]
  have "cr_events c j = Some e \<Longrightarrow> cr_events ?c j = Some e" for j e
    using kept(2) [of j] c(2) domI [of "cr_events c" j e] by (simp add: fifo_ok_def)
  then have "ran (cr_events c) \<subseteq> ran (cr_events ?c)"
    unfolding ran_def by blast
  then have "ran (cr_events c) \<subseteq> insert ev (ran (cr_events (completed sh)))"
    using None by simp
  moreover have "sh' = sh\<lparr>completed := c\<rparr>"
    using assms(2) None c(1) by (simp add: remember_result_def CompletedResults_insert_def)
  ultimately show ?thesis
    using assms(1) c(2) kept(1) by (simp add: handler_ok_def)
qed

text \<open>What the service rests on: a store, and an engine that returns what \<open>prove_job\<close> returned.\<close>

locale proof_service = artifact_store H inv put get content healthy
  for H :: "bytes \<Rightarrow> bytes" and inv :: "'s \<Rightarrow> bool" and put :: "'f \<Rightarrow> 's \<Rightarrow> bytes \<Rightarrow> (ArtifactError, StoredArtifact) result \<times> 's"
    and get content healthy +
  fixes lib :: "('fe, 'proof, 'memory, 'variant, 'hint, 'builtin, 'g, 'hints, 'table, 'program, 'runner, 'input,
      'file, 'cproof, 'x) prover_lib_scheme"
    and engine :: VerifiableJobEngine and hl :: "'f \<Rightarrow> handler_lib"
  assumes digest_length: "length (H bs) = 32"
    and engine_returns: "hl_prove (hl f) input = Returned (Inr a) \<Longrightarrow> \<exists>clock. prove_job lib clock engine input = Inr a"
begin

abbreviation "trusted \<equiv> expected_program_hash engine"

lemma engine_verified: "hl_prove (hl f) input = Returned (Inr a) \<Longrightarrow> artifact_verified lib trusted a"
  using engine_returns [of f input a] prove_job_inner_eq_Inr
  by (fastforce simp: artifact_verified_def prove_job_def verify_serialized_eq_Inr)

lemma stored_backed:
  assumes "inv s" and "put f s (va_proof_bytes a) = (Inr stored, s')"
    and "artifact_verified lib trusted a" and "statement_matches_request (va_statement a) (jr_input request)"
    and "describe_result ul base request a stored = Inr r"
  shows "answer_backed lib trusted (content s') request r"
proof -
  have "content s' (sha256 stored) = Some (va_proof_bytes a)" "byte_size stored = of_nat (length (va_proof_bytes a))"
    "is_sha256 (sha256 stored)"
    using put_stored [OF assms(1,2)] is_sha256_hex [where H = H] digest_length by auto
  with assms(3-5) show ?thesis
    by (auto simp: answer_backed_def describe_result_eq_Inr artifact_verified_def JobResultContent_request_id_def)
qed

lemma put_extends: "inv s \<Longrightarrow> put f s p = (r, s') \<Longrightarrow> content s \<subseteq>\<^sub>m content s'"
  using put_keeps by (auto simp: map_le_def dom_def)

text \<open>The invariant of the shared state, and of a running provider.\<close>

definition shared_backed :: "'s shared \<Rightarrow> bool" where
  "shared_backed sh \<longleftrightarrow>
     handler_ok sh \<and> inv (store sh) \<and>
     (\<forall>ev \<in> ran (cr_events (completed sh)). event_backed lib trusted hl (content (store sh)) ev)"

definition provider_backed :: "'s provider \<Rightarrow> bool" where
  "provider_backed p \<longleftrightarrow>
     shared_backed (pr_shared p) \<and>
     (\<forall>(t, held) \<in> set (pr_tasks p). task_backed lib trusted hl (content (store (pr_shared p))) t) \<and>
     (\<forall>ev \<in> set (pr_sent p). event_backed lib trusted hl (content (store (pr_shared p))) ev)"

lemma shared_backed_keeps:
  assumes "shared_backed sh" and "handler_ok sh'" and "inv (store sh')" and "content (store sh) \<subseteq>\<^sub>m content (store sh')"
    and "ran (cr_events (completed sh')) \<subseteq> ran (cr_events (completed sh))"
  shows "shared_backed sh'"
  using assms event_backed_mono [where look = "content (store sh)"] unfolding shared_backed_def by blast

lemma task_step_backed:
  assumes "shared_backed sh" and "task_backed lib trusted hl (content (store sh)) t"
    and "task_step (hl f) (put f) t sh = Some (t', sh')"
  shows "shared_backed sh' \<and> content (store sh) \<subseteq>\<^sub>m content (store sh') \<and>
    task_backed lib trusted hl (content (store sh')) t'"
proof (cases t)
  case (T_Received event now)
  with assms show ?thesis by (auto split: sum.splits)
next
  case (T_Lookup request)
  with assms show ?thesis
    by (auto simp: completed_result_def shared_backed_def split: option.splits intro: ranI)
next
  case (T_Claim request)
  have "dedupe_ok (dedupe sh)"
    using assms(1) by (simp add: shared_backed_def handler_ok_def)
  from task_step_claim [OF assms(3) [unfolded T_Claim] this]
  have "completed sh' = completed sh" "dedupe_ok (dedupe sh')" "t' = T_Done (Some request) False (Inr None) \<or> t' = T_Acquire request"
    by (auto split: if_splits)
  moreover have "store sh' = store sh"
    using assms(3) by (auto simp: T_Claim split: option.splits prod.splits bool.splits)
  ultimately show ?thesis
    using assms(1) by (auto simp: shared_backed_def handler_ok_def)
next
  case (T_Acquire request)
  with assms show ?thesis
    by (auto simp: shared_backed_def handler_ok_def error_backed split: sum.splits)
next
  case (T_Proving request)
  with assms engine_verified show ?thesis
    by (auto simp: shared_backed_def handler_ok_def error_backed Let_def check_binding_def split: sum.splits if_splits)
next
  case (T_Store request a)
  obtain r s where put: "put f (store sh) (va_proof_bytes a) = (r, s)"
    by (cases "put f (store sh) (va_proof_bytes a)")
  have s: "inv s" "content (store sh) \<subseteq>\<^sub>m content s"
    using assms(1) put_inv [OF _ put] put_extends [OF _ put] by (simp_all add: shared_backed_def)
  have sh': "sh' = sh\<lparr>store := s\<rparr>"
    using assms(3) put by (auto simp: T_Store split: sum.splits)
  moreover have "task_backed lib trusted hl (content s) t'"
    using assms put stored_backed [of "store sh" f a _ s]
    by (auto simp: T_Store error_backed shared_backed_def split: sum.splits)
  moreover have "shared_backed (sh\<lparr>store := s\<rparr>)"
    by (rule shared_backed_keeps [OF assms(1)]) (use assms(1) s in \<open>simp_all add: shared_backed_def handler_ok_def\<close>)
  ultimately show ?thesis
    using s(2) by simp
next
  case (T_Sign request r)
  with assms(2) have "sign_result (hl f) request r = Inr ev \<Longrightarrow> event_backed lib trusted hl (content (store sh)) ev" for ev
    unfolding event_backed_def by (metis task_backed.simps(2))
  with assms(1,3) T_Sign show ?thesis
    by (auto split: sum.splits)
next
  case (T_Remember request ev)
  then have "remember_result sh (jr_id request) ev = Some sh'" "t' = T_Done (Some request) True (Inr (Some ev))"
    using assms(3) by auto
  moreover have "handler_ok sh"
    using assms(1) by (simp add: shared_backed_def)
  moreover note remember_result_events [OF this calculation(1)]
  ultimately show ?thesis
    using assms(1,2) T_Remember by (auto simp: shared_backed_def)
next
  case (T_Done request claimed outcome)
  with assms show ?thesis by simp
qed

lemma handler_step_backed: "handler_step hl put p p' \<Longrightarrow> provider_backed p \<Longrightarrow>
    provider_backed p'"
proof (induction rule: handler_step.induct)
  case (notified p event now)
  then show ?case by (auto simp: provider_backed_def)
next
  case (advanced i p t f t' sh)
  have "task_backed lib trusted hl (content (store (pr_shared p))) t"
    using advanced(1,2,4) by (force simp: provider_backed_def in_set_conv_nth)
  with advanced(3,4) have step: "shared_backed sh" "content (store (pr_shared p)) \<subseteq>\<^sub>m content (store sh)"
    "task_backed lib trusted hl (content (store sh)) t'"
    using task_step_backed [of "pr_shared p" t f t' sh] by (auto simp: provider_backed_def)
  then show ?case
    using advanced(4) task_backed_mono event_backed_mono
    by (fastforce simp: provider_backed_def dest!: subsetD [OF set_update_subset_insert])
next
  case (dispatched i p request claimed outcome)
  have "task_backed lib trusted hl (content (store (pr_shared p))) (T_Done request claimed outcome)"
    using dispatched by (force simp: provider_backed_def in_set_conv_nth)
  with dispatched(3) show ?case
    by (auto simp: provider_backed_def split: sum.splits option.splits dest!: subsetD [OF set_update_subset_insert])
qed

lemma handler_steps_backed: "(handler_step hl put)\<^sup>*\<^sup>* p p' \<Longrightarrow> provider_backed p \<Longrightarrow> provider_backed p'"
  by (induction rule: rtranclp_induct) (simp_all add: handler_step_backed)

lemma started_backed:
  assumes "SignedJobHandler_new cap proc s = Inr sh" and "inv s"
  shows "provider_backed (provider_start sh)"
  using assms SignedJobHandler_new_ok [OF assms(1)]
  by (auto simp: SignedJobHandler_new_def and_then_eq_Inr provider_backed_def shared_backed_def provider_start_def
      CompletedResults_new_def)

text \<open>A backed success is downloaded and verified.\<close>

lemma backed_success_downloads:
  assumes "answer_backed lib trusted (content s) request (Success protocol rid statement d m)"
    and "inv s" and "axum respond" and "healthy g"
  shows "let sent = respond (artifact_router header_from_str (get g s)) Get (''/v1/proofs/'' @ pd_sha256 d @ ''.json'') in
    status sent = 200 \<and> of_nat (length (body sent)) = pd_byte_size d \<and>
    verify_serialized lib (body sent) (as_str (pd_program_hash d)) statement = Inr ()"
proof -
  obtain bs where bs: "content s (pd_sha256 d) = Some bs" "of_nat (length bs) = pd_byte_size d"
    "verify_serialized lib bs (as_str (pd_program_hash d)) statement = Inr ()" "is_sha256 (pd_sha256 d)"
    using assms(1) by (auto simp: answer_backed_def)
  show ?thesis
    using content_served [OF artifact_store_axioms assms(2) bs(1,4) assms(4,3), of header_from_str] bs
    by (simp add: with_cors_def immutable_response_fields Let_def)
qed

end

section \<open>Both sides composed\<close>

text \<open>The provider's answer to an honest request, as the customer reads it, and its proof in the
  store.\<close>

lemma honest_request_answered:
  assumes "complete_prover lib fe_val f_val poseidon (engine_executable engine) (as_str (expected_program_hash engine)) runs"
    and "hl_prove hl = (\<lambda>input. Returned (engine_prove_job lib describe clock engine input))" and "clock_ok clock"
    and "typed_codecs (hl_wire hl) string_deserialize" and "ul_parse (hl_urls hl) = url_parse (hl_wire hl)"
    and "parse_request_event (hl_wire hl) event t = Inr request"
    and "handler_ok sh" and "completed_result sh (jr_id request) = None" and "jr_id request \<notin> set (window (dedupe sh))"
    and "0 < proving_slots (processor sh)" and "serves_proofs (hl_urls hl) (public_base_url (processor sh))"
    and "artifact_store H store_ok put get content healthy" and "store_ok (store sh)" and "\<And>bs. length (H bs) = 32"
    and "\<And>bs. bs \<noteq> [] \<Longrightarrow> length bs \<le> 33554432 \<Longrightarrow> \<exists>stored s. put f (store sh) bs = (Inr stored, s)"
    and "\<And>r. fst (process (hl_urls hl) (hl_prove hl) (put f) (processor sh) (store sh) request) = Inr r \<Longrightarrow>
      \<exists>ev. sign_result hl request r = Inr ev"
    and "\<And>kind content tags e. hl_sign hl kind content tags = Some e \<Longrightarrow>
      event_verify (hl_wire hl) e \<and> ev_kind e = kind \<and> ev_content e = content \<and> ev_tags e = tags"
  shows "\<exists>ev sh' bs d m. handle_event hl (put f) event t sh = Some (Inr (Some ev), sh') \<and>
    (\<forall>now. unat (jr_created_at request) \<le> unat (ev_created_at ev) \<and> unat (ev_created_at ev) \<le> unat now + 300 \<longrightarrow>
       parse_result_event (hl_wire hl) ev request now =
         Inr (Success SOUL_WIRE_PROTOCOL (jr_id request) (expected_statement poseidon (jr_input request)) d m)) \<and>
    store_ok (store sh') \<and> content (store sh') (pd_sha256 d) = Some bs \<and> is_sha256 (pd_sha256 d) \<and>
    verify_serialized lib bs (as_str (pd_program_hash d)) (expected_statement poseidon (jr_input request)) = Inr ()"
proof -
  let ?s = "expected_statement poseidon (jr_input request)"
  note felts = typed_codecs.accepted_felts_ok [OF assms(4,6)]
  note codec = complete_prover.axioms(1) [OF assms(1)]
  obtain bs d m store' where
    run: "process (hl_urls hl) (hl_prove hl) (put f) (processor sh) (store sh) request =
      (Inr (Success SOUL_WIRE_PROTOCOL (jr_id request) ?s d m), processor sh, store')"
    and store': "store_ok store'" "content store' (pd_sha256 d) = Some bs" "is_sha256 (pd_sha256 d)"
    and verified: "verify_serialized lib bs (as_str (pd_program_hash d)) ?s = Inr ()"
    using complete_prover.honest_job_processed [OF assms(1) felts(2,1,3) refl refl assms(3,10,11,12,13,14,15),
        of describe] unfolding assms(2) by blast
  obtain ev where signed: "sign_result hl request (Success SOUL_WIRE_PROTOCOL (jr_id request) ?s d m) = Inr ev"
    using assms(16) run by auto
  obtain sh' where handled: "handle_event hl (put f) event t sh = Some (Inr (Some ev), sh')" and "store sh' = store'"
    using handle_event_answers [OF assms(7,6,8,9) run signed] by blast
  have answer: "job_answer hl (put f) sh request = Success SOUL_WIRE_PROTOCOL (jr_id request) ?s d m"
    by (simp add: job_answer_def run)
  have typed: "artifact_typed a" if "hl_prove hl input = Returned (Inr a)" for input a
    using that prove_job_inner_typed [OF codec] by (auto simp: assms(2) engine_prove_job_def prove_job_def)
  note read = provider_answer_accepted [OF typed_codecs.axioms(1) [OF assms(4)] assms(6,8) handled typed assms(17,5),
      unfolded answer]
  show ?thesis
    using handled read store' verified \<open>store sh' = store'\<close> by auto
qed

text \<open>What was published stays on record.\<close>

lemma live_step_keeps_sent: "set (lv_sent lv) \<subseteq> set (lv_sent (live_step hl put st lv))"
  by (cases st)
    (auto simp: on_notification_def finish_dispatch_def Let_def split: prod.splits bool.splits task.splits)

lemma listen_keeps_sent: "set (lv_sent lv) \<subseteq> set (lv_sent (listen hl put stimuli lv))"
proof (induction stimuli arbitrary: lv)
  case (Cons st stimuli)
  have "set (lv_sent lv) \<subseteq> set (lv_sent (live_step hl put st lv))"
    by (rule live_step_keeps_sent)
  also have "\<dots> \<subseteq> set (lv_sent (listen hl put stimuli (live_step hl put st lv)))"
    by (rule Cons)
  finally show ?case by (simp add: listen_def)
qed (simp add: listen_def)

section \<open>An instance\<close>

text \<open>
  The provider with the proof system that runs the program again, and codecs that know one
  request and one answer.
\<close>

definition served_engine :: VerifiableJobEngine where
  "served_engine = \<lparr>engine_executable = ''soul'', expected_program_hash = FeltHex_from_u64 9\<rparr>"

definition served_handler :: "u64 \<Rightarrow> JobResultContent \<Rightarrow> handler_lib" where
  "served_handler created answer = (exchange_handler created None)
     \<lparr>hl_wire := (hl_wire (exchange_handler created None))
        \<lparr>json_to_string := (\<lambda>j. if j = ser_JobRequestContent example_content then Some example_text
           else if j = ser_JobResultContent answer then Some ''{}'' else None),
         result_from_str := (\<lambda>s. if s = ''{}'' then Some answer else None)\<rparr>,
      hl_prove := (\<lambda>input. Returned (engine_prove_job (rerun_prover sum_list) (\<lambda>_. ''proving failed'') (3, 5, 7)
        served_engine input))\<rparr>"

definition idle_shared :: "(string \<rightharpoonup> bytes) shared" where
  "idle_shared = busy_shared\<lparr>processor := example_processor\<rparr>"

lemma idle_shared_new: "SignedJobHandler_new 2 example_processor Map.empty = Inr idle_shared"
  by (simp add: SignedJobHandler_new_def RequestDeduplicator_new_def busy_shared_def idle_shared_def)

lemma served_codecs: "typed_codecs (hl_wire (served_handler created answer)) Inr"
  by unfold_locales
    (auto simp: served_handler_def exchange_handler_def example_lib_def example_object_def EVENT_KEYS_def
      ser_result_not_request ser_inject example_urls_def exchange_content split: if_splits)

interpretation served: typed_codecs "hl_wire (served_handler created answer)" Inr for created answer
  by (rule served_codecs)

lemma served_service:
  "proof_service zero_hash (memory_ok zero_hash) (\<lambda>_ :: unit. memory_put zero_hash) (\<lambda>_. memory_get) (\<lambda>m. m) (\<lambda>_. True)
     (rerun_prover sum_list) served_engine (\<lambda>_. served_handler created answer)"
  by (intro proof_service.intro memory.artifact_store_axioms proof_service_axioms.intro)
    (auto simp: zero_hash_def served_handler_def engine_prove_job_def)

interpretation served_service: proof_service zero_hash "memory_ok zero_hash" "\<lambda>_ :: unit. memory_put zero_hash"
    "\<lambda>_. memory_get" "\<lambda>m. m" "\<lambda>_. True" "rerun_prover sum_list" served_engine "\<lambda>_. served_handler created answer" for created answer
  by (rule served_service)

lemma example_urls_serve: "serves_proofs example_urls base"
  by (simp add: serves_proofs_def example_urls_def example_url_def)

lemma memory_takes:
  "bs \<noteq> [] \<Longrightarrow> length bs \<le> 33554432 \<Longrightarrow> \<exists>stored store'. memory_put H Map.empty bs = (Inr stored, store')"
  by (simp add: memory_put_def validate_proof_size_def constants Let_def)

lemma served_request:
  assumes "content_valid example_content (unat created) (unat now)" and "unat created \<le> unat now + 300"
    and "unat now \<le> unat created + 600"
  shows "parse_request_event (hl_wire (served_handler created answer)) (exchange_event created None) now =
    Inr (exchange_request created None)"
proof -
  have "parse_request_event (hl_wire (exchange_handler created None)) (exchange_event created None) now =
      Inr (exchange_request created None)"
    using assms by (rule exchange_accepted) simp
  moreover have "parse_request_event (hl_wire (served_handler created answer)) (exchange_event created None) now =
      parse_request_event (hl_wire (exchange_handler created None)) (exchange_event created None) now"
    by (simp add: served_handler_def exchange_handler_def parse_request_event_def request_tags_def canonical_json_def
        example_lib_def ser_result_not_request cong: if_cong)
  ultimately show ?thesis by simp
qed

lemma served_request_1001:
  "parse_request_event (hl_wire (served_handler 1000 answer)) (exchange_event 1000 None) 1001 = Inr (exchange_request 1000 None)"
  by (rule served_request) (simp_all add: content_valid_def exchange_content JobInput_service_def)

lemma served_urls: "ul_parse (hl_urls (served_handler created answer)) = url_parse (hl_wire (served_handler created answer))"
  by (simp add: served_handler_def exchange_handler_def example_lib_def example_urls_def)

lemma served_signs:
  "hl_sign (served_handler created answer) kind content tags = Some e \<Longrightarrow>
     event_verify (hl_wire (served_handler created answer)) e \<and> ev_kind e = kind \<and> ev_content e = content \<and>
     ev_tags e = tags \<and> ev_created_at e = created"
  by (auto simp: served_handler_def exchange_handler_def exchange_id_hex)

lemma idle_unanswered: "completed_result idle_shared k = None" "window (dedupe idle_shared) = []"
  by (simp_all add: completed_result_def idle_shared_def busy_shared_def CompletedResults_new_def)

text \<open>It signs the one answer it knows.\<close>

lemma served_signs_answer: "\<exists>ev. sign_result (served_handler created answer) (exchange_request created None) answer = Inr ev"
  using served.result_tags_kept [of created answer "exchange_request created None" answer]
  by (auto simp: sign_result_eq_Inr)
    (auto simp: served_handler_def exchange_handler_def ser_result_not_request MAX_RESULT_BYTES_def)

text \<open>What the provider of the instance makes of its request.\<close>

lemma served_processed:
  "\<exists>d m store'. process example_urls (\<lambda>input. Returned (engine_prove_job (rerun_prover sum_list) (\<lambda>_. ''proving failed'')
       (3, 5, 7) served_engine input)) (memory_put zero_hash) example_processor Map.empty (exchange_request created None) =
     (Inr (Success SOUL_WIRE_PROTOCOL (replicate 64 CHR ''a'') (expected_statement sum_list (InFibonacci 10)) d m),
      example_processor, store')"
proof -
  have input: "jr_input (exchange_request created None) = InFibonacci 10"
    by (simp add: exchange_request_def request_of_def exchange_content)
  show ?thesis
    using rerun_proves.honest_job_processed [where request = "exchange_request created None" and engine = served_engine
        and executable = "''soul''" and clock = "(3, 5, 7)" and p = example_processor and ul = example_urls
        and files = Map.empty and f = "()" and describe = "\<lambda>_. ''proving failed''", OF _ _ _ _ _ _ _ _ memory.artifact_store_axioms,
        of zero_hash sum_list]
      memory_takes example_urls_serve
    by (force simp: input job_felts_ok_def served_engine_def clock_ok_def example_processor_def exchange_id_hex
        memory_ok_def zero_hash_def)
qed

section \<open>Properties\<close>

text \<open>C4: honest requests are served, end to end. Let the proof system be complete for the pinned
  program, the provider have a free slot, a store that takes the proof, a base URL whose
  proofs it can publish and a signer. Then every accepted request that it has not seen is
  answered: \<open>handle_event\<close> returns a signed event, which the customer reads, while the clocks
  agree, as a success that carries exactly the statement the job must have; a GET along its
  descriptor returns 200; and the browser accepts the body for the descriptor's program hash
  and that statement.\<close>

theorem honest_request_served:
  assumes "complete_prover lib fe_val f_val poseidon (engine_executable engine) (as_str (expected_program_hash engine)) runs"
    and "hl_prove hl = (\<lambda>input. Returned (engine_prove_job lib describe clock engine input))" and "clock_ok clock"
    and "typed_codecs (hl_wire hl) string_deserialize" and "ul_parse (hl_urls hl) = url_parse (hl_wire hl)"
    and "parse_request_event (hl_wire hl) event t = Inr request"
    and "handler_ok sh" and "completed_result sh (jr_id request) = None" and "jr_id request \<notin> set (window (dedupe sh))"
    and "0 < proving_slots (processor sh)" and "serves_proofs (hl_urls hl) (public_base_url (processor sh))"
    and "artifact_store H store_ok put get content healthy" and "store_ok (store sh)" and "\<And>bs. length (H bs) = 32"
    and "\<And>bs. bs \<noteq> [] \<Longrightarrow> length bs \<le> 33554432 \<Longrightarrow> \<exists>stored s. put f (store sh) bs = (Inr stored, s)"
    and "\<And>r. fst (process (hl_urls hl) (hl_prove hl) (put f) (processor sh) (store sh) request) = Inr r \<Longrightarrow>
      \<exists>ev. sign_result hl request r = Inr ev"
    and "\<And>kind content tags e. hl_sign hl kind content tags = Some e \<Longrightarrow>
      event_verify (hl_wire hl) e \<and> ev_kind e = kind \<and> ev_content e = content \<and> ev_tags e = tags"
    and "axum respond" and "healthy g" and "from_str json = Inr (expected_statement poseidon (jr_input request))"
  shows "\<exists>ev sh' d m. handle_event hl (put f) event t sh = Some (Inr (Some ev), sh') \<and>
    (\<forall>now. unat (jr_created_at request) \<le> unat (ev_created_at ev) \<and> unat (ev_created_at ev) \<le> unat now + 300 \<longrightarrow>
       parse_result_event (hl_wire hl) ev request now =
         Inr (Success SOUL_WIRE_PROTOCOL (jr_id request) (expected_statement poseidon (jr_input request)) d m)) \<and>
    (let sent = respond (artifact_router header_from_str (get g (store sh'))) Get (''/v1/proofs/'' @ pd_sha256 d @ ''.json'') in
     status sent = 200 \<and>
     verify_proof (lib\<lparr>usize_bits := 32\<rparr>) from_str (body sent) (as_str (pd_program_hash d)) json = Inr True)"
proof -
  obtain ev sh' bs d m where handled: "handle_event hl (put f) event t sh = Some (Inr (Some ev), sh')"
    and read: "\<forall>now. unat (jr_created_at request) \<le> unat (ev_created_at ev) \<and> unat (ev_created_at ev) \<le> unat now + 300 \<longrightarrow>
       parse_result_event (hl_wire hl) ev request now =
         Inr (Success SOUL_WIRE_PROTOCOL (jr_id request) (expected_statement poseidon (jr_input request)) d m)"
    and stored: "store_ok (store sh')" "content (store sh') (pd_sha256 d) = Some bs" "is_sha256 (pd_sha256 d)"
    and verified: "verify_serialized lib bs (as_str (pd_program_hash d)) (expected_statement poseidon (jr_input request)) = Inr ()"
    by (rule honest_request_answered [OF assms(1-14), THEN exE]) (use assms(15-17) that in blast)+
  have "with_cors (immutable_response header_from_str (pd_sha256 d) bs False)
      (respond (artifact_router header_from_str (get g (store sh'))) Get (''/v1/proofs/'' @ pd_sha256 d @ ''.json''))"
    by (rule content_served [OF assms(12) stored assms(19,18)])
  with browser_accepts [where from_str = from_str and json = json, OF complete_prover.axioms(1) [OF assms(1)] verified assms(20)]
    handled read show ?thesis
    by (auto simp: with_cors_def immutable_response_fields Let_def)
qed

theorem honest_request_served_witness:
  "\<exists>answer ev sh' d m. handle_event (served_handler 1000 answer) (memory_put zero_hash) (exchange_event 1000 None) 1001 idle_shared =
       Some (Inr (Some ev), sh') \<and>
     parse_result_event (hl_wire (served_handler 1000 answer)) ev (exchange_request 1000 None) 1002 =
       Inr (Success SOUL_WIRE_PROTOCOL (replicate 64 CHR ''a'') (expected_statement sum_list (InFibonacci 10)) d m) \<and>
     status (table_router (artifact_router Some (memory_get (store sh'))) Get (''/v1/proofs/'' @ pd_sha256 d @ ''.json'')) = 200"
proof -
  let ?request = "exchange_request 1000 None" and ?s = "expected_statement sum_list (InFibonacci 10)"
  obtain d m store' where run: "process example_urls (\<lambda>input. Returned (engine_prove_job (rerun_prover sum_list)
      (\<lambda>_. ''proving failed'') (3, 5, 7) served_engine input)) (memory_put zero_hash) example_processor Map.empty ?request =
     (Inr (Success SOUL_WIRE_PROTOCOL (replicate 64 CHR ''a'') ?s d m), example_processor, store')"
    using served_processed by blast
  define answer where "answer = Success SOUL_WIRE_PROTOCOL (replicate 64 CHR ''a'') ?s d m"
  let ?hl = "served_handler 1000 answer"
  have parts: "hl_urls ?hl = example_urls" "processor idle_shared = example_processor" "store idle_shared = Map.empty"
    "hl_prove ?hl = (\<lambda>input. Returned (engine_prove_job (rerun_prover sum_list) (\<lambda>_. ''proving failed'') (3, 5, 7) served_engine input))"
    by (simp_all add: served_handler_def exchange_handler_def idle_shared_def busy_shared_def)
  have input: "jr_input ?request = InFibonacci 10"
    by (simp add: exchange_request_def request_of_def exchange_content)
  have complete: "complete_prover (rerun_prover sum_list) (\<lambda>x. x mod cairo_prime) id sum_list (engine_executable served_engine)
      (as_str (expected_program_hash served_engine)) (rerun_runs sum_list)"
    unfolding served_engine_def using rerun_complete by simp
  have signable: "\<exists>ev. sign_result ?hl ?request r = Inr ev"
    if "fst (process (hl_urls ?hl) (hl_prove ?hl) (memory_put zero_hash) (processor idle_shared) (store idle_shared) ?request) = Inr r" for r
    using that run served_signs_answer [of 1000 answer] unfolding parts by (simp add: answer_def)
  have ready: "clock_ok (3, 5, 7)" "0 < proving_slots (processor idle_shared)"
    "jr_id ?request \<notin> set (window (dedupe idle_shared))" "memory_ok zero_hash (store idle_shared)" "length (zero_hash bs) = 32" for bs
    by (simp_all add: clock_ok_def parts idle_unanswered example_processor_def memory_ok_def zero_hash_def)
  have takes: "bs \<noteq> [] \<Longrightarrow> length bs \<le> 33554432 \<Longrightarrow> \<exists>stored s. memory_put zero_hash (store idle_shared) bs = (Inr stored, s)" for bs
    using memory_takes by (simp add: parts)
  have serves: "serves_proofs (hl_urls ?hl) (public_base_url (processor idle_shared))"
    using example_urls_serve by (simp add: parts)
  have from_str: "Inr ?s = Inr (expected_statement sum_list (jr_input ?request))"
    by (simp add: input)
  have "\<exists>ev sh' d' m'. handle_event ?hl (memory_put zero_hash) (exchange_event 1000 None) 1001 idle_shared = Some (Inr (Some ev), sh') \<and>
    (\<forall>now. unat (jr_created_at ?request) \<le> unat (ev_created_at ev) \<and> unat (ev_created_at ev) \<le> unat now + 300 \<longrightarrow>
       parse_result_event (hl_wire ?hl) ev ?request now =
         Inr (Success SOUL_WIRE_PROTOCOL (jr_id ?request) (expected_statement sum_list (jr_input ?request)) d' m')) \<and>
    (let sent = table_router (artifact_router Some (memory_get (store sh'))) Get (''/v1/proofs/'' @ pd_sha256 d' @ ''.json'') in
     status sent = 200 \<and>
     verify_proof ((rerun_prover sum_list)\<lparr>usize_bits := 32\<rparr>) (\<lambda>_. Inr ?s) (body sent) (as_str (pd_program_hash d')) ''{}'' = Inr True)"
    by (rule honest_request_served [where f = "()", OF complete parts(4) ready(1) served_codecs served_urls
        served_request_1001 SignedJobHandler_new_ok [OF idle_shared_new] idle_unanswered(1) ready(3,2) serves
        memory.artifact_store_axioms ready(4,5) takes signable _ table_router_axum _ from_str])
      (use served_signs in blast)+
  then obtain ev sh' d' m' where handled: "handle_event ?hl (memory_put zero_hash) (exchange_event 1000 None) 1001 idle_shared = Some (Inr (Some ev), sh')"
    and read: "unat (jr_created_at ?request) \<le> unat (ev_created_at ev) \<and> unat (ev_created_at ev) \<le> 1302 \<Longrightarrow>
       parse_result_event (hl_wire ?hl) ev ?request 1002 =
         Inr (Success SOUL_WIRE_PROTOCOL (jr_id ?request) (expected_statement sum_list (jr_input ?request)) d' m')"
    and got: "status (table_router (artifact_router Some (memory_get (store sh'))) Get (''/v1/proofs/'' @ pd_sha256 d' @ ''.json'')) = 200"
    unfolding Let_def by force
  have "ev_created_at ev = 1000"
    using handle_event_signs [OF served_request_1001 idle_unanswered(1) handled] served_signs by (auto simp: sign_result_eq_Inr)
  with read have "parse_result_event (hl_wire ?hl) ev ?request 1002 =
      Inr (Success SOUL_WIRE_PROTOCOL (replicate 64 CHR ''a'') ?s d' m')"
    by (simp add: input)
  with handled got show ?thesis by blast
qed

text \<open>C1: whatever a provider has published stays retrievable, verifiable and true. Take a new
  provider whose engine may fail or panic but returns only what \<open>prove_job\<close> returned, over a
  store that keeps its laws, with a proof system that is sound for the pinned program, and run
  it on any schedule of notifications, phases and publications. Every event it has handed to
  the relays is a signed result that names its request; and if that result is a success, its
  statement is true and is about the requested service and public inputs, and at this and
  every later state a GET along its descriptor returns 200 with a body of the descriptor's
  size that the verifier accepts for the descriptor's program hash and that statement.\<close>

theorem published_results_stay_verifiable:
  assumes "proof_service H store_ok put get content healthy lib engine hl"
    and "sound_stark lib fe_val poseidon (as_str (expected_program_hash engine))"
    and "SignedJobHandler_new cap proc s = Inr sh" and "store_ok s"
    and "lv = listen hl put stimuli (live_start (provider_start sh))" and "(ev, outcome) \<in> set (lv_sent lv)"
    and "lv' = listen hl put later lv" and "axum respond" and "healthy g"
  shows "\<exists>f request r. sign_result (hl f) request r = Inr ev \<and> JobResultContent_request_id r = jr_id request \<and>
    (\<forall>protocol rid statement d m. r = Success protocol rid statement d m \<longrightarrow>
       statement_true poseidon statement \<and> st_service statement = JobInput_service (jr_input request) \<and>
       st_public_input statement = public_words (jr_input request) \<and>
       (let sent = respond (artifact_router header_from_str (get g (store (pr_shared (lv_provider lv')))))
          Get (''/v1/proofs/'' @ pd_sha256 d @ ''.json'') in
        status sent = 200 \<and> of_nat (length (body sent)) = pd_byte_size d \<and>
        verify_serialized lib (body sent) (as_str (pd_program_hash d)) statement = Inr ()))"
proof -
  let ?p = "lv_provider lv'" and ?look = "content (store (pr_shared (lv_provider lv')))"
  have "map fst (lv_sent (live_start (provider_start sh))) = pr_sent (lv_provider (live_start (provider_start sh)))"
    by (simp add: live_start_def provider_start_def)
  then have "map fst (lv_sent lv') = pr_sent ?p"
    unfolding assms(5,7) by (intro listen_sent)
  moreover have "(ev, outcome) \<in> set (lv_sent lv')"
    using assms(6) listen_keeps_sent unfolding assms(7) by blast
  ultimately have "ev \<in> set (pr_sent ?p)"
    by (metis fst_conv image_eqI list.set_map)
  moreover have "(handler_step hl put)\<^sup>*\<^sup>* (provider_start sh) ?p"
    using listen_refines [of hl put "live_start (provider_start sh)" stimuli] listen_refines [of hl put lv later]
    unfolding assms(5,7) by (simp add: live_start_def)
  then have backed: "proof_service.provider_backed store_ok content lib engine hl ?p"
    using proof_service.handler_steps_backed [OF assms(1)] proof_service.started_backed [OF assms(1,3,4)] by blast
  ultimately obtain f request r where signed: "sign_result (hl f) request r = Inr ev"
    and answer: "answer_backed lib (expected_program_hash engine) ?look request r"
    unfolding proof_service.provider_backed_def [OF assms(1)] event_backed_def by blast
  have ok: "store_ok (store (pr_shared ?p))"
    using backed unfolding proof_service.provider_backed_def [OF assms(1)] proof_service.shared_backed_def [OF assms(1)] by blast
  show ?thesis
  proof (intro exI conjI allI impI)
    show "sign_result (hl f) request r = Inr ev" "JobResultContent_request_id r = jr_id request"
      using signed answer by (simp_all add: answer_backed_def)
    fix protocol rid statement d m
    assume r: "r = Success protocol rid statement d m"
    show "statement_true poseidon statement"
      using answer sound_stark.verified_run [OF assms(2)] by (auto simp: r answer_backed_def)
    show "st_service statement = JobInput_service (jr_input request)" "st_public_input statement = public_words (jr_input request)"
      using answer by (simp_all add: r answer_backed_def statement_matches_iff)
    show "let sent = respond (artifact_router header_from_str (get g (store (pr_shared ?p)))) Get (''/v1/proofs/'' @ pd_sha256 d @ ''.json'') in
      status sent = 200 \<and> of_nat (length (body sent)) = pd_byte_size d \<and>
      verify_serialized lib (body sent) (as_str (pd_program_hash d)) statement = Inr ()"
      using proof_service.backed_success_downloads [OF assms(1) answer [unfolded r] ok assms(8,9)] .
  qed
qed

theorem published_results_stay_verifiable_witness:
  "\<exists>answer ev d m lv. lv = listen (\<lambda>_ :: unit. served_handler 1000 answer) (\<lambda>_. memory_put zero_hash)
       (S_Notified (NotifyEvent (exchange_event 1000 None)) 1001 # replicate 8 (S_Phase 0 ()) @ [S_Finished 0 one_relay])
       (live_start (provider_start idle_shared)) \<and>
     lv_sent lv = [(ev, publish_outcome one_relay)] \<and>
     answer = Success SOUL_WIRE_PROTOCOL (replicate 64 CHR ''a'') (expected_statement sum_list (InFibonacci 10)) d m \<and>
     statement_true sum_list (expected_statement sum_list (InFibonacci 10)) \<and>
     status (table_router (artifact_router Some (memory_get (store (pr_shared (lv_provider lv))))) Get
       (''/v1/proofs/'' @ pd_sha256 d @ ''.json'')) = 200"
proof -
  let ?request = "exchange_request 1000 None" and ?s = "expected_statement sum_list (InFibonacci 10)"
  obtain d m store' where run: "process example_urls (\<lambda>input. Returned (engine_prove_job (rerun_prover sum_list)
      (\<lambda>_. ''proving failed'') (3, 5, 7) served_engine input)) (memory_put zero_hash) example_processor Map.empty ?request =
     (Inr (Success SOUL_WIRE_PROTOCOL (replicate 64 CHR ''a'') ?s d m), example_processor, store')"
    using served_processed by blast
  define answer where "answer = Success SOUL_WIRE_PROTOCOL (replicate 64 CHR ''a'') ?s d m"
  let ?hl = "served_handler 1000 answer"
  define lv where "lv = listen (\<lambda>_ :: unit. ?hl) (\<lambda>_. memory_put zero_hash)
       (S_Notified (NotifyEvent (exchange_event 1000 None)) 1001 # replicate 8 (S_Phase 0 ()) @ [S_Finished 0 one_relay])
       (live_start (provider_start idle_shared))"
  obtain ev where signed: "sign_result ?hl ?request answer = Inr ev"
    using served_signs_answer by blast
  have "process (hl_urls ?hl) (hl_prove ?hl) (memory_put zero_hash) (processor idle_shared) (store idle_shared) ?request =
      (Inr answer, example_processor, store')"
    using run by (simp add: answer_def served_handler_def exchange_handler_def idle_shared_def busy_shared_def)
  then obtain sh' where "handle_event ?hl (memory_put zero_hash) (exchange_event 1000 None) 1001 idle_shared = Some (Inr (Some ev), sh')"
    using handle_event_answers [OF SignedJobHandler_new_ok [OF idle_shared_new] served_request_1001] signed
    by (metis idle_unanswered empty_iff empty_set)
  from lone_delivery [OF this lv_def] have sent: "lv_sent lv = [(ev, publish_outcome one_relay)]"
    by simp
  have ready: "memory_ok zero_hash Map.empty" "(ev, publish_outcome one_relay) \<in> set (lv_sent lv)"
    "lv = listen (\<lambda>_. ?hl) (\<lambda>_. memory_put zero_hash) [] lv"
    by (simp_all add: sent memory_ok_def listen_def)
  obtain request r where "sign_result ?hl request r = Inr ev"
    and served: "\<And>protocol rid statement d m. r = Success protocol rid statement d m \<Longrightarrow> statement_true sum_list statement \<and>
      status (table_router (artifact_router Some (memory_get (store (pr_shared (lv_provider lv))))) Get
        (''/v1/proofs/'' @ pd_sha256 d @ ''.json'')) = 200"
    using published_results_stay_verifiable [OF served_service rerun_sound idle_shared_new ready(1) lv_def ready(2,3) table_router_axum TrueI,
        where header_from_str = Some] unfolding Let_def by blast
  then have "json_to_string (hl_wire ?hl) (ser_JobResultContent r) \<noteq> None"
    by (auto simp: sign_result_eq_Inr)
  then have "r = answer"
    by (simp add: served_handler_def ser_result_not_request ser_inject split: if_splits)
  with served sent show ?thesis
    unfolding answer_def lv_def by blast
qed

end
