(* ===== verification/UnitTests.thy ===== *)
theory UnitTests
  imports Pipeline Wasm Router Exchange
begin

text \<open>
  The unit tests of the repository, translated, and the model passes them: the model agrees
  with the authors' expectations on the inputs they chose. Every test is a predicate with the
  name of the test function and its assertions as conjuncts; what the test takes from a
  third-party library is an argument. Compact JSON text, which the golden values need, is
  written out as \<open>json_text\<close> for trees without characters that need an escape.

  The tests of the prover, of signed events end to end and of the artifact's path are in
  \<open>PipelineTests\<close>.
\<close>

section \<open>The wire types\<close>

fun commas :: "string list \<Rightarrow> string" where
  "commas [] = []"
| "commas [x] = x"
| "commas (x # xs) = x @ '','' @ commas xs"

fun json_text :: "json \<Rightarrow> string" where
  "json_text JNull = ''null''"
| "json_text (JBool b) = (if b then ''true'' else ''false'')"
| "json_text (JNum n) = dec_string n"
| "json_text (JStr s) = ''\"'' @ s @ ''\"''"
| "json_text (JArr values) = ''['' @ commas (map json_text values) @ '']''"
| "json_text (JObj members) =
     ''{'' @ commas (map (\<lambda>(key, value). ''\"'' @ key @ ''\":'' @ json_text value) members) @ ''}''"

definition field_elements_have_one_wire_form :: bool where
  "field_elements_have_one_wire_form \<longleftrightarrow>
     (let value = FeltHex_from_u64 10 in
      as_str value = ''0x000000000000000000000000000000000000000000000000000000000000000a'' \<and>
      json_text (ser_FeltHex value) = ''\"'' @ as_str value @ ''\"'' \<and>
      isl (FeltHex_parse ''0X000000000000000000000000000000000000000000000000000000000000000a'') \<and>
      isl (FeltHex_parse (''0x'' @ CAIRO_PRIME_HEX)))"

definition service_and_input_use_stable_snake_case :: bool where
  "service_and_input_use_stable_snake_case \<longleftrightarrow>
     json_text (ser_JobInput (InFibonacci 10)) = ''{\"type\":\"fibonacci\",\"n\":10}'' \<and>
     json_text (ser_ServiceType HashVerify) = ''\"hash_verify\"''"

definition canonical_request_is_a_golden_value :: bool where
  "canonical_request_is_a_golden_value \<longleftrightarrow>
     json_text (ser_JobRequestContent (JobRequestContent_new (InFibonacci 10) (Some 2000))) =
       ''{\"protocol\":\"soul-society/1\",\"service\":\"fibonacci\",\"input\":{\"type\":\"fibonacci\",\"n\":10},\"expires_at\":2000}''"

definition merkle_index_must_fit_private_path :: bool where
  "merkle_index_must_fit_private_path \<longleftrightarrow>
     JobInput_validate (InMerkleProof (FeltHex_from_u64 1) (FeltHex_from_u64 2)
       [FeltHex_from_u64 3, FeltHex_from_u64 4] 4) = Inl MerkleIndexOutOfRange"

definition public_errors_strip_controls_and_bound_length :: "(string \<Rightarrow> Url option) \<Rightarrow> bool" where
  "public_errors_strip_controls_and_bound_length parse \<longleftrightarrow>
     (let err = JobError_new Internal (''secret'' @ [CHR 0x0A] @ replicate 200 CHR ''x'');
          untrusted = Error SOUL_WIRE_PROTOCOL (replicate 64 CHR ''a'')
            \<lparr>je_code = Internal, je_message = ''line one'' @ [CHR 0x0A] @ ''line two''\<rparr> in
      CHR 0x0A \<notin> set (je_message err) \<and>
      length (utf8_chars (je_message err)) = 160 \<and>
      JobResultContent_validate parse untrusted = Inl InvalidResult)"

definition metrics_fit_the_cross_language_integer_range :: bool where
  "metrics_fit_the_cross_language_integer_range \<longleftrightarrow>
     JobMetrics_validate \<lparr>execution_ms = MAX_SAFE_INTEGER + 1, proving_ms = 0, verification_ms = 0\<rparr> =
       Inl InvalidResult"

definition statement_typed_output_must_match_raw_cairo_output :: bool where
  "statement_typed_output_must_match_raw_cairo_output \<longleftrightarrow>
     ProofStatement_validate
       \<lparr>st_service = HashVerify, st_program = CAIRO_PROGRAM, st_public_input = [FeltHex_from_u64 7],
        st_public_output = [FeltHex_from_u64 0], st_output = OutHashVerify True\<rparr> = Inl InvalidStatement"

definition request_and_result_kinds_are_paired :: bool where
  "request_and_result_kinds_are_paired \<longleftrightarrow>
     FIBONACCI_RESULT = FIBONACCI_REQUEST + 1000 \<and>
     HASH_VERIFY_RESULT = HASH_VERIFY_REQUEST + 1000 \<and>
     MERKLE_PROOF_RESULT = MERKLE_PROOF_REQUEST + 1000"

lemma wire_type_tests:
  "service_and_input_use_stable_snake_case" "canonical_request_is_a_golden_value"
  "merkle_index_must_fit_private_path" "metrics_fit_the_cross_language_integer_range"
  "statement_typed_output_must_match_raw_cairo_output" "request_and_result_kinds_are_paired"
  by (simp_all add: service_and_input_use_stable_snake_case_def canonical_request_is_a_golden_value_def
      merkle_index_must_fit_private_path_def metrics_fit_the_cross_language_integer_range_def
      statement_typed_output_must_match_raw_cairo_output_def request_and_result_kinds_are_paired_def
      ser_JobInput_def ser_ServiceType_def ser_JobRequestContent_def ser_u64_def JobRequestContent_new_def
      JobInput_service_def JobOutput_service_def ProofStatement_validate_def JobMetrics_validate_def
      JobInput_validate_eq u64_of_bool_def dec_string.simps dec_char_def char_of_eq_iff constants)

lemma isl_iff: "isl r \<longleftrightarrow> (\<forall>x. r \<noteq> Inr x)"
  by (cases r) auto

lemma field_element_test: field_elements_have_one_wire_form
proof -
  have "lower_hex 10 = ''a''"
    by (simp add: lower_hex.simps hex_char_def char_of_eq_iff)
  moreover have "replicate 63 CHR ''0'' = ''000000000000000000000000000000000000000000000000000000000000000''"
    by (simp add: numeral_eq_Suc)
  ultimately have "as_str (FeltHex_from_u64 10) = ''0x000000000000000000000000000000000000000000000000000000000000000a''"
    by (simp add: FeltHex_from_u64_def format_064x_def)
  moreover have "isl (FeltHex_parse ''0X000000000000000000000000000000000000000000000000000000000000000a'')"
    by (simp add: isl_iff FeltHex_parse_eq_Inr)
  moreover have "isl (FeltHex_parse (''0x'' @ CAIRO_PRIME_HEX))"
    by (auto simp: isl_iff FeltHex_parse_eq_Inr hex_val_CAIRO_PRIME_HEX)
  ultimately show ?thesis
    unfolding field_elements_have_one_wire_form_def Let_def ser_FeltHex_def json_text.simps by blast
qed

lemma public_error_test: "public_errors_strip_controls_and_bound_length parse"
proof -
  let ?newline = "CHR 0x0A"
  let ?kept = "''secret'' @ replicate 154 CHR ''x''"
  have ascii: "list_all (\<lambda>c. (of_char c :: nat) < 128) (''secret'' @ [?newline] @ replicate 200 CHR ''x'')"
    "list_all (\<lambda>c. (of_char c :: nat) < 128) ?kept"
    "list_all (\<lambda>c. (of_char c :: nat) < 128) (''line one'' @ [?newline] @ ''line two'')"
    by (simp_all add: list_all_replicate of_char_def)
  have "take 160 (filter (\<lambda>c. \<not> is_control c) (utf8_chars (''secret'' @ [?newline] @ replicate 200 CHR ''x''))) =
      utf8_chars ?kept"
    unfolding utf8_chars_ascii [OF ascii(1)] utf8_chars_ascii [OF ascii(2)]
    by (simp add: is_control_def filter_replicate of_char_def)
  then have "je_message (JobError_new Internal (''secret'' @ [?newline] @ replicate 200 CHR ''x'')) = ?kept"
    using valid_utf8_ascii [OF ascii(2)] by (simp add: JobError_new_def valid_utf8_def)
  moreover have "length (utf8_chars ?kept) = 160"
    unfolding utf8_chars_ascii [OF ascii(2)] by simp
  moreover have "?newline \<notin> set ?kept"
    by (simp add: char_of_eq_iff)
  moreover have "list_ex is_control (utf8_chars (''line one'' @ [?newline] @ ''line two''))"
    unfolding utf8_chars_ascii [OF ascii(3)] by (simp add: is_control_def of_char_def)
  ultimately show ?thesis
    by (simp add: public_errors_strip_controls_and_bound_length_def JobResultContent_validate_def
        validate_result_header_def is_lower_hex_def lower_hex_byte_def list_all_replicate Let_def)
qed

section \<open>The codecs, the verifiers and the prover\<close>

definition encodes_fibonacci_cairo_serde_arguments :: "('f, 'x) felt252_lib_scheme \<Rightarrow> bool" where
  "encodes_fibonacci_cairo_serde_arguments lib \<longleftrightarrow>
     (case encode_job lib (InFibonacci 10) of
        Inl _ \<Rightarrow> False
      | Inr encoded \<Rightarrow> list_all2 (=) encoded [f252_one lib, f252_one lib, f252_from_u64 lib 10, f252_zero lib])"

lemma encoder_test:
  "f252_from_u64 lib 1 = f252_one lib \<Longrightarrow> encodes_fibonacci_cairo_serde_arguments lib"
  by (simp add: encodes_fibonacci_cairo_serde_arguments_def encode_job_def JobInput_validate_eq service_ids)

definition rejects_non_boolean_public_output ::
  "('fe, 'x) field_lib_scheme \<Rightarrow> (u64 \<Rightarrow> 'fe) \<Rightarrow> 'fe \<Rightarrow> bool" where
  "rejects_non_boolean_public_output lib of_u64 one \<longleftrightarrow>
     isl (decode_statement lib [of_u64 SERVICE_ID_HASH_VERIFY, one, of_u64 7, one, of_u64 2])"

lemma decoder_test:
  assumes "field_codec lib fe_val" and "\<And>v. fe_val (of_u64 v) = unat v" and "fe_val one = 1"
  shows "rejects_non_boolean_public_output lib of_u64 one"
proof -
  have False if "[2, 1, 7, 1, 2] = statement_words s" "statement_valid s" for s
  proof -
    have "service_id (st_service s) = 2" "length (st_public_input s) = 1"
      using that(1) by (simp_all add: statement_words_def serde_felts_def)
    then have service: "st_service s = HashVerify" and "\<exists>f. st_public_input s = [f]"
      by (cases "st_service s", simp_all) (simp_all add: length_Suc_conv)
    then have "map felt_val (st_public_output s) = [2]"
      using that(1) by (auto simp: statement_words_def serde_felts_def)
    with that(2) service show False
      by (cases "st_output s") (auto simp: statement_valid_def JobOutput_service_def u64_of_bool_def split: if_splits)
  qed
  then have "map fe_val [of_u64 2, one, of_u64 7, one, of_u64 2] \<noteq> statement_words s" if "statement_valid s" for s
    using that assms(2,3) by auto
  then show ?thesis
    using field_codec.decode_statement_iff [OF assms(1)]
    unfolding rejects_non_boolean_public_output_def isl_iff service_ids by blast
qed

definition malformed_json_is_rejected ::
  "('fe, 'proof, 'memory, 'variant, 'x) stwo_lib_scheme \<Rightarrow> bool" where
  "malformed_json_is_rejected lib \<longleftrightarrow>
     (case verify_and_decode lib (map of_char ''not-json'') of Inl (MalformedProof _) \<Rightarrow> True | _ \<Rightarrow> False)"

definition oversized_input_is_rejected_before_parsing ::
  "('fe, 'proof, 'memory, 'variant, 'x) stwo_lib_scheme \<Rightarrow> bool" where
  "oversized_input_is_rejected_before_parsing lib \<longleftrightarrow>
     (case verify_and_decode lib (replicate (unat MAX_PROOF_BYTES + 1) 0) of
        Inl (ProofTooLarge _) \<Rightarrow> True
      | _ \<Rightarrow> False)"

definition weaker_or_different_verifier_profiles_are_rejected ::
  "('fe, 'proof, 'memory, 'variant, 'x) stwo_lib_scheme \<Rightarrow> 'variant \<Rightarrow> bool" where
  "weaker_or_different_verifier_profiles_are_rejected lib canonical_small \<longleftrightarrow>
     validate_proof_profile lib required_pcs_config (canonical_variant lib) = Inr () \<and>
     validate_proof_profile lib (required_pcs_config\<lparr>pow_bits := 0\<rparr>) (canonical_variant lib) =
       Inl UnsupportedProofProfile \<and>
     validate_proof_profile lib required_pcs_config canonical_small = Inl UnsupportedProofProfile"

lemma verifier_tests:
  "proof_from_slice lib (map of_char ''not-json'') = Inl m \<Longrightarrow> malformed_json_is_rejected lib"
  "oversized_input_is_rejected_before_parsing lib"
  "canonical_small \<noteq> canonical_variant lib \<Longrightarrow>
     weaker_or_different_verifier_profiles_are_rejected lib canonical_small"
  by (simp_all add: malformed_json_is_rejected_def oversized_input_is_rejected_before_parsing_def
      weaker_or_different_verifier_profiles_are_rejected_def verify_and_decode_def validate_proof_profile_def
      required_pcs_config_def MAX_PROOF_BYTES_def)

definition production_parameters_are_not_weakened ::
  "('fe, 'proof, 'memory, 'variant, 'x) stwo_lib_scheme \<Rightarrow> bool" where
  "production_parameters_are_not_weakened lib \<longleftrightarrow>
     (let config = pcs_config (production_parameters lib 0) in
      pow_bits config = 26 \<and> log_blowup_factor (fri_config config) = 1 \<and> n_queries (fri_config config) = 70 \<and>
      pow_bits config + log_blowup_factor (fri_config config) * n_queries (fri_config config) = 96)"

lemma prover_test: "production_parameters_are_not_weakened lib"
  by (simp add: production_parameters_are_not_weakened_def production_parameters_def required_pcs_config_def)

subsection \<open>The browser verifier\<close>

definition TEST_HASH :: string where
  "TEST_HASH = ''0x'' @ replicate 64 CHR ''0''"

definition TEST_STATEMENT :: string where
  "TEST_STATEMENT = json_text (ser_ProofStatement example_statement)"

definition malformed_proof_is_rejected_without_panic ::
  "('fe, 'proof, 'memory, 'variant, 'x) stwo_lib_scheme \<Rightarrow> (string \<Rightarrow> (string, ProofStatement) result) \<Rightarrow> bool" where
  "malformed_proof_is_rejected_without_panic lib statement_from_str \<longleftrightarrow>
     isl (verify_proof_impl lib statement_from_str (map of_char ''not-json'') TEST_HASH TEST_STATEMENT)"

definition oversized_proof_is_rejected_before_parsing ::
  "('fe, 'proof, 'memory, 'variant, 'x) stwo_lib_scheme \<Rightarrow> (string \<Rightarrow> (string, ProofStatement) result) \<Rightarrow> bool" where
  "oversized_proof_is_rejected_before_parsing lib statement_from_str \<longleftrightarrow>
     (case verify_proof_impl lib statement_from_str (replicate (unat MAX_PROOF_BYTES + 1) 0) TEST_HASH TEST_STATEMENT of
        Inl (B_ProofTooLarge _) \<Rightarrow> True
      | _ \<Rightarrow> False)"

definition wasm_weaker_or_different_verifier_profiles_are_rejected ::
  "('fe, 'proof, 'memory, 'variant, 'x) stwo_lib_scheme \<Rightarrow> 'variant \<Rightarrow> bool" where
  "wasm_weaker_or_different_verifier_profiles_are_rejected lib without_pedersen \<longleftrightarrow>
     (let weak = wasm_required_pcs_config
        \<lparr>fri_config := (fri_config wasm_required_pcs_config)\<lparr>n_queries := 1\<rparr>\<rparr> in
      wasm_validate_proof_profile lib wasm_required_pcs_config (canonical_variant lib) = Inr () \<and>
      wasm_validate_proof_profile lib weak (canonical_variant lib) = Inl B_UnsupportedProofProfile \<and>
      wasm_validate_proof_profile lib wasm_required_pcs_config without_pedersen = Inl B_UnsupportedProofProfile)"

lemma browser_verifier_tests:
  "proof_from_slice lib (map of_char ''not-json'') = Inl m \<Longrightarrow>
     malformed_proof_is_rejected_without_panic lib statement_from_str"
  "oversized_proof_is_rejected_before_parsing lib statement_from_str"
  "without_pedersen \<noteq> canonical_variant lib \<Longrightarrow>
     wasm_weaker_or_different_verifier_profiles_are_rejected lib without_pedersen"
  by (auto simp: malformed_proof_is_rejected_without_panic_def oversized_proof_is_rejected_before_parsing_def
      wasm_weaker_or_different_verifier_profiles_are_rejected_def verify_proof_impl_def
      wasm_validate_proof_profile_def wasm_required_pcs_config_def MAX_PROOF_BYTES_def isl_iff and_then_eq_Inr)

section \<open>The provider\<close>

definition duplicate_delivery_is_claimed_once_and_capacity_is_bounded :: bool where
  "duplicate_delivery_is_claimed_once_and_capacity_is_bounded \<longleftrightarrow>
     (case RequestDeduplicator_new 2 of
        Inl _ \<Rightarrow> False
      | Inr d \<Rightarrow> map_option fst (claims d [''a'', ''a'', ''b'', ''c'', ''a'']) = Some [True, False, True, True, True])"

lemma dedupe_test: duplicate_delivery_is_claimed_once_and_capacity_is_bounded
proof -
  let ?d = "\<lparr>capacity = 2, state = \<lparr>ids = {}, order = []\<rparr>\<rparr>"
  have new: "RequestDeduplicator_new 2 = Inr ?d"
    by (simp add: RequestDeduplicator_new_def)
  have "fst (window_claims 2 [] [''a'', ''a'', ''b'', ''c'', ''a'']) = [True, False, True, True, True]"
    by (simp add: newest_def)
  with claims_window [OF RequestDeduplicator_new_ok [OF new], of "[''a'', ''a'', ''b'', ''c'', ''a'']"] new show ?thesis
    unfolding duplicate_delivery_is_claimed_once_and_capacity_is_bounded_def by auto
qed

definition memory_and_file_stores_are_content_addressed_and_idempotent ::
  "(bytes \<Rightarrow> bytes) \<Rightarrow> nat \<Rightarrow> bool" where
  "memory_and_file_stores_are_content_addressed_and_idempotent H pid \<longleftrightarrow>
     (let proof = map of_char ''{\"proof\":\"fixture\"}'' in
      case memory_put H Map.empty proof of
        (Inr first, memory) \<Rightarrow>
          (case memory_put H memory proof of
             (Inr second, memory') \<Rightarrow> first = second \<and> memory_get memory' (sha256 first) = Inr (Some proof)
           | _ \<Rightarrow> False) \<and>
          (case file_put H pid (\<lambda>_. no_faults) empty_dir 0 proof of
             (Inr stored, dir, _) \<Rightarrow>
               stored = first \<and> file_get H dir no_faults (sha256 stored) = Inr (Some proof)
           | _ \<Rightarrow> False)
      | _ \<Rightarrow> False)"

definition http_serves_hash_bound_proofs_with_restrictive_public_cors ::
  "(Router \<Rightarrow> Method \<Rightarrow> string \<Rightarrow> Response) \<Rightarrow> (string \<Rightarrow> string option) \<Rightarrow> (bytes \<Rightarrow> bytes) \<Rightarrow> bool" where
  "http_serves_hash_bound_proofs_with_restrictive_public_cors respond header_from_str H \<longleftrightarrow>
     (let proof = map of_char ''{\"proof\":\"fixture\"}'' in
      case memory_put H Map.empty proof of
        (Inr stored, artifacts) \<Rightarrow>
          let app = artifact_router header_from_str (memory_get artifacts);
              response = respond app Get (''/v1/proofs/'' @ sha256 stored @ ''.json'');
              traversal = respond app Get ''/v1/proofs/not-a-digest.json'' in
          status response = 200 \<and>
          headers response ''content-type'' = Some PROOF_MEDIA_TYPE \<and>
          headers response ''access-control-allow-origin'' = Some ''*'' \<and>
          body response = proof \<and> status traversal = 404
      | _ \<Rightarrow> False)"

lemma fixture_bytes: "validate_proof_size (length (map of_char ''{\"proof\":\"fixture\"}'' :: bytes)) = Inr ()"
  by (simp add: validate_proof_size_def constants)

lemma store_test:
  assumes "\<And>bs. length (H bs) = 32"
  shows "memory_and_file_stores_are_content_addressed_and_idempotent H pid"
proof -
  let ?proof = "map of_char ''{\"proof\":\"fixture\"}'' :: bytes"
  let ?stored = "\<lparr>sha256 = sha256_hex H ?proof, byte_size = of_nat (length ?proof)\<rparr>"
  have sha: "is_sha256 (sha256_hex H ?proof)"
    using is_sha256_hex [where H = H] assms by blast
  have memory: "memory_put H Map.empty ?proof = (Inr ?stored, [sha256_hex H ?proof \<mapsto> ?proof])"
    "memory_put H [sha256_hex H ?proof \<mapsto> ?proof] ?proof = (Inr ?stored, [sha256_hex H ?proof \<mapsto> ?proof])"
    unfolding memory_put_def fixture_bytes by (simp_all add: Let_def)
  have memory_get: "memory_get [sha256_hex H ?proof \<mapsto> ?proof] (sha256_hex H ?proof) = Inr (Some ?proof)"
    using sha by (simp add: memory_get_def)
  obtain stored dir sequence where put: "file_put H pid (\<lambda>_. no_faults) empty_dir 0 ?proof = (Inr stored, dir, sequence)"
    using first_put [OF fixture_bytes] by blast
  then have run: "file_store_put H pid (\<lambda>_. no_faults) (empty_dir, 0) ?proof = (Inr stored, dir, sequence)"
    by (simp add: file_store_put_def)
  have ok: "dir_ok H (fst (empty_dir, 0 :: nat))"
    by (simp add: dir_ok_def empty_dir_def)
  have stored: "stored = ?stored"
    using directory.put_stored [OF ok run] by simp
  have get: "file_get H dir no_faults (sha256_hex H ?proof) = Inr (Some ?proof)"
    using directory.stored_proof_served(2) [OF ok run sha, of "\<lambda>_. no_faults" "[]"]
    unfolding stored by (simp add: no_faults_def)
  show ?thesis
    unfolding memory_and_file_stores_are_content_addressed_and_idempotent_def Let_def memory put stored
    using memory memory_get get by simp
qed

lemma not_a_digest: "\<not> is_sha256 ''not-a-digest''"
  by (simp add: is_sha256_def)

lemma http_test:
  assumes "axum respond" and "\<And>bs. length (H bs) = 32"
  shows "http_serves_hash_bound_proofs_with_restrictive_public_cors respond header_from_str H"
proof -
  let ?proof = "map of_char ''{\"proof\":\"fixture\"}'' :: bytes"
  let ?sha = "sha256_hex H ?proof"
  have sha: "is_sha256 ?sha"
    using is_sha256_hex [where H = H] assms by blast
  have put: "memory_put H Map.empty ?proof = (Inr \<lparr>sha256 = ?sha, byte_size = of_nat (length ?proof)\<rparr>, [?sha \<mapsto> ?proof])"
    unfolding memory_put_def fixture_bytes by (simp add: Let_def)
  have "get_artifact header_from_str (memory_get [?sha \<mapsto> ?proof]) (?sha @ ''.json'') =
      immutable_response header_from_str ?sha ?proof False"
    using sha by (simp add: get_artifact_def memory_get_def)
  then have served: "with_cors (immutable_response header_from_str ?sha ?proof False)
      (respond (artifact_router header_from_str (memory_get [?sha \<mapsto> ?proof])) Get (''/v1/proofs/'' @ ?sha @ ''.json''))"
    using axum.proof_routes(1) [OF assms(1) plain_sha256_segment [OF sha]] by metis
  have suffix: "strip_suffix ''.json'' (''not-a-digest'' @ ''.json'') = Some ''not-a-digest''"
    by (simp only: strip_suffix_eq_Some)
  have "get_artifact header_from_str (memory_get [?sha \<mapsto> ?proof]) (''not-a-digest'' @ ''.json'') = empty_response 404"
    unfolding get_artifact_def suffix by (simp add: memory_get_def not_a_digest)
  moreover have "plain_segment (''not-a-digest'' @ ''.json'')"
    by (simp add: plain_segment_def)
  ultimately have "with_cors (empty_response 404)
      (respond (artifact_router header_from_str (memory_get [?sha \<mapsto> ?proof])) Get (''/v1/proofs/'' @ ''not-a-digest'' @ ''.json''))"
    using axum.proof_routes(1) [OF assms(1)] by metis
  with served put show ?thesis
    unfolding http_serves_hash_bound_proofs_with_restrictive_public_cors_def Let_def
    by (simp add: with_cors_def immutable_response_fields empty_response_def)
qed

subsection \<open>The processor\<close>

definition VERIFIED_FIXTURE :: bytes where
  "VERIFIED_FIXTURE = map of_char ''{\"proof\":\"verified-fixture\"}''"

definition FixtureEngine_prove_job :: "JobInput \<Rightarrow> (string, VerifiedProofArtifact) result unwind" where
  "FixtureEngine_prove_job input =
     Returned (case input of
        InFibonacci n \<Rightarrow> Inr
          \<lparr>va_proof_bytes = VERIFIED_FIXTURE,
           va_statement =
             \<lparr>st_service = Fibonacci, st_program = CAIRO_PROGRAM, st_public_input = [FeltHex_from_u64 n],
              st_public_output = [FeltHex_from_u64 55], st_output = OutFibonacci (FeltHex_from_u64 55)\<rparr>,
           va_program_hash = FeltHex_from_u64 99,
           va_metrics = \<lparr>execution_ms = 1, proving_ms = 2, verification_ms = 3\<rparr>\<rparr>
      | _ \<Rightarrow> Inl ''fixture only supports Fibonacci'')"

definition fixture_request :: "char \<Rightarrow> JobRequest" where
  "fixture_request id_digit =
     \<lparr>jr_id = replicate 64 id_digit, jr_service = Fibonacci, jr_input = InFibonacci 10, jr_bid_msats = 0,
      jr_customer_pubkey = replicate 64 CHR ''b'', jr_created_at = 1000, jr_expires_at = None,
      jr_canonical_input =
        ''{\"protocol\":\"soul-society/1\",\"service\":\"fibonacci\",\"input\":{\"type\":\"fibonacci\",\"n\":10}}'',
      jr_serialized_event = ''{}''\<rparr>"

definition verified_bytes_are_externalized_and_bound_to_request :: "url_lib \<Rightarrow> Url \<Rightarrow> (bytes \<Rightarrow> bytes) \<Rightarrow> bool" where
  "verified_bytes_are_externalized_and_bound_to_request ul base H \<longleftrightarrow>
     (case ProofProcessor_new base 1 of
        Inl _ \<Rightarrow> False
      | Inr p \<Rightarrow>
          (case process ul FixtureEngine_prove_job (memory_put H) p Map.empty (fixture_request CHR ''a'') of
             (Inr (Success _ _ statement d _), _, artifacts) \<Rightarrow>
               st_public_input statement = [FeltHex_from_u64 10] \<and>
               strip_prefix ''https://proofs.example/base/v1/proofs/'' (pd_url d) \<noteq> None \<and>
               memory_get artifacts (pd_sha256 d) = Inr (Some VERIFIED_FIXTURE)
           | _ \<Rightarrow> False))"

text \<open>The second request arrives while the first one holds the only slot; then the first goes on.\<close>

definition proof_concurrency_is_rejected_at_the_boundary :: "url_lib \<Rightarrow> Url \<Rightarrow> (bytes \<Rightarrow> bytes) \<Rightarrow> bool" where
  "proof_concurrency_is_rejected_at_the_boundary ul base H \<longleftrightarrow>
     (case and_then (map_err (\<lambda>_. P_Busy) (ProofProcessor_new base 1)) acquire_slot of
        Inl _ \<Rightarrow> False
      | Inr held \<Rightarrow>
          (case process ul FixtureEngine_prove_job (memory_put H) held Map.empty (fixture_request CHR ''c'') of
             (second, p, artifacts) \<Rightarrow>
               second = Inl P_Busy \<and>
               \<not> isl (fst (process ul FixtureEngine_prove_job (memory_put H) (release_slot p) artifacts
                 (fixture_request CHR ''a'')))))"

lemma fixture_processed:
  assumes "\<And>bs. length (H bs) = 32"
    and "ul_join ul base (''v1/proofs/'' @ sha256_hex H VERIFIED_FIXTURE @ ''.json'') = Some url"
    and "ul_parse ul (url_serialization url) = Some url"
    and "url_scheme url = ''https''" and "url_host url \<noteq> None"
  shows "\<exists>s d m. process ul FixtureEngine_prove_job (memory_put H) \<lparr>public_base_url = base, proving_slots = 1\<rparr>
      Map.empty (fixture_request CHR ''a'') =
      (Inr (Success SOUL_WIRE_PROTOCOL (replicate 64 CHR ''a'') s d m),
       \<lparr>public_base_url = base, proving_slots = 1\<rparr>, [sha256_hex H VERIFIED_FIXTURE \<mapsto> VERIFIED_FIXTURE]) \<and>
      st_public_input s = [FeltHex_from_u64 10] \<and> pd_url d = url_serialization url \<and>
      pd_sha256 d = sha256_hex H VERIFIED_FIXTURE"
proof -
  let ?artifact = "\<lparr>va_proof_bytes = VERIFIED_FIXTURE,
      va_statement = \<lparr>st_service = Fibonacci, st_program = CAIRO_PROGRAM, st_public_input = [FeltHex_from_u64 10],
        st_public_output = [FeltHex_from_u64 55], st_output = OutFibonacci (FeltHex_from_u64 55)\<rparr>,
      va_program_hash = FeltHex_from_u64 99,
      va_metrics = \<lparr>execution_ms = 1, proving_ms = 2, verification_ms = 3\<rparr>\<rparr>"
  let ?stored = "\<lparr>sha256 = sha256_hex H VERIFIED_FIXTURE, byte_size = 28\<rparr>"
  have length: "length VERIFIED_FIXTURE = 28"
    by (simp add: VERIFIED_FIXTURE_def)
  have sha: "is_lower_hex (sha256_hex H VERIFIED_FIXTURE) 64"
    using is_sha256_hex [where H = H] assms(1) by (simp add: is_sha256_def is_lower_hex_def)
  have input: "jr_input (fixture_request c) = InFibonacci 10" for c
    by (simp add: fixture_request_def)
  have proved: "FixtureEngine_prove_job (InFibonacci 10) = Returned (Inr ?artifact)"
    by (simp add: FixtureEngine_prove_job_def)
  have bound: "check_binding (fixture_request CHR ''a'') ?artifact = Inr ()"
    by (simp add: check_binding_def statement_matches_iff fixture_request_def JobInput_service_def)
  have put: "memory_put H Map.empty VERIFIED_FIXTURE = (Inr ?stored, [sha256_hex H VERIFIED_FIXTURE \<mapsto> VERIFIED_FIXTURE])"
    by (simp add: memory_put_def validate_proof_size_def length constants Let_def)
  obtain r where r: "describe_result ul base (fixture_request CHR ''a'') ?artifact ?stored = Inr r"
    using sha assms(2-5)
    by (simp add: describe_result_eq_Inr descriptor_valid_def metrics_valid_def statement_valid_def
        JobOutput_service_def fixture_request_def is_lower_hex_def list_all_replicate lower_hex_byte_def constants)
  have run: "process ul FixtureEngine_prove_job (memory_put H) \<lparr>public_base_url = base, proving_slots = 1\<rparr>
      Map.empty (fixture_request CHR ''a'') =
      (Inr r, \<lparr>public_base_url = base, proving_slots = 1\<rparr>, [sha256_hex H VERIFIED_FIXTURE \<mapsto> VERIFIED_FIXTURE])"
    using bound put r
    by (simp add: process_def acquire_slot_def release_slot_def worker_outcome_def input proved)
  then show ?thesis
    using r assms(2) by (auto simp: describe_result_eq_Inr fixture_request_def)
qed

lemma processor_tests:
  assumes "\<And>bs. length (H bs) = 32"
    and "ul_join ul base (''v1/proofs/'' @ sha256_hex H VERIFIED_FIXTURE @ ''.json'') = Some url"
    and "ul_parse ul (url_serialization url) = Some url"
    and "url_scheme url = ''https''" and "url_host url \<noteq> None"
  shows "url_serialization url = ''https://proofs.example/base/v1/proofs/'' @ sha256_hex H VERIFIED_FIXTURE @ ''.json'' \<Longrightarrow>
      verified_bytes_are_externalized_and_bound_to_request ul base H"
    and "proof_concurrency_is_rejected_at_the_boundary ul base H"
proof -
  obtain s d m where run: "process ul FixtureEngine_prove_job (memory_put H) \<lparr>public_base_url = base, proving_slots = 1\<rparr>
      Map.empty (fixture_request CHR ''a'') =
      (Inr (Success SOUL_WIRE_PROTOCOL (replicate 64 CHR ''a'') s d m),
       \<lparr>public_base_url = base, proving_slots = 1\<rparr>, [sha256_hex H VERIFIED_FIXTURE \<mapsto> VERIFIED_FIXTURE])"
      and fields: "st_public_input s = [FeltHex_from_u64 10]" "pd_url d = url_serialization url"
      "pd_sha256 d = sha256_hex H VERIFIED_FIXTURE"
    using fixture_processed [OF assms] by blast
  have sha: "is_sha256 (sha256_hex H VERIFIED_FIXTURE)"
    using is_sha256_hex [where H = H] assms(1) by blast
  have new: "ProofProcessor_new base 1 = Inr \<lparr>public_base_url = base, proving_slots = 1\<rparr>"
    by (simp add: ProofProcessor_new_def)
  show "verified_bytes_are_externalized_and_bound_to_request ul base H"
    if url: "url_serialization url = ''https://proofs.example/base/v1/proofs/'' @ sha256_hex H VERIFIED_FIXTURE @ ''.json''"
  proof -
    have "strip_prefix ''https://proofs.example/base/v1/proofs/'' (pd_url d) \<noteq> None"
      unfolding fields(2) url by (metis strip_prefix_eq_Some option.distinct(1))
    with run fields sha show ?thesis
      unfolding verified_bytes_are_externalized_and_bound_to_request_def new
      by (simp add: memory_get_def del: strip_prefix_eq_Some)
  qed
  have "process ul FixtureEngine_prove_job (memory_put H) \<lparr>public_base_url = base, proving_slots = 0\<rparr>
      Map.empty (fixture_request CHR ''c'') = (Inl P_Busy, \<lparr>public_base_url = base, proving_slots = 0\<rparr>, Map.empty)"
    by (simp add: process_def acquire_slot_def)
  with run show "proof_concurrency_is_rejected_at_the_boundary ul base H"
    unfolding proof_concurrency_is_rejected_at_the_boundary_def new
    by (simp add: acquire_slot_def release_slot_def)
qed

section \<open>The event codec\<close>

text \<open>\<open>sign\<close> is the event builder with fresh keys: kind, content, tags and date to an event.\<close>

definition signed_request ::
  "wire_lib \<Rightarrow> (u16 \<Rightarrow> string \<Rightarrow> string list list \<Rightarrow> u64 \<Rightarrow> Event) \<Rightarrow> u64 \<Rightarrow> (WireError, Event) result" where
  "signed_request lib sign now =
     (let content = JobRequestContent_new (InFibonacci 10) (Some (now + 60)) in
      and_then (ok_or MalformedJson (canonical_json lib content)) (\<lambda>content_json.
      and_then (request_tags lib content (Some 21)) (\<lambda>tags.
      and_then (into_nostr_tags lib tags) (\<lambda>tags.
      Inr (sign (request_kind (rc_service content)) content_json tags now)))))"

definition signed_request_round_trips_and_binds_i_tag ::
  "wire_lib \<Rightarrow> (u16 \<Rightarrow> string \<Rightarrow> string list list \<Rightarrow> u64 \<Rightarrow> Event) \<Rightarrow> bool" where
  "signed_request_round_trips_and_binds_i_tag lib sign \<longleftrightarrow>
     (case and_then (signed_request lib sign 1000) (\<lambda>event. parse_request_event lib event 1001) of
        Inl _ \<Rightarrow> False
      | Inr request \<Rightarrow> jr_service request = Fibonacci \<and> jr_bid_msats request = 21) \<and>
     request_tags lib (JobRequestContent_new (InFibonacci 10) None) (Some (MAX_SAFE_INTEGER + 1)) = Inl InvalidTag \<and>
     (let content = JobRequestContent_new (InFibonacci 10) (Some 1060) in
      case canonical_json lib content of
        None \<Rightarrow> False
      | Some content_json \<Rightarrow>
          (let tags = [[''i'', ''{}'', ''text''], [''protocol'', SOUL_WIRE_PROTOCOL], [''service'', ''fibonacci''],
             [''t'', TOPIC], [''expiration'', ''1060'']] in
           parse_request_event lib (sign 5601 content_json tags 1000) 1001 = Inl InvalidTag) \<and>
          (case request_tags lib content None of
             Inl _ \<Rightarrow> False
           | Inr tags \<Rightarrow>
               (case into_nostr_tags lib (tags[0 := tags ! 1, 1 := tags ! 0]) of
                  Inl _ \<Rightarrow> False
                | Inr reordered \<Rightarrow>
                    parse_request_event lib (sign 5601 content_json reordered 1000) 1001 = Inl InvalidTag)))"

definition malformed_and_stale_requests_are_rejected ::
  "wire_lib \<Rightarrow> (u16 \<Rightarrow> string \<Rightarrow> string list list \<Rightarrow> u64 \<Rightarrow> Event) \<Rightarrow> bool" where
  "malformed_and_stale_requests_are_rejected lib sign \<longleftrightarrow>
     and_then (signed_request lib sign 1000) (\<lambda>event. parse_request_event lib event 2000) = Inl InvalidTimestamp \<and>
     parse_request_event lib (sign 5601 ''{}'' [[''i'', ''{}'', ''text'']] 1000) 1001 = Inl MalformedJson"

lemma test_request_tags:
  assumes "canonical_json lib (JobRequestContent_new (InFibonacci 10) (Some 1060)) = Some text"
  shows "request_tags lib (JobRequestContent_new (InFibonacci 10) (Some 1060)) None =
      Inr [[''i'', text, ''text''], [''protocol'', SOUL_WIRE_PROTOCOL], [''service'', ''fibonacci''],
        [''t'', TOPIC], [''expiration'', ''1060'']]"
    and "request_tags lib (JobRequestContent_new (InFibonacci 10) (Some 1060)) (Some 21) =
      Inr [[''i'', text, ''text''], [''protocol'', SOUL_WIRE_PROTOCOL], [''service'', ''fibonacci''],
        [''t'', TOPIC], [''expiration'', ''1060''], [''bid'', ''21'']]"
  using assms
  by (simp_all add: request_tags_eq JobRequestContent_new_def INPUT_TYPE_def ServiceType_as_str_def
      JobInput_service_def u64_to_string_def dec_string.simps dec_char_def char_of_eq_iff constants)

lemma unexpected_tags:
  assumes "event_verify lib event" and "ev_kind event = request_kind (rc_service c)"
    and "length (ev_content event) \<le> MAX_REQUEST_BYTES" and "request_window event now"
    and "request_from_str lib (ev_content event) = Some c"
    and "content_valid c (unat (ev_created_at event)) (unat now)"
    and "canonical_json lib c = Some (ev_content event)" and "optional_scalar_tag event ''bid'' = Inr None"
    and "request_tags lib c None = Inr tags" and "ev_tags event \<noteq> tags"
  shows "parse_request_event lib event now = Inl InvalidTag"
proof -
  have "JobRequestContent_validate c (ev_created_at event) now = Inr ()"
    "is_request_kind (ev_kind event)" "from_kind (ev_kind event) = Some (rc_service c)"
    using assms(2,6) by (auto simp: validators service_kinds)
  moreover have "(ev_created_at event > saturating_add now MAX_FUTURE_SKEW_SECS) = False"
    "(saturating_sub now (ev_created_at event) > MAX_REQUEST_AGE_SECS) = False"
    using request_window_guard [where event = event and now = now] assms(4) by auto
  ultimately show ?thesis
    using assms by (simp add: parse_request_event_def Let_def event_tag_values_def)
qed

lemma codec_tests:
  assumes sign: "\<And>kind text tags at. event_verify lib (sign kind text tags at) \<and> ev_kind (sign kind text tags at) = kind \<and>
      ev_content (sign kind text tags at) = text \<and> ev_tags (sign kind text tags at) = tags \<and>
      ev_created_at (sign kind text tags at) = at \<and> event_try_as_json lib (sign kind text tags at) \<noteq> None"
    and tag: "\<And>tag. tag \<noteq> [] \<Longrightarrow> tag_parse lib tag = Some tag"
    and print: "\<And>tree. json_to_string lib tree = Some (json_text tree)"
    and read: "\<And>c. c = JobRequestContent_new (InFibonacci 10) (Some 1060) \<Longrightarrow>
      request_from_str lib (json_text (ser_JobRequestContent c)) = Some c"
    and empty: "request_from_str lib ''{}'' = None"
  shows "signed_request_round_trips_and_binds_i_tag lib sign"
    and "malformed_and_stale_requests_are_rejected lib sign"
proof -
  let ?content = "JobRequestContent_new (InFibonacci 10) (Some 1060)"
  let ?text = "json_text (ser_JobRequestContent ?content)"
  have canonical: "canonical_json lib ?content = Some ?text"
    by (simp add: canonical_json_def print)
  have wire: "length ?text \<le> MAX_REQUEST_BYTES" "?text \<noteq> ''{}''"
    by (simp_all add: ser_JobRequestContent_def ser_JobInput_def ser_ServiceType_def ser_u64_def
        JobRequestContent_new_def JobInput_service_def dec_string.simps constants)
  note tags = test_request_tags [OF canonical]
  have signed: "signed_request lib sign 1000 = Inr (sign 5601 ?text [[''i'', ?text, ''text''],
      [''protocol'', SOUL_WIRE_PROTOCOL], [''service'', ''fibonacci''], [''t'', TOPIC],
      [''expiration'', ''1060''], [''bid'', ''21'']] 1000)"
    using canonical tags(2) tag
    by (simp add: signed_request_def Let_def into_nostr_tags_def JobRequestContent_new_def JobInput_service_def
        service_defs constants)
  have content: "rc_service ?content = Fibonacci" "content_valid ?content 1000 1001"
    by (simp_all add: JobRequestContent_new_def JobInput_service_def content_valid_def)
  have window: "request_window (sign kind t ts 1000) 1001" "\<not> request_window (sign kind t ts 1000) 2000" for kind t ts
    using sign by (simp_all add: request_window_def)
  have late: "parse_request_event lib (sign 5601 t ts 1000) 2000 = Inl InvalidTimestamp"
    if "length t \<le> MAX_REQUEST_BYTES" for t ts
    using that sign window(2) [of 5601 t ts] request_window_guard [where event = "sign 5601 t ts 1000" and now = 2000]
    by (simp add: parse_request_event_def service_defs FIBONACCI_REQUEST_def)
  have "parse_request_event lib (sign 5601 ''{}'' ts 1000) 1001 = Inl MalformedJson" for ts
    using sign window(1) [of 5601 "''{}''" ts] request_window_guard [where event = "sign 5601 ''{}'' ts 1000" and now = 1001]
    by (simp add: parse_request_event_def service_defs FIBONACCI_REQUEST_def MAX_REQUEST_BYTES_def empty)
  with late [OF wire(1)] show "malformed_and_stale_requests_are_rejected lib sign"
    by (simp add: malformed_and_stale_requests_are_rejected_def signed)
  have accepted: "\<exists>request. parse_request_event lib (sign 5601 ?text ts 1000) 1001 = Inr request \<and>
      jr_service request = Fibonacci \<and> jr_bid_msats request = 21"
    if ts: "request_tags lib ?content (Some 21) = Inr ts" for ts
  proof -
    obtain serialized where "event_try_as_json lib (sign 5601 ?text ts 1000) = Some serialized"
      using sign by blast
    then have "accepted_request lib (sign 5601 ?text ts 1000) 1001 ?content (Some 21) serialized"
      using sign window(1) wire(1) content canonical ts read
      by (simp add: accepted_request_def request_kind_def FIBONACCI_REQUEST_def)
    from parse_request_event_complete [OF this] show ?thesis
      using content(1) by (simp add: request_of_def)
  qed
  have rejected: "parse_request_event lib (sign 5601 ?text ts 1000) 1001 = Inl InvalidTag"
    if "filter (\<lambda>values. values \<noteq> [] \<and> hd values = ''bid'') ts = []"
      and "request_tags lib ?content None = Inr tags" and "ts \<noteq> tags" for ts tags
    by (rule unexpected_tags [where c = ?content and tags = tags])
      (use sign window(1) wire(1) content canonical read that in
        \<open>simp_all add: request_kind_def FIBONACCI_REQUEST_def optional_scalar_tag_def\<close>)
  have bid: "request_tags lib (JobRequestContent_new (InFibonacci 10) None) (Some (MAX_SAFE_INTEGER + 1)) = Inl InvalidTag"
    by (simp add: request_tags_def MAX_SAFE_INTEGER_def)
  obtain request where request: "parse_request_event lib (sign 5601 ?text [[''i'', ?text, ''text''],
      [''protocol'', SOUL_WIRE_PROTOCOL], [''service'', ''fibonacci''], [''t'', TOPIC],
      [''expiration'', ''1060''], [''bid'', ''21'']] 1000) 1001 = Inr request"
      "jr_service request = Fibonacci" "jr_bid_msats request = 21"
    using accepted [OF tags(2)] by blast
  have wrong: "parse_request_event lib (sign 5601 ?text [[''i'', ''{}'', ''text''], [''protocol'', SOUL_WIRE_PROTOCOL],
      [''service'', ''fibonacci''], [''t'', TOPIC], [''expiration'', ''1060'']] 1000) 1001 = Inl InvalidTag"
    by (rule rejected [OF _ tags(1)]) (use wire(2) in auto)
  have swapped: "parse_request_event lib (sign 5601 ?text [[''protocol'', SOUL_WIRE_PROTOCOL], [''i'', ?text, ''text''],
      [''service'', ''fibonacci''], [''t'', TOPIC], [''expiration'', ''1060'']] 1000) 1001 = Inl InvalidTag"
    by (rule rejected [OF _ tags(1)]) auto
  have reordered: "into_nostr_tags lib [[''protocol'', SOUL_WIRE_PROTOCOL], [''i'', ?text, ''text''],
      [''service'', ''fibonacci''], [''t'', TOPIC], [''expiration'', ''1060'']] =
    Inr [[''protocol'', SOUL_WIRE_PROTOCOL], [''i'', ?text, ''text''],
      [''service'', ''fibonacci''], [''t'', TOPIC], [''expiration'', ''1060'']]"
    using tag by (simp add: into_nostr_tags_def)
  show "signed_request_round_trips_and_binds_i_tag lib sign"
    unfolding signed_request_round_trips_and_binds_i_tag_def signed canonical tags Let_def bid
    using request wrong swapped reordered by simp
qed

end
