(* ===== verification/PipelineTests.thy ===== *)
theory PipelineTests
  imports Service UnitTests "HOL-Library.AList"
begin

text \<open>
  The repository's tests of real proofs: the signed request that is proved, published and
  replayed (\<open>apps/provider/tests/signed_real_pipeline.rs\<close>), the prover's round trip, the
  checks of the generated proof in both verifiers, the binding of a result to its signed
  request, and the count of an engine's calls. They run on keys, executables and proofs that the repository does not contain, so
  each is a predicate over those, and what is proved is under which conditions on the
  libraries it passes.
\<close>

section \<open>The signed pipeline\<close>

text \<open>The customer's request: its content, and the signed event, of which the signer takes the
  kind, the content, the tags and the time.\<close>

definition customer_request ::
  "wire_lib \<Rightarrow> (u16 \<Rightarrow> string \<Rightarrow> string list list \<Rightarrow> u64 \<Rightarrow> Event option) \<Rightarrow> u64 \<Rightarrow> u64 \<Rightarrow> Event option" where
  "customer_request wl customer_sign lifetime now =
     (let content = JobRequestContent_new (InFibonacci 10) (Some (now + lifetime)) in
      case canonical_json wl content of
        None \<Rightarrow> None
      | Some content_json \<Rightarrow>
          (case and_then (request_tags wl content None) (into_nostr_tags wl) of
             Inl _ \<Rightarrow> None
           | Inr tags \<Rightarrow> customer_sign (request_kind (rc_service content)) content_json tags now))"

definition real_request ::
  "wire_lib \<Rightarrow> (u16 \<Rightarrow> string \<Rightarrow> string list list \<Rightarrow> u64 \<Rightarrow> Event option) \<Rightarrow> u64 \<Rightarrow> Event option" where
  "real_request wl customer_sign now = customer_request wl customer_sign 600 now"

text \<open>The handler under test: the real engine over the memory store, one proving slot.\<close>

definition real_handler where
  "real_handler env h lib describe clock wl ul provider_sign =
     (case env ''SOUL_TEST_CAIRO_EXECUTABLE'' of
        None \<Rightarrow> None
      | Some executable \<Rightarrow>
     (case env ''SOUL_TEST_CAIRO_PROGRAM_HASH'' of
        None \<Rightarrow> None
      | Some hash_text \<Rightarrow>
     (case FeltHex_parse hash_text of
        Inl _ \<Rightarrow> None
      | Inr program_hash \<Rightarrow>
     (case env ''SOUL_TEST_CAIRO_EXECUTABLE_SHA256'' of
        None \<Rightarrow> None
      | Some executable_sha256 \<Rightarrow>
     (case VerifiableJobEngine_new h executable program_hash executable_sha256 of
        Inl _ \<Rightarrow> None
      | Inr engine \<Rightarrow>
     (case ul_parse ul ''https://proofs.test/'' of
        None \<Rightarrow> None
      | Some base \<Rightarrow>
     (case and_then (ProofProcessor_new base 1) (\<lambda>p. SignedJobHandler_new 16 p (Map.empty :: string \<rightharpoonup> bytes)) of
        Inl _ \<Rightarrow> None
      | Inr sh \<Rightarrow>
          Some (\<lparr>hl_wire = wl, hl_urls = ul,
                 hl_prove = (\<lambda>input. Returned (engine_prove_job lib describe clock engine input)),
                 hl_sign = provider_sign\<rparr>, sh))))))))"

definition signed_request_to_real_proof_artifact_and_signed_result_is_idempotent where
  "signed_request_to_real_proof_artifact_and_signed_result_is_idempotent env h lib describe clock wl ul
       provider_sign customer_sign H now \<longleftrightarrow>
     (case real_handler env h lib describe clock wl ul provider_sign of
        None \<Rightarrow> False
      | Some (hl, sh) \<Rightarrow>
     (case real_request wl customer_sign now of
        None \<Rightarrow> False
      | Some request_event \<Rightarrow>
     (case parse_request_event wl request_event (now + 1) of
        Inl _ \<Rightarrow> False
      | Inr request \<Rightarrow>
     (case handle_event hl (memory_put H) request_event (now + 1) sh of
        Some (Inr (Some result_event), sh1) \<Rightarrow>
          (case parse_result_event wl result_event request (now + 1) of
             Inr (Success _ _ statement descriptor _) \<Rightarrow>
               st_service statement = rc_service (JobRequestContent_new (InFibonacci 10) (Some (now + 600))) \<and>
               (case memory_get (store sh1) (pd_sha256 descriptor) of Inr (Some _) \<Rightarrow> True | _ \<Rightarrow> False) \<and>
               (case handle_event hl (memory_put H) request_event (now + 1) sh1 of
                  Some (Inr (Some replay), _) \<Rightarrow> ev_id replay = ev_id result_event
                | _ \<Rightarrow> False)
           | _ \<Rightarrow> False)
      | _ \<Rightarrow> False))))"

text \<open>What the test sets up.\<close>

lemma new_handler:
  "\<exists>sh. SignedJobHandler_new 16 p s = Inr sh \<and> handler_ok sh \<and> completed_result sh k = None \<and>
    window (dedupe sh) = [] \<and> processor sh = p \<and> store sh = s"
proof -
  obtain d where d: "RequestDeduplicator_new 16 = Inr d" "window d = []"
    by (simp add: RequestDeduplicator_new_def)
  define sh where "sh = \<lparr>dedupe = d, completed = CompletedResults_new 16, processor = p, store = s\<rparr>"
  have new: "SignedJobHandler_new 16 p s = Inr sh"
    by (simp add: SignedJobHandler_new_def d(1) sh_def)
  from SignedJobHandler_new_ok [OF new] new d(2) show ?thesis
    by (simp add: sh_def completed_result_def CompletedResults_new_def)
qed

lemma real_handler_new:
  assumes "env ''SOUL_TEST_CAIRO_EXECUTABLE'' = Some executable"
    and "env ''SOUL_TEST_CAIRO_PROGRAM_HASH'' = Some (as_str program_hash)" and "felt_ok program_hash"
    and "env ''SOUL_TEST_CAIRO_EXECUTABLE_SHA256'' = Some sha"
    and "VerifiableJobEngine_new h executable program_hash sha = Inr engine"
    and "ul_parse ul ''https://proofs.test/'' = Some base"
  shows "\<exists>sh. real_handler env h lib describe clock wl ul sign =
      Some (\<lparr>hl_wire = wl, hl_urls = ul, hl_prove = (\<lambda>input. Returned (engine_prove_job lib describe clock engine input)),
             hl_sign = sign\<rparr>, sh) \<and>
    handler_ok sh \<and> completed_result sh k = None \<and> window (dedupe sh) = [] \<and>
    processor sh = \<lparr>public_base_url = base, proving_slots = 1\<rparr> \<and> store sh = Map.empty"
proof -
  let ?p = "\<lparr>public_base_url = base, proving_slots = 1\<rparr>"
  have slots: "ProofProcessor_new base 1 = Inr ?p"
    by (simp add: ProofProcessor_new_def)
  obtain sh where "SignedJobHandler_new 16 ?p (Map.empty :: string \<rightharpoonup> bytes) = Inr sh" "handler_ok sh"
    "completed_result sh k = None" "window (dedupe sh) = []" "processor sh = ?p" "store sh = Map.empty"
    using new_handler [of ?p "Map.empty :: string \<rightharpoonup> bytes" k] by (elim exE conjE)
  with assms slots show ?thesis
    by (simp add: real_handler_def FeltHex_parse_as_str)
qed

text \<open>A signer keeps what it signs.\<close>

definition signs_faithfully :: "wire_lib \<Rightarrow> (u16 \<Rightarrow> string \<Rightarrow> string list list \<Rightarrow> u64 \<Rightarrow> Event option) \<Rightarrow> bool" where
  "signs_faithfully wl sign \<longleftrightarrow>
     (\<forall>kind content tags at e. sign kind content tags at = Some e \<longrightarrow>
        event_verify wl e \<and> ev_kind e = kind \<and> ev_content e = content \<and> ev_tags e = tags \<and> ev_created_at e = at)"

lemma customer_request_accepted:
  assumes "typed_codecs wl string_deserialize" and "signs_faithfully wl customer_sign"
    and json: "canonical_json wl (JobRequestContent_new (InFibonacci 10) (Some (now + lifetime))) = Some text" and "length text \<le> MAX_REQUEST_BYTES"
    and "request_from_str wl text = Some (JobRequestContent_new (InFibonacci 10) (Some (now + lifetime)))" and "unat now + unat lifetime < 2 ^ 64" and "1 < unat lifetime" "unat lifetime \<le> 600"
    and sent: "customer_request wl customer_sign lifetime now = Some e" and "event_try_as_json wl e = Some serialized"
  shows "\<exists>request. parse_request_event wl e (now + 1) = Inr request \<and>
    jr_service request = Fibonacci \<and> jr_created_at request = now \<and> jr_input request = InFibonacci 10"
proof -
  let ?content = "JobRequestContent_new (InFibonacci 10) (Some (now + lifetime))"
  have content: "rc_service ?content = Fibonacci" "rc_input ?content = InFibonacci 10"
    "rc_expires_at ?content = Some (now + lifetime)" "rc_protocol ?content = SOUL_WIRE_PROTOCOL"
    by (simp_all add: JobRequestContent_new_def JobInput_service_def)
  have time: "unat (now + lifetime) = unat now + unat lifetime" "unat (now + 1) = unat now + 1"
    using assms(6,7) by (simp_all add: unat_word_ariths)
  obtain tags where tags: "request_tags wl ?content None = Inr tags" "[] \<notin> set tags"
    by (simp add: request_tags_eq [OF json] content)
  then have "into_nostr_tags wl tags = Inr tags"
    using wire_codecs.tags_kept [OF typed_codecs.axioms(1) [OF assms(1)]] by blast
  then have "customer_sign (request_kind Fibonacci) text tags now = Some e"
    using sent json tags(1) by (simp add: customer_request_def content)
  then have e: "event_verify wl e" "ev_kind e = request_kind Fibonacci" "ev_content e = text" "ev_tags e = tags"
    "ev_created_at e = now"
    using assms(2) unfolding signs_faithfully_def by blast+
  have "content_valid ?content (unat now) (unat (now + 1))"
    using assms(7,8) by (simp add: content_valid_def content time JobInput_service_def)
  then have "accepted_request wl e (now + 1) ?content None serialized"
    using e json tags assms(4,5,10) by (simp add: accepted_request_def content request_window_def time)
  then have "parse_request_event wl e (now + 1) = Inr (request_of e ?content None serialized)"
    by (rule parse_request_event_complete)
  then show ?thesis
    by (simp add: request_of_def content e(5))
qed

text \<open>A request that has been answered is answered the same way again, and nothing changes.\<close>

lemma answer_repeated:
  assumes "handler_ok sh" and "parse_request_event (hl_wire hl) event now = Inr request"
    and "handle_event hl put event now sh = Some (Inr (Some ev), sh')"
  shows "completed_result sh' (jr_id request) = Some ev" and "handle_event hl put event now sh' = Some (Inr (Some ev), sh')"
proof -
  show "completed_result sh' (jr_id request) = Some ev"
    using handle_event_leaves [OF assms(1,2), of put] assms(3) by (auto simp: completed_result_def)
  with assms(2) show "handle_event hl put event now sh' = Some (Inr (Some ev), sh')"
    by (simp add: handle_event_def)
qed

text \<open>The two deliveries of the test, at a new handler.\<close>

lemma pipeline_answered:
  assumes "complete_prover lib fe_val f_val poseidon (engine_executable engine) (as_str (expected_program_hash engine)) runs"
    and prove: "hl_prove hl = (\<lambda>input. Returned (engine_prove_job lib describe clock engine input))" and "clock_ok clock"
    and "typed_codecs (hl_wire hl) string_deserialize" and "ul_parse (hl_urls hl) = url_parse (hl_wire hl)"
    and request: "parse_request_event (hl_wire hl) event t = Inr request"
    and sh: "handler_ok sh" "completed_result sh (jr_id request) = None" "window (dedupe sh) = []"
      "processor sh = \<lparr>public_base_url = base, proving_slots = 1\<rparr>" "store sh = Map.empty"
    and "serves_proofs (hl_urls hl) base" and "\<And>bs. length (H bs) = 32"
    and signable: "\<And>r. fst (process (hl_urls hl) (hl_prove hl) (memory_put H) (processor sh) (store sh) request) = Inr r \<Longrightarrow>
      \<exists>ev. sign_result hl request r = Inr ev"
    and signs: "\<And>kind content tags e. hl_sign hl kind content tags = Some e \<Longrightarrow>
      event_verify (hl_wire hl) e \<and> ev_kind e = kind \<and> ev_content e = content \<and> ev_tags e = tags \<and>
      unat (jr_created_at request) \<le> unat (ev_created_at e) \<and> unat (ev_created_at e) \<le> unat t + 300"
  shows "\<exists>ev sh' bs d m. handle_event hl (memory_put H) event t sh = Some (Inr (Some ev), sh') \<and>
    handle_event hl (memory_put H) event t sh' = Some (Inr (Some ev), sh') \<and>
    parse_result_event (hl_wire hl) ev request t =
      Inr (Success SOUL_WIRE_PROTOCOL (jr_id request) (expected_statement poseidon (jr_input request)) d m) \<and>
    store sh' (pd_sha256 d) = Some bs \<and> is_sha256 (pd_sha256 d)"
proof -
  have "\<exists>ev sh' bs d m. handle_event hl (memory_put H) event t sh = Some (Inr (Some ev), sh') \<and>
    (\<forall>now. unat (jr_created_at request) \<le> unat (ev_created_at ev) \<and> unat (ev_created_at ev) \<le> unat now + 300 \<longrightarrow>
       parse_result_event (hl_wire hl) ev request now =
         Inr (Success SOUL_WIRE_PROTOCOL (jr_id request) (expected_statement poseidon (jr_input request)) d m)) \<and>
    memory_ok H (store sh') \<and> store sh' (pd_sha256 d) = Some bs \<and> is_sha256 (pd_sha256 d) \<and>
    verify_serialized lib bs (as_str (pd_program_hash d)) (expected_statement poseidon (jr_input request)) = Inr ()"
    by (rule honest_request_answered [where engine = engine and f = "()" and H = H, OF assms(1,2,3,4,5,6,7,8) _ _ _
          memory.artifact_store_axioms])
      (use assms(12,13) sh memory_takes signable signs in \<open>simp_all add: memory_ok_def\<close>)
  then obtain ev sh' bs d m where handled: "handle_event hl (memory_put H) event t sh = Some (Inr (Some ev), sh')"
    and read: "unat (jr_created_at request) \<le> unat (ev_created_at ev) \<Longrightarrow> unat (ev_created_at ev) \<le> unat t + 300 \<Longrightarrow>
      parse_result_event (hl_wire hl) ev request t =
        Inr (Success SOUL_WIRE_PROTOCOL (jr_id request) (expected_statement poseidon (jr_input request)) d m)"
    and stored: "store sh' (pd_sha256 d) = Some bs" "is_sha256 (pd_sha256 d)"
    by blast
  have "\<exists>content tags. hl_sign hl (result_kind (jr_service request)) content tags = Some ev"
    using handle_event_signs [OF request sh(2) handled] by (auto simp: sign_result_eq_Inr)
  with signs read have "parse_result_event (hl_wire hl) ev request t =
      Inr (Success SOUL_WIRE_PROTOCOL (jr_id request) (expected_statement poseidon (jr_input request)) d m)"
    by blast
  with handled answer_repeated(2) [OF sh(1) request handled] stored show ?thesis by blast
qed

section \<open>Tests of real proofs\<close>

definition real_fibonacci_proof_round_trip where
  "real_fibonacci_proof_round_trip h lib clock manifest_dir \<longleftrightarrow>
     (case ProgramManifestGenerator_new h
         (path_join manifest_dir ''../soul-cairo/target/dev/soul_cairo.executable.json'') of
        Inl _ \<Rightarrow> False
      | Inr generator \<Rightarrow>
          (case prove_fixture lib clock generator (InFibonacci 10) of
             Inl _ \<Rightarrow> False
           | Inr artifact \<Rightarrow>
               st_public_input (va_statement artifact) = [FeltHex_from_u64 10] \<and>
               st_public_output (va_statement artifact) = [FeltHex_from_u64 55] \<and>
               verify_serialized lib (va_proof_bytes artifact) (as_str (va_program_hash artifact))
                 (va_statement artifact) = Inr ()))"

lemma prover_round_trip_test:
  assumes "complete_prover lib fe_val f_val poseidon
      (path_join manifest_dir ''../soul-cairo/target/dev/soul_cairo.executable.json'') trusted runs"
    and "is_file h (path_join manifest_dir ''../soul-cairo/target/dev/soul_cairo.executable.json'')"
  shows "real_fibonacci_proof_round_trip h lib clock manifest_dir"
proof -
  have fib: "fib 10 = 55" by code_simp
  have "input_bounds (InFibonacci 10)" "job_felts_ok (InFibonacci 10)"
    by (simp_all add: job_felts_ok_def)
  from complete_prover.inner_proved [OF assms(1) this, of None clock] obtain a where
    proved: "prove_job_inner lib clock (path_join manifest_dir ''../soul-cairo/target/dev/soul_cairo.executable.json'')
      (InFibonacci 10) None = Inr a" and a: "va_statement a = expected_statement poseidon (InFibonacci 10)"
    by force
  have "as_str (FeltHex f) = f" "FeltHex (as_str g) = g" for f g
    by (cases g; simp)+
  then have "verify_serialized lib (va_proof_bytes a) (as_str (va_program_hash a)) (va_statement a) = Inr ()"
    using prove_job_inner_eq_Inr [OF proved] prove_job_inner_typed [OF complete_prover.axioms(1) [OF assms(1)] proved]
    by (simp add: verify_serialized_eq_Inr artifact_typed_def)
  then show ?thesis
    using assms(2) proved a fib
    by (simp add: real_fibonacci_proof_round_trip_def ProgramManifestGenerator_new_def ensure_executable_def
        prove_fixture_def expected_statement_def FeltHex_from_u64_eq)
qed

text \<open>
  The tests of the generated proof take its bytes, the statement and the manifest as text. The
  reader of statements, the reader of JSON values, the change of the proof's parameters and
  the serialiser of proofs are arguments.
\<close>

definition json_index :: "json \<Rightarrow> string \<Rightarrow> json" where
  "json_index v key =
     (case v of JObj members \<Rightarrow> (case map_of members key of Some w \<Rightarrow> w | None \<Rightarrow> JNull) | _ \<Rightarrow> JNull)"

definition json_as_str :: "json \<Rightarrow> string option" where
  "json_as_str v = (case v of JStr s \<Rightarrow> Some s | _ \<Rightarrow> None)"

definition real_fixture_binds_program_statement_and_profile where
  "real_fixture_binds_program_statement_and_profile lib statement_from_str json_from_str with_pow_bits to_vec
       PROOF STATEMENT MANIFEST \<longleftrightarrow>
     (case statement_from_str STATEMENT of
        Inl _ \<Rightarrow> False
      | Inr statement \<Rightarrow>
     (case json_from_str MANIFEST of
        None \<Rightarrow> False
      | Some manifest \<Rightarrow>
     (case json_as_str (json_index (json_index (json_index manifest ''programs'') ''soul-cairo-v1'') ''program_hash'') of
        None \<Rightarrow> False
      | Some hash \<Rightarrow>
          verify_serialized lib PROOF hash statement = Inr () \<and>
          (case verify_serialized lib PROOF (as_str (FeltHex_from_u64 0)) statement of
             Inl (ProgramHashMismatch _ _) \<Rightarrow> True
           | _ \<Rightarrow> False) \<and>
          st_public_input statement \<noteq> [] \<and>
          verify_serialized lib PROOF hash
            (statement\<lparr>st_public_input := (st_public_input statement)[0 := FeltHex_from_u64 11]\<rparr>) = Inl StatementMismatch \<and>
          st_public_output statement \<noteq> [] \<and>
          verify_serialized lib PROOF hash
            (statement\<lparr>st_public_output := (st_public_output statement)[0 := FeltHex_from_u64 56],
               st_output := (case st_output statement of
                  OutFibonacci _ \<Rightarrow> OutFibonacci (FeltHex_from_u64 56)
                | other \<Rightarrow> other)\<rparr>) = Inl StatementMismatch \<and>
          (case proof_from_slice lib PROOF of
             Inl _ \<Rightarrow> False
           | Inr weak \<Rightarrow>
               (case to_vec (with_pow_bits weak 0) of
                  Inl _ \<Rightarrow> False
                | Inr weak_json \<Rightarrow> verify_and_decode lib weak_json = Inl UnsupportedProofProfile)))))"

text \<open>Changing what is expected of a proof makes the verifier refuse it.\<close>

lemma verify_serialized_other:
  assumes "verify_serialized lib json h s = Inr ()"
  shows "statement_valid s' \<Longrightarrow> s' \<noteq> s \<Longrightarrow> verify_serialized lib json h s' = Inl StatementMismatch"
    and "FeltHex_parse h' = Inr f \<Longrightarrow> h' \<noteq> h \<Longrightarrow>
      verify_serialized lib json h' s = Inl (ProgramHashMismatch f (FeltHex h))"
proof -
  have decoded: "verify_and_decode lib json = Inr \<lparr>vp_program_hash = FeltHex h, vp_statement = s\<rparr>"
    and parsed: "FeltHex_parse h = Inr (FeltHex h)" and valid: "validate_statement s = Inr ()"
    using assms by (auto simp: verify_serialized_eq_Inr felt_ok_def FeltHex_parse_eq_Inr validators)
  show "verify_serialized lib json h s' = Inl StatementMismatch" if "statement_valid s'" "s' \<noteq> s"
  proof -
    have "validate_statement s' = Inr ()" using that(1) by (simp add: validators)
    with that(2) show ?thesis by (simp add: verify_serialized_def parsed decoded)
  qed
  show "verify_serialized lib json h' s = Inl (ProgramHashMismatch f (FeltHex h))"
    if "FeltHex_parse h' = Inr f" "h' \<noteq> h"
  proof -
    have "f \<noteq> FeltHex h" using that by (auto simp: FeltHex_parse_eq_Inr)
    with that(1) show ?thesis by (simp add: verify_serialized_def valid decoded)
  qed
qed

lemma verifier_fixture_test:
  assumes "statement_from_str STATEMENT = Inr example_statement" and "json_from_str MANIFEST = Some manifest"
    and "json_index (json_index (json_index manifest ''programs'') ''soul-cairo-v1'') ''program_hash'' = JStr hash"
    and verified: "verify_serialized lib PROOF hash example_statement = Inr ()" and "hash \<noteq> as_str (FeltHex_from_u64 0)"
    and "proof_from_slice lib PROOF = Inr real" and "to_vec (with_pow_bits real 0) = Inr weak_json"
    and "length weak_json \<le> 33554432" and "proof_from_slice lib weak_json = Inr weak" and "pow_bits (stark_config lib weak) = 0"
  shows "real_fixture_binds_program_statement_and_profile lib statement_from_str json_from_str with_pow_bits to_vec
    PROOF STATEMENT MANIFEST"
proof -
  have zero: "FeltHex_parse (as_str (FeltHex_from_u64 0)) = Inr (FeltHex_from_u64 0)"
    by (simp add: FeltHex_parse_as_str)
  have "verify_and_decode lib weak_json = Inl UnsupportedProofProfile"
    using assms(8-10) by (auto simp: verify_and_decode_def constants validate_proof_profile_def required_pcs_config_def)
  moreover have "statement_valid (example_statement\<lparr>st_public_input := [FeltHex_from_u64 11]\<rparr>)"
    "statement_valid (example_statement\<lparr>st_public_output := [FeltHex_from_u64 56], st_output := OutFibonacci (FeltHex_from_u64 56)\<rparr>)"
    by (simp_all add: statement_valid_def example_statement_def JobOutput_service_def)
  moreover have "st_public_input example_statement = [FeltHex_from_u64 10]" "st_public_output example_statement = [FeltHex_from_u64 55]"
    "st_output example_statement = OutFibonacci (FeltHex_from_u64 55)"
    by (simp_all add: example_statement_def)
  moreover have "example_statement\<lparr>st_public_input := [FeltHex_from_u64 11]\<rparr> \<noteq> example_statement"
    "example_statement\<lparr>st_public_output := [FeltHex_from_u64 56], st_output := OutFibonacci (FeltHex_from_u64 56)\<rparr> \<noteq> example_statement"
    by (simp_all add: example_statement_def)
  ultimately show ?thesis
    using assms(1-7) verify_serialized_other [OF verified] zero
    by (simp add: real_fixture_binds_program_statement_and_profile_def json_as_str_def)
qed

text \<open>The browser's test reads the manifest in two layouts, and changes the expected statement as
  a JSON value: through a member, which is inserted as null when it is missing, and through
  an element, which must be there.\<close>

definition json_get :: "json \<Rightarrow> string \<Rightarrow> json option" where
  "json_get v key = (case v of JObj members \<Rightarrow> map_of members key | _ \<Rightarrow> None)"

definition fixture_program_hash :: "(string \<Rightarrow> json option) \<Rightarrow> string \<Rightarrow> string option" where
  "fixture_program_hash json_from_str MANIFEST =
     (case json_from_str MANIFEST of
        None \<Rightarrow> None
      | Some manifest \<Rightarrow>
          Option.bind
            (case json_get manifest ''program_hash'' of
               Some hash \<Rightarrow> Some hash
             | None \<Rightarrow>
                 Option.bind (json_get manifest ''programs'') (\<lambda>programs.
                 Option.bind (json_get programs CAIRO_PROGRAM) (\<lambda>program.
                 json_get program ''program_hash'')))
            json_as_str)"

definition set_member :: "string \<Rightarrow> (json \<Rightarrow> json option) \<Rightarrow> json \<Rightarrow> json option" where
  "set_member key change v =
     (case v of
        JObj members \<Rightarrow>
          map_option (\<lambda>w. JObj (AList.update key w members))
            (change (case map_of members key of Some w \<Rightarrow> w | None \<Rightarrow> JNull))
      | JNull \<Rightarrow> map_option (\<lambda>w. JObj [(key, w)]) (change JNull)
      | _ \<Rightarrow> None)"

definition set_element :: "nat \<Rightarrow> json \<Rightarrow> json \<Rightarrow> json option" where
  "set_element i w v = (case v of JArr values \<Rightarrow> if i < length values then Some (JArr (values[i := w])) else None | _ \<Rightarrow> None)"

definition change_input :: "json \<Rightarrow> json option" where
  "change_input v = set_member ''public_input'' (set_element 0 (JStr (FeltHex_to_string (FeltHex_from_u64 11)))) v"

definition change_output :: "json \<Rightarrow> json option" where
  "change_output v =
     Option.bind (set_member ''public_output'' (set_element 0 (JStr (FeltHex_to_string (FeltHex_from_u64 56)))) v)
       (set_member ''output'' (set_member ''result'' (\<lambda>_. Some (JStr (FeltHex_to_string (FeltHex_from_u64 56))))))"

definition verifies_real_stwo_fixture_and_rejects_mutation where
  "verifies_real_stwo_fixture_and_rejects_mutation lib statement_from_str json_from_str value_to_string with_pow_bits to_vec
       PROOF EXPECTED_STATEMENT MANIFEST \<longleftrightarrow>
     (case fixture_program_hash json_from_str MANIFEST of
        None \<Rightarrow> False
      | Some hash \<Rightarrow>
          verify_proof_impl lib statement_from_str PROOF hash EXPECTED_STATEMENT = Inr () \<and>
          isl (verify_proof_impl lib statement_from_str PROOF (as_str (FeltHex_from_u64 0)) EXPECTED_STATEMENT) \<and>
          (case Option.bind (json_from_str EXPECTED_STATEMENT) change_input of
             None \<Rightarrow> False
           | Some changed_input \<Rightarrow> isl (verify_proof_impl lib statement_from_str PROOF hash (value_to_string changed_input))) \<and>
          (case Option.bind (json_from_str EXPECTED_STATEMENT) change_output of
             None \<Rightarrow> False
           | Some changed_output \<Rightarrow> isl (verify_proof_impl lib statement_from_str PROOF hash (value_to_string changed_output))) \<and>
          (case proof_from_slice lib PROOF of
             Inl _ \<Rightarrow> False
           | Inr weak \<Rightarrow>
               (case to_vec (with_pow_bits weak 0) of
                  Inl _ \<Rightarrow> False
                | Inr weak_json \<Rightarrow>
                    verify_proof_impl lib statement_from_str weak_json hash EXPECTED_STATEMENT = Inl B_UnsupportedProofProfile)) \<and>
          (let midpoint = length PROOF div 2 in
           midpoint < length PROOF \<and>
           isl (verify_proof_impl lib statement_from_str (PROOF[midpoint := xor (PROOF ! midpoint) 1]) hash EXPECTED_STATEMENT)))"

text \<open>It passes when the changed texts do not read as the statement that is proved and the
  verifier of STWO does not accept the tampered bytes.\<close>

lemma browser_fixture_test:
  assumes "statement_from_str EXPECTED = Inr example_statement" and "fixture_program_hash json_from_str MANIFEST = Some hash"
    and verified: "verify_serialized lib PROOF hash example_statement = Inr ()" and "hash \<noteq> as_str (FeltHex_from_u64 0)"
    and "json_from_str EXPECTED = Some (ser_ProofStatement example_statement)"
    and "\<And>v. v \<noteq> ser_ProofStatement example_statement \<Longrightarrow> statement_from_str (value_to_string v) \<noteq> Inr example_statement"
    and "proof_from_slice lib PROOF = Inr real" and "to_vec (with_pow_bits real 0) = Inr weak_json"
    and "length weak_json \<le> 33554432" and "proof_from_slice lib weak_json = Inr weak" and "pow_bits (stark_config lib weak) = 0"
    and "PROOF \<noteq> []" and "\<And>out. \<not> stark_accepts lib (PROOF[length PROOF div 2 := xor (PROOF ! (length PROOF div 2)) 1]) out"
  shows "verifies_real_stwo_fixture_and_rejects_mutation lib statement_from_str json_from_str value_to_string with_pow_bits to_vec
    PROOF EXPECTED MANIFEST"
proof -
  have only: "statement_from_str json = Inr example_statement \<and> h = hash"
    if "verify_proof_impl lib statement_from_str PROOF h json = Inr ()" for h json
    using that verified by (auto simp: verify_proof_impl_eq_Inr verify_serialized_eq_Inr)
  have differ: "as_str (FeltHex_from_u64 11) \<noteq> as_str (FeltHex_from_u64 10)" "as_str (FeltHex_from_u64 56) \<noteq> as_str (FeltHex_from_u64 55)"
    using FeltHex_from_u64_inject [of 11 10] FeltHex_from_u64_inject [of 56 55] by (auto dest: FeltHex.expand)
  note tree = ser_ProofStatement_def ser_ServiceType_def ser_JobOutput_def ser_FeltHex_def example_statement_def FeltHex_to_string_def
  obtain v where v: "change_input (ser_ProofStatement example_statement) = Some v" "v \<noteq> ser_ProofStatement example_statement"
    using differ by (auto simp: change_input_def set_member_def set_element_def tree)
  obtain w where w: "change_output (ser_ProofStatement example_statement) = Some w" "w \<noteq> ser_ProofStatement example_statement"
    using differ by (auto simp: change_output_def set_member_def set_element_def tree)
  have "felt_ok (FeltHex hash)" using verified by (simp add: verify_serialized_eq_Inr)
  then have "FeltHex_parse hash = Inr (FeltHex hash)" by (auto simp: felt_ok_def FeltHex_parse_eq_Inr)
  moreover have "wasm_validate_statement example_statement = Inr ()"
    by (simp add: wasm_validate_statement_native validators example_statement_ok)
  ultimately have "verify_proof_impl lib statement_from_str weak_json hash EXPECTED = Inl B_UnsupportedProofProfile"
    using assms(1,9-11)
    by (auto simp: verify_proof_impl_def constants wasm_validate_proof_profile_def wasm_required_pcs_config_def)
  moreover have "isl (verify_proof_impl lib statement_from_str (PROOF[length PROOF div 2 := xor (PROOF ! (length PROOF div 2)) 1]) hash EXPECTED)"
    unfolding isl_iff using assms(13) by (auto simp: verify_proof_impl_eq_Inr verify_serialized_eq_Inr verify_and_decode_eq_Inr)
  moreover have "verify_proof_impl lib statement_from_str PROOF hash EXPECTED = Inr ()"
    using assms(1) verified by (auto simp: verify_proof_impl_eq_Inr)
  moreover have "isl (verify_proof_impl lib statement_from_str PROOF h json)"
    if "h \<noteq> hash \<or> statement_from_str json \<noteq> Inr example_statement" for h json
    unfolding isl_iff using only [of h json] that by auto
  ultimately show ?thesis
    using assms(2,4-8,12) v w
    by (simp add: verifies_real_stwo_fixture_and_rejects_mutation_def Let_def)
qed

section \<open>The binding of a result\<close>

definition bound_result :: "JobRequest \<Rightarrow> JobResultContent" where
  "bound_result request =
     JobResultContent_success (jr_id request)
       \<lparr>st_service = Fibonacci, st_program = CAIRO_PROGRAM, st_public_input = [FeltHex_from_u64 10],
        st_public_output = [FeltHex_from_u64 55], st_output = OutFibonacci (FeltHex_from_u64 55)\<rparr>
       \<lparr>pd_format = PROOF_FORMAT, pd_media_type = PROOF_MEDIA_TYPE,
        pd_url = ''https://proofs.example/v1/proofs/'' @ replicate 64 CHR ''a'' @ ''.json'',
        pd_sha256 = replicate 64 CHR ''a'', pd_byte_size = 123, pd_program_hash = FeltHex_from_u64 9,
        pd_channel = PROOF_CHANNEL\<rparr>
       \<lparr>execution_ms = 1, proving_ms = 2, verification_ms = 3\<rparr>"

text \<open>The text of the embedded request with its members in another order.\<close>

definition reordered_request :: "(json \<Rightarrow> string) \<Rightarrow> json \<Rightarrow> string" where
  "reordered_request value_to_string original =
     ''{\"sig\":'' @ value_to_string (json_index original ''sig'') @
     '',\"content\":'' @ value_to_string (json_index original ''content'') @
     '',\"tags\":'' @ value_to_string (json_index original ''tags'') @
     '',\"kind\":'' @ value_to_string (json_index original ''kind'') @
     '',\"created_at\":'' @ value_to_string (json_index original ''created_at'') @
     '',\"pubkey\":'' @ value_to_string (json_index original ''pubkey'') @
     '',\"id\":'' @ value_to_string (json_index original ''id'') @ ''}''"

definition result_event_is_bound_to_signed_request where
  "result_event_is_bound_to_signed_request lib sign provider_sign value_to_string \<longleftrightarrow>
     (case and_then (signed_request lib sign 1000) (\<lambda>event. parse_request_event lib event 1001) of
        Inl _ \<Rightarrow> False
      | Inr request \<Rightarrow>
          let result = bound_result request; kind = result_kind (jr_service request) in
          (case (json_to_string lib (ser_JobResultContent result), into_nostr_tags lib (result_tags request result)) of
             (Some content, Inr tags) \<Rightarrow>
               parse_result_event lib (provider_sign kind content tags 1002) request 1002 = Inr result \<and>
               (case value_from_str lib (jr_serialized_event request) of
                  None \<Rightarrow> False
                | Some original \<Rightarrow>
                    let reordered = reordered_request value_to_string original;
                        reordered_tags = (result_tags request result)[0 := (result_tags request result ! 0)[1 := reordered]] in
                    reordered \<noteq> jr_serialized_event request \<and>
                    (case into_nostr_tags lib reordered_tags of
                       Inl _ \<Rightarrow> False
                     | Inr tags \<Rightarrow>
                         parse_result_event lib (provider_sign kind content tags 1002) request 1002 = Inr result) \<and>
                    (case original of
                       JObj members \<Rightarrow>
                         parse_embedded_request_event lib
                           (value_to_string (JObj (AList.update ''extra'' (JBool True) members))) = Inl MalformedJson
                     | _ \<Rightarrow> False))
           | _ \<Rightarrow> False))"

text \<open>
  It passes when the codecs keep their laws, a printed value and an object assembled from
  printed members are read back, and an event is read from the members of its object in any
  order.
\<close>

text \<open>The members of an object, picked by all of its keys in some order.\<close>

lemma picked_members:
  assumes "set keys = set (map fst members)"
  shows "map_of (map (\<lambda>key. (key, json_index (JObj members) key)) keys) = map_of members"
proof
  fix key
  show "map_of (map (\<lambda>key. (key, json_index (JObj members) key)) keys) key = map_of members key"
    using assms map_of_eq_None_iff [of members key]
    by (auto simp: map_of_map_restrict restrict_map_def json_index_def split: option.split)
qed

lemma updated_keys: "key \<notin> set (map fst ms) \<Longrightarrow> AList.update key v ms = ms @ [(key, v)]"
  by (induction ms) auto

abbreviation bound_url :: string where
  "bound_url \<equiv> ''https://proofs.example/v1/proofs/'' @ replicate 64 CHR ''a'' @ ''.json''"

lemma bound_result_valid:
  assumes "is_lower_hex (jr_id request) 64"
    and "url_parse lib bound_url = Some url" "url_scheme url = ''https''" "url_host url \<noteq> None"
  shows "result_valid (url_parse lib) (bound_result request)"
    and "JobResultContent_request_id (bound_result request) = jr_id request"
    and "list_all felt_ok (result_felts (bound_result request))"
    and "jr_service request = Fibonacci \<Longrightarrow> case bound_result request of
      Success _ _ statement _ _ \<Rightarrow> st_service statement = jr_service request | Error _ _ _ \<Rightarrow> True"
  using assms
  by (simp_all add: bound_result_def JobResultContent_success_def statement_valid_def JobOutput_service_def
      descriptor_valid_def metrics_valid_def is_lower_hex_def list_all_replicate lower_hex_byte_def constants
      JobResultContent_request_id_def result_felts_def word_le_nat_alt)

lemma binding_test:
  assumes codecs: "wire_codecs lib"
    and signed: "signed_request lib sign 1000 = Inr event" and request: "parse_request_event lib event 1001 = Inr request"
    and about: "jr_service request = Fibonacci" "jr_created_at request = 1000"
    and content: "json_to_string lib (ser_JobResultContent (bound_result request)) = Some content"
      "length content \<le> MAX_RESULT_BYTES"
    and url: "url_parse lib bound_url = Some url" "url_scheme url = ''https''" "url_host url \<noteq> None"
    and signs: "\<And>kind content tags at. event_verify lib (provider_sign kind content tags at) \<and>
      ev_kind (provider_sign kind content tags at) = kind \<and> ev_content (provider_sign kind content tags at) = content \<and>
      ev_tags (provider_sign kind content tags at) = tags \<and> ev_created_at (provider_sign kind content tags at) = at"
    and value_text: "\<And>v. value_from_str lib (value_to_string v) = Some v"
    and picked: "\<And>v. value_from_str lib (reordered_request value_to_string v) = Some (JObj (map (\<lambda>key. (key, json_index v key))
      [''sig'', ''content'', ''tags'', ''kind'', ''created_at'', ''pubkey'', ''id'']))"
    and any_order: "\<And>ms ms'. map_of ms = map_of ms' \<Longrightarrow> event_from_object lib ms = event_from_object lib ms'"
    and other: "\<And>v. reordered_request value_to_string v \<noteq> jr_serialized_event request"
  shows "result_event_is_bound_to_signed_request lib sign provider_sign value_to_string"
proof -
  let ?r = "bound_result request"
  let ?ev = "\<lambda>tags. provider_sign (result_kind Fibonacci) content tags 1002"
  note req = accepted_request_id [OF request]
  obtain members where original: "event_from_json lib (jr_serialized_event request) = Some event"
    "value_from_str lib (jr_serialized_event request) = Some (JObj members)" "length members = 7"
    "set (map fst members) = set EVENT_KEYS" "event_from_object lib members = Some event"
    using wire_codecs.event_text [OF codecs req(3,2)] by blast
  have "is_lower_hex (jr_id request) 64"
    using wire_codecs.verified_id [OF codecs] req(1,2) by simp
  note r = bound_result_valid [OF this url]
  note printed = wire_codecs.result_text [OF codecs content(1) r(1,3)]
  let ?reordered = "reordered_request value_to_string (JObj members)"
  let ?tags = "(result_tags request ?r)[0 := (result_tags request ?r ! 0)[1 := ?reordered]]"
  have "map_of (map (\<lambda>key. (key, json_index (JObj members) key))
      [''sig'', ''content'', ''tags'', ''kind'', ''created_at'', ''pubkey'', ''id'']) = map_of members"
    by (rule picked_members) (use original(4) in \<open>auto simp: EVENT_KEYS_def\<close>)
  from any_order [OF this] have embedded: "parse_embedded_request_event lib ?reordered = Inr event"
    using picked [of "JObj members"] original(5) req(2)
    by (simp add: parse_embedded_request_event_Inr EVENT_KEYS_def)
  have first: "parse_result_event lib (?ev (result_tags request ?r)) request 1002 = Inr ?r"
    using wire_codecs.signed_result_accepted [OF codecs request, of ?r "?ev (result_tags request ?r)" 1002]
      content r about signs by simp
  have "accepted_result lib (?ev ?tags) request 1002 ?r ?reordered event event"
    using signs content printed r about embedded original(1) req(2) wire_codecs.event_eq_refl [OF codecs]
    by (simp add: accepted_result_def result_window_def result_tags_shape)
  note second = parse_result_event_complete [OF this]
  have tags: "into_nostr_tags lib (result_tags request ?r) = Inr (result_tags request ?r)"
    "into_nostr_tags lib ?tags = Inr ?tags"
    using wire_codecs.tag_values [OF codecs] by (simp_all add: into_nostr_tags_def result_tags_def)
  have "''extra'' \<notin> set (map fst members)"
    using original(4) by (simp add: EVENT_KEYS_def)
  then have "parse_embedded_request_event lib (value_to_string (JObj (AList.update ''extra'' (JBool True) members))) =
      Inl MalformedJson"
    using original(3) by (simp add: parse_embedded_request_event_def value_text updated_keys length_EVENT_KEYS)
  then show ?thesis
    using first second tags other
    by (simp add: result_event_is_bound_to_signed_request_def signed request Let_def about content original(2))
qed

section \<open>Calls of the engine\<close>

text \<open>
  \<open>engine_calls\<close> counts the phases of a delivery that call the engine: what the test's counter
  reads. A delivery calls it once when it is the first of its request and finds a slot, and
  not at all when its request has an answer.
\<close>

fun engine_calls ::
  "handler_lib \<Rightarrow> ('s \<Rightarrow> bytes \<Rightarrow> (ArtifactError, StoredArtifact) result \<times> 's) \<Rightarrow> nat \<Rightarrow> task \<Rightarrow> 's shared \<Rightarrow> nat" where
  "engine_calls hl put 0 t sh = 0"
| "engine_calls hl put (Suc n) t sh =
     (case t of T_Proving _ \<Rightarrow> 1 | _ \<Rightarrow> 0) +
     (case task_step hl put t sh of None \<Rightarrow> 0 | Some (t', sh') \<Rightarrow> engine_calls hl put n t' sh')"

lemma no_calls_done: "engine_calls hl put n (T_Done r c out) sh = 0"
  by (cases n) simp_all

lemma no_calls_remember: "engine_calls hl put n (T_Remember request ev) sh = 0"
  by (cases n) (auto simp: no_calls_done split: option.split)

lemma no_calls_sign: "engine_calls hl put n (T_Sign request r) sh = 0"
  by (cases n) (auto simp: no_calls_done no_calls_remember split: sum.split)

lemma no_calls_store: "engine_calls hl put n (T_Store request a) sh = 0"
  by (cases n) (auto simp: no_calls_sign split: prod.split sum.split)

lemmas no_calls = no_calls_done no_calls_remember no_calls_sign no_calls_store

lemma answered_without_call:
  assumes "parse_request_event (hl_wire hl) event now = Inr request" and "completed_result sh (jr_id request) = Some ev"
  shows "engine_calls hl put n (T_Received event now) sh = 0"
proof (cases n)
  case (Suc m)
  then show ?thesis using assms by (cases m) (simp_all add: no_calls)
qed simp

lemma first_delivery_calls_once:
  assumes "handler_ok sh" and "parse_request_event (hl_wire hl) event now = Inr request"
    and "completed_result sh (jr_id request) = None" and "jr_id request \<notin> set (window (dedupe sh))"
    and "0 < proving_slots (processor sh)"
  shows "engine_calls hl put (Suc (Suc (Suc (Suc (Suc n))))) (T_Received event now) sh = 1"
proof -
  obtain d where "claim (dedupe sh) (jr_id request) = Some (True, d)"
    using claim_window [of "dedupe sh" "jr_id request"] assms(1,4) by (auto simp: handler_ok_def)
  moreover obtain held where "acquire_slot (processor sh) = Inr held"
    using assms(5) by (simp add: acquire_slot_def)
  ultimately show ?thesis
    using assms(2,3) by (auto simp: Let_def no_calls split: sum.split)
qed

definition CountingEngine_prove_job :: "JobInput \<Rightarrow> (string, VerifiedProofArtifact) result unwind" where
  "CountingEngine_prove_job input =
     Returned (case input of
        InFibonacci n \<Rightarrow> Inr
          \<lparr>va_proof_bytes = map of_char ''{\"proof\":\"fixture\"}'',
           va_statement =
             \<lparr>st_service = Fibonacci, st_program = CAIRO_PROGRAM, st_public_input = [FeltHex_from_u64 n],
              st_public_output = [FeltHex_from_u64 55], st_output = OutFibonacci (FeltHex_from_u64 55)\<rparr>,
           va_program_hash = FeltHex_from_u64 99,
           va_metrics = \<lparr>execution_ms = 0, proving_ms = 0, verification_ms = 0\<rparr>\<rparr>
      | _ \<Rightarrow> Inl ''fixture only supports Fibonacci'')"

definition completed_duplicate_replays_the_same_signed_event_without_reproving where
  "completed_duplicate_replays_the_same_signed_event_without_reproving wl ul provider_sign customer_sign H \<longleftrightarrow>
     (let now = 1900000000 in
      case customer_request wl customer_sign 60 now of
        None \<Rightarrow> False
      | Some request_event \<Rightarrow>
     (case ul_parse ul ''https://proofs.test/'' of
        None \<Rightarrow> False
      | Some base \<Rightarrow>
     (case and_then (ProofProcessor_new base 1) (\<lambda>p. SignedJobHandler_new 16 p (Map.empty :: string \<rightharpoonup> bytes)) of
        Inl _ \<Rightarrow> False
      | Inr sh \<Rightarrow>
          let hl = \<lparr>hl_wire = wl, hl_urls = ul, hl_prove = CountingEngine_prove_job, hl_sign = provider_sign\<rparr>;
              calls = engine_calls hl (memory_put H) 8 (T_Received request_event (now + 1)) in
          (case handle_event hl (memory_put H) request_event (now + 1) sh of
             Some (Inr (Some first), sh1) \<Rightarrow>
               (case handle_event hl (memory_put H) request_event (now + 1) sh1 of
                  Some (Inr (Some duplicate), sh2) \<Rightarrow> ev_id first = ev_id duplicate \<and> calls sh + calls sh1 = 1
                | _ \<Rightarrow> False)
           | _ \<Rightarrow> False))))"

lemma counting_test:
  assumes codecs: "typed_codecs wl string_deserialize" and "signs_faithfully wl customer_sign"
    and "customer_request wl customer_sign 60 1900000000 = Some event" and "event_try_as_json wl event = Some serialized"
    and "canonical_json wl (JobRequestContent_new (InFibonacci 10) (Some 1900000060)) = Some text"
    and "length text \<le> MAX_REQUEST_BYTES"
    and "request_from_str wl text = Some (JobRequestContent_new (InFibonacci 10) (Some 1900000060))"
    and base: "ul_parse ul ''https://proofs.test/'' = Some base"
    and signs: "\<And>request hl outcome rest. parse_request_event wl event 1900000001 = Inr request \<Longrightarrow>
      process ul CountingEngine_prove_job (memory_put H) \<lparr>public_base_url = base, proving_slots = 1\<rparr> Map.empty request =
        (outcome, rest) \<Longrightarrow> hl_wire hl = wl \<Longrightarrow> hl_sign hl = provider_sign \<Longrightarrow>
      \<exists>ev. sign_result hl request (case outcome of Inr r \<Rightarrow> r | Inl e \<Rightarrow> error_content request e) = Inr ev"
  shows "completed_duplicate_replays_the_same_signed_event_without_reproving wl ul provider_sign customer_sign H"
proof -
  obtain request where request: "parse_request_event wl event (1900000000 + 1) = Inr request"
    using customer_request_accepted [OF codecs assms(2) _ assms(6) _ _ _ _ assms(3,4)] assms(5,7) by auto
  let ?p = "\<lparr>public_base_url = base, proving_slots = 1\<rparr>"
  obtain sh where sh: "SignedJobHandler_new 16 ?p (Map.empty :: string \<rightharpoonup> bytes) = Inr sh" "handler_ok sh"
    "completed_result sh (jr_id request) = None" "window (dedupe sh) = []" "processor sh = ?p" "store sh = Map.empty"
    using new_handler [of ?p "Map.empty :: string \<rightharpoonup> bytes" "jr_id request"] by (elim exE conjE)
  define hl where "hl = \<lparr>hl_wire = wl, hl_urls = ul, hl_prove = CountingEngine_prove_job, hl_sign = provider_sign\<rparr>"
  have parsed: "parse_request_event (hl_wire hl) event (1900000000 + 1) = Inr request"
    using request by (simp add: hl_def)
  obtain out sh1 where first: "handle_event hl (memory_put H) event (1900000000 + 1) sh = Some (out, sh1)"
    using handle_event_leaves [OF sh(2) parsed, of "memory_put H"] by blast
  obtain d where claimed: "claim (dedupe sh) (jr_id request) = Some (True, d)"
    using claim_window [of "dedupe sh" "jr_id request"] sh(2,4) by (auto simp: handler_ok_def)
  obtain outcome p s where run:
    "process (hl_urls hl) (hl_prove hl) (memory_put H) (processor sh) (store sh) request = (outcome, p, s)"
    using prod_cases3 by blast
  obtain ev where "sign_result hl request (case outcome of Inr r \<Rightarrow> r | Inl e \<Rightarrow> error_content request e) = Inr ev"
    using signs [of request outcome "(p, s)" hl] request run sh(5,6) by (auto simp: hl_def)
  then have ev: "out = Inr (Some ev)"
    using first parsed sh(3) claimed run by (auto simp: handle_event_def Let_def)
  note again = answer_repeated [OF sh(2) parsed first [unfolded ev]]
  have "engine_calls hl (memory_put H) 8 (T_Received event (1900000000 + 1)) sh = 1"
    using first_delivery_calls_once [OF sh(2) parsed sh(3), of "memory_put H" 3] sh(4,5) by (simp add: eval_nat_numeral)
  moreover have "engine_calls hl (memory_put H) 8 (T_Received event (1900000000 + 1)) sh1 = 0"
    using answered_without_call [OF parsed again(1)] .
  ultimately show ?thesis
    using first again(2) ev sh(1) assms(3) base
    by (simp add: completed_duplicate_replays_the_same_signed_event_without_reproving_def Let_def hl_def ProofProcessor_new_def
        del: engine_calls.simps)
qed

text \<open>An artifact's path is its digest below the directory; \<open>join\<close> is \<open>Path::join\<close>.\<close>

definition artifact_paths_never_use_remote_path_material :: "(string \<Rightarrow> string \<Rightarrow> string) \<Rightarrow> bool" where
  "artifact_paths_never_use_remote_path_material join \<longleftrightarrow>
     (let digest = replicate 64 CHR ''a'' in
      join ''/tmp/soul-proof-test'' (artifact_path digest) = join ''/tmp/soul-proof-test'' (digest @ ''.json''))"

lemma artifact_path_test: "artifact_paths_never_use_remote_path_material join"
  by (simp add: artifact_paths_never_use_remote_path_material_def artifact_path_def)

section \<open>Properties\<close>

text \<open>C25: the end-to-end test of the repository passes wherever it can. Let the environment name an
  executable with its reviewed digest and program hash, the proof system be complete for them,
  the URL crate parse the test's base URL, the codecs and signers keep what they are given,
  and the processor's answer be small enough to sign. Then the whole test passes: the engine
  and the handler are built, the request is accepted, the delivery is answered by a success
  about the requested service that the customer accepts, the proof is in the store under the
  descriptor's digest, and the second delivery replays the event.\<close>

theorem real_pipeline_test_passes:
  assumes "env ''SOUL_TEST_CAIRO_EXECUTABLE'' = Some executable"
    and "env ''SOUL_TEST_CAIRO_PROGRAM_HASH'' = Some (as_str program_hash)" and "felt_ok program_hash"
    and "env ''SOUL_TEST_CAIRO_EXECUTABLE_SHA256'' = Some sha"
    and "VerifiableJobEngine_new h executable program_hash sha = Inr engine"
    and "complete_prover lib fe_val f_val poseidon executable (as_str program_hash) runs" and "clock_ok clock"
    and "ul_parse ul ''https://proofs.test/'' = Some base" and "serves_proofs ul base" and "ul_parse ul = url_parse wl"
    and "typed_codecs wl string_deserialize" and "signs_faithfully wl customer_sign"
    and "real_request wl customer_sign now = Some event" and "event_try_as_json wl event = Some serialized"
    and "unat now + 600 < 2 ^ 64"
    and "canonical_json wl (JobRequestContent_new (InFibonacci 10) (Some (now + 600))) = Some text"
    and "length text \<le> MAX_REQUEST_BYTES"
    and "request_from_str wl text = Some (JobRequestContent_new (InFibonacci 10) (Some (now + 600)))"
    and "\<And>bs. length (H bs) = 32"
    and "\<And>kind content tags e. provider_sign kind content tags = Some e \<Longrightarrow>
      event_verify wl e \<and> ev_kind e = kind \<and> ev_content e = content \<and> ev_tags e = tags \<and>
      unat now \<le> unat (ev_created_at e) \<and> unat (ev_created_at e) \<le> unat now + 300"
    and "\<And>request r. parse_request_event wl event (now + 1) = Inr request \<Longrightarrow> fst (process ul (\<lambda>input. Returned (engine_prove_job lib describe clock engine input)) (memory_put H)
        \<lparr>public_base_url = base, proving_slots = 1\<rparr> Map.empty request) = Inr r \<Longrightarrow>
      \<exists>text e. json_to_string wl (ser_JobResultContent r) = Some text \<and> length text \<le> MAX_RESULT_BYTES \<and>
        provider_sign (result_kind Fibonacci) text (result_tags request r) = Some e"
  shows "signed_request_to_real_proof_artifact_and_signed_result_is_idempotent env h lib describe clock wl ul
    provider_sign customer_sign H now"
proof -
  obtain request where request: "parse_request_event wl event (now + 1) = Inr request" "jr_service request = Fibonacci"
      "jr_created_at request = now" "jr_input request = InFibonacci 10"
    using customer_request_accepted [OF assms(11,12,16,17,18) _ _ _ assms(13) [unfolded real_request_def] assms(14)] assms(15)
    by auto
  define hl where "hl = \<lparr>hl_wire = wl, hl_urls = ul,
    hl_prove = (\<lambda>input. Returned (engine_prove_job lib describe clock engine input)), hl_sign = provider_sign\<rparr>"
  have parts [simp]: "hl_wire hl = wl" "hl_urls hl = ul" "hl_sign hl = provider_sign"
    "hl_prove hl = (\<lambda>input. Returned (engine_prove_job lib describe clock engine input))"
    by (simp_all add: hl_def)
  obtain sh where built: "real_handler env h lib describe clock wl ul provider_sign = Some (hl, sh)"
    and sh: "handler_ok sh" "completed_result sh (jr_id request) = None" "window (dedupe sh) = []"
      "processor sh = \<lparr>public_base_url = base, proving_slots = 1\<rparr>" "store sh = Map.empty"
    using real_handler_new [OF assms(1-5,8)] unfolding hl_def by blast
  have pinned: "engine_executable engine = executable \<and> expected_program_hash engine = program_hash"
    using assms(5) by (simp add: VerifiableJobEngine_new_eq_Inr)
  have signable: "\<exists>ev. sign_result hl request r = Inr ev"
    if "fst (process ul (\<lambda>input. Returned (engine_prove_job lib describe clock engine input)) (memory_put H)
      \<lparr>public_base_url = base, proving_slots = 1\<rparr> Map.empty request) = Inr r" for r
    using assms(21) [OF request(1) that] wire_codecs.result_tags_kept [OF typed_codecs.axioms(1) [OF assms(11)]]
    by (auto simp: sign_result_eq_Inr request(2))
  have "unat (now + 1) = unat now + 1"
    using assms(15) by (simp add: unat_word_ariths)
  then have signs: "event_verify wl e \<and> ev_kind e = kind \<and> ev_content e = content \<and> ev_tags e = tags \<and>
      unat (jr_created_at request) \<le> unat (ev_created_at e) \<and> unat (ev_created_at e) \<le> unat (now + 1) + 300"
    if "provider_sign kind content tags = Some e" for kind content tags e
    using assms(20) [OF that] request(3) by simp
  have "\<exists>ev sh' bs d m. handle_event hl (memory_put H) event (now + 1) sh = Some (Inr (Some ev), sh') \<and>
    handle_event hl (memory_put H) event (now + 1) sh' = Some (Inr (Some ev), sh') \<and>
    parse_result_event (hl_wire hl) ev request (now + 1) =
      Inr (Success SOUL_WIRE_PROTOCOL (jr_id request) (expected_statement poseidon (jr_input request)) d m) \<and>
    store sh' (pd_sha256 d) = Some bs \<and> is_sha256 (pd_sha256 d)"
    by (rule pipeline_answered [where engine = engine and base = base, OF _ parts(4) assms(7) _ _ _ sh])
      (use assms(6,9,10,11,19) signs request pinned signable sh(4,5) in \<open>simp_all\<close>)
  then show ?thesis
    using request
    by (auto simp: signed_request_to_real_proof_artifact_and_signed_result_is_idempotent_def built assms(13)
        memory_get_def expected_statement_def JobRequestContent_new_def JobInput_service_def)
qed

theorem real_pipeline_test_passes_witness:
  "\<exists>answer. signed_request_to_real_proof_artifact_and_signed_result_is_idempotent
     [''SOUL_TEST_CAIRO_EXECUTABLE'' \<mapsto> ''soul'', ''SOUL_TEST_CAIRO_PROGRAM_HASH'' \<mapsto> as_str (FeltHex_from_u64 9),
      ''SOUL_TEST_CAIRO_EXECUTABLE_SHA256'' \<mapsto> replicate 64 CHR ''a'']
     (host_ops example_startup) (rerun_prover sum_list) (\<lambda>_. ''proving failed'') (3, 5, 7)
     (hl_wire (served_handler 1400 answer)) example_urls (hl_sign (served_handler 1400 answer))
     (\<lambda>kind content tags at. Some ((exchange_event 1400 None)
        \<lparr>ev_kind := kind, ev_content := content, ev_tags := tags, ev_created_at := at\<rparr>)) zero_hash 1400"
proof -
  let ?env = "[''SOUL_TEST_CAIRO_EXECUTABLE'' \<mapsto> ''soul'', ''SOUL_TEST_CAIRO_PROGRAM_HASH'' \<mapsto> as_str (FeltHex_from_u64 9),
      ''SOUL_TEST_CAIRO_EXECUTABLE_SHA256'' \<mapsto> replicate 64 CHR ''a'']"
  let ?sign = "\<lambda>kind content tags at. Some ((exchange_event 1400 None)
        \<lparr>ev_kind := kind, ev_content := content, ev_tags := tags, ev_created_at := at\<rparr>)"
  obtain d m store' where run: "process example_urls (\<lambda>input. Returned (engine_prove_job (rerun_prover sum_list)
      (\<lambda>_. ''proving failed'') (3, 5, 7) served_engine input)) (memory_put zero_hash) example_processor Map.empty
      (exchange_request 1400 None) =
     (Inr (Success SOUL_WIRE_PROTOCOL (replicate 64 CHR ''a'') (expected_statement sum_list (InFibonacci 10)) d m),
      example_processor, store')"
    using served_processed by blast
  define answer where "answer = Success SOUL_WIRE_PROTOCOL (replicate 64 CHR ''a'') (expected_statement sum_list (InFibonacci 10)) d m"
  let ?wl = "hl_wire (served_handler 1400 answer)"
  have env: "?env ''SOUL_TEST_CAIRO_EXECUTABLE'' = Some ''soul''"
    "?env ''SOUL_TEST_CAIRO_PROGRAM_HASH'' = Some (as_str (FeltHex_from_u64 9))"
    "?env ''SOUL_TEST_CAIRO_EXECUTABLE_SHA256'' = Some (replicate 64 CHR ''a'')"
    by simp_all
  have engine: "VerifiableJobEngine_new (host_ops example_startup) ''soul'' (FeltHex_from_u64 9) (replicate 64 CHR ''a'') = Inr served_engine"
    using example_digest
    by (simp add: served_engine_def VerifiableJobEngine_new_eq_Inr example_startup_def list_all_replicate lower_hex_byte_def)
  have content: "JobRequestContent_new (InFibonacci 10) (Some (1400 + 600)) = example_content"
    by (simp add: example_content_def)
  have json: "canonical_json ?wl example_content = Some example_text"
    by (simp add: canonical_json_def served_handler_def)
  have tags: "request_tags ?wl example_content None = Inr (ev_tags (exchange_event 1400 None))"
    using exchange_tags [of None 1400] by (simp add: request_tags_eq [OF json] request_tags_eq [OF exchange_json])
  have kept: "into_nostr_tags ?wl (ev_tags (exchange_event 1400 None)) = Inr (ev_tags (exchange_event 1400 None))"
    using served.tag_values by (simp add: into_nostr_tags_def exchange_event_def)
  have same: "(exchange_event 1400 None)\<lparr>ev_kind := request_kind Fibonacci, ev_content := example_text,
      ev_tags := ev_tags (exchange_event 1400 None), ev_created_at := 1400\<rparr> = exchange_event 1400 None"
    by (simp add: exchange_event_def example_event_def service_defs constants)
  have event: "real_request ?wl ?sign 1400 = Some (exchange_event 1400 None)"
    unfolding real_request_def customer_request_def content Let_def json tags option.case and_then_simps kept sum.case
    by (simp only: exchange_content same)
  have parsed: "parse_request_event ?wl (exchange_event 1400 None) (1400 + 1) = Inr (exchange_request 1400 None)"
    by (rule served_request) (simp_all add: content_valid_def exchange_content JobInput_service_def)
  have parts: "felt_ok (FeltHex_from_u64 9)" "clock_ok (3, 5, 7)" "ul_parse example_urls ''https://proofs.test/'' = Some example_url"
    "ul_parse example_urls = url_parse ?wl" "signs_faithfully ?wl ?sign" "event_try_as_json ?wl (exchange_event 1400 None) = Some ''{}''"
    "unat (1400 :: u64) + 600 < 2 ^ 64" "length example_text \<le> MAX_REQUEST_BYTES" "request_from_str ?wl example_text = Some example_content"
    "length (zero_hash bs) = 32" "\<lparr>public_base_url = example_url, proving_slots = 1\<rparr> = example_processor" for bs
    by (simp_all add: clock_ok_def example_urls_def served_handler_def exchange_handler_def example_lib_def signs_faithfully_def
        exchange_id_hex example_text_def MAX_REQUEST_BYTES_def zero_hash_def example_processor_def)
  have signer: "event_verify ?wl e \<and> ev_kind e = kind \<and> ev_content e = content \<and> ev_tags e = tags \<and>
      unat (1400 :: u64) \<le> unat (ev_created_at e) \<and> unat (ev_created_at e) \<le> unat (1400 :: u64) + 300"
    if "hl_sign (served_handler 1400 answer) kind content tags = Some e" for kind content tags e
    using served_signs [OF that] by simp
  have answers: "\<exists>text e. json_to_string ?wl (ser_JobResultContent r) = Some text \<and> length text \<le> MAX_RESULT_BYTES \<and>
      hl_sign (served_handler 1400 answer) (result_kind Fibonacci) text (result_tags request r) = Some e"
    if "parse_request_event ?wl (exchange_event 1400 None) (1400 + 1) = Inr request"
      and "fst (process example_urls (\<lambda>input. Returned (engine_prove_job (rerun_prover sum_list) (\<lambda>_. ''proving failed'') (3, 5, 7)
        served_engine input)) (memory_put zero_hash) \<lparr>public_base_url = example_url, proving_slots = 1\<rparr> Map.empty request) = Inr r"
    for request r
  proof -
    have "request = exchange_request 1400 None"
      using that(1) parsed by simp
    then have "r = answer"
      using that(2) unfolding parts(11) run answer_def by (simp only: run fst_conv sum.inject)
    then show ?thesis
      by (simp add: served_handler_def exchange_handler_def ser_result_not_request MAX_RESULT_BYTES_def)
  qed
  have "signed_request_to_real_proof_artifact_and_signed_result_is_idempotent ?env
     (host_ops example_startup) (rerun_prover sum_list) (\<lambda>_. ''proving failed'') (3, 5, 7)
     ?wl example_urls (hl_sign (served_handler 1400 answer)) ?sign zero_hash 1400"
    by (rule real_pipeline_test_passes [OF env(1,2) parts(1) env(3) engine rerun_complete parts(2,3) example_urls_serve parts(4)
          served_codecs parts(5) event parts(6,7) json [folded content] parts(8) parts(9) [folded content] parts(10)])
      (fact signer answers)+
  then show ?thesis by blast
qed

end
