(* ===== verification/Spec2Isabelle.thy ===== *)
theory Spec2Isabelle
  imports Fixtures PipelineTests
begin

text \<open>
  SoulSociety sells verifiable computation over Nostr. A client signs a request event for a
  Fibonacci number, a hash check or a Merkle check; a provider authenticates it, runs the
  canonical Cairo program, proves the run with STWO, verifies its own proof, stores the
  proof under its SHA-256 digest, serves it over HTTP and signs a result event that names
  it; the client checks the result event, fetches the proof and verifies it, natively or in
  the browser. This development models the Rust code of that path and the Cairo program,
  and proves what each part promises and what the parts promise together.

  \<^bold>\<open>Parts and theories.\<close> Paths are relative to \<open>src/\<close>.

  \<^item> \<open>Prelude\<close>, \<open>Utf8\<close>, \<open>Decimal\<close>, \<open>Url\<close>: the standard library the sources call (words with
    saturating arithmetic, results, UTF-8, decimal text, loopback hosts) and shared lemmas.
  \<^item> \<open>Constants\<close>, \<open>Felt\<close>, \<open>Types\<close>, \<open>Json\<close>: \<open>crates/soul-core/src/constants.rs\<close> and
    \<open>types.rs\<close>: limits and kinds, the canonical field element, requests, statements,
    descriptors and results with every validator, and the derived serialisers as trees. Each
    validator has a plain predicate that characterises acceptance, in \<open>validators\<close>.
  \<^item> \<open>Wire\<close>: \<open>crates/soul-core/src/nostr_events.rs\<close>: canonical tags and the two event parsers.
  \<^item> \<open>Cairo\<close>, \<open>Statement\<close>, \<open>Pipeline\<close>: \<open>crates/soul-cairo\<close>, the encoder and decoder of
    \<open>crates/soul-prover/src/statement.rs\<close>, and a job's way through all three.
  \<^item> \<open>Verifier\<close>, \<open>Wasm\<close>: \<open>crates/soul-prover/src/verifier.rs\<close> and \<open>crates/soul-wasm/src/lib.rs\<close>:
    the acceptance condition of a proof, and that both verifiers have the same one although
    one counts in 64 and the other in 32 bits.
  \<^item> \<open>Executor\<close>, \<open>Prover\<close>: \<open>crates/soul-prover/src/executor.rs\<close> and \<open>prover.rs\<close>: the run of the
    program, the salt retries and the self-verified artifact.
  \<^item> \<open>Artifacts\<close>, \<open>Dedupe\<close>, \<open>Processor\<close>, \<open>Handler\<close>: \<open>artifacts.rs\<close>, \<open>dedupe.rs\<close>,
    \<open>processor.rs\<close> and \<open>nostr/handler.rs\<close> of \<open>apps/provider/src\<close>: the proof store as an inode
    file system with faults at every call, the bounded set of claimed ids, one job with its
    proving slot, and the handler of an event.
  \<^item> \<open>Board\<close>, \<open>Exchange\<close>: an abstract specification that the interleaved handler refines, its
    progress, and what the client accepts of what the provider signs.
  \<^item> \<open>Config\<close>, \<open>Startup\<close>: \<open>config.rs\<close>, \<open>main.rs\<close> and the transport's set-up: the environment
    with its checks, and the provider assembled from it.
  \<^item> \<open>Router\<close>: the HTTP application of \<open>artifacts.rs\<close>, and a proof's way from the processor
    through the store to a client that follows the descriptor.
  \<^item> \<open>Relays\<close>, \<open>Transport\<close>: what the relay pool reports; the subscription, the notification
    loop with its bounded intake and the publication of answers in \<open>nostr/handler.rs\<close>, which
    refine the interleaved handler under every schedule; and how \<open>run\<close> in \<open>main.rs\<close> ends.
  \<^item> \<open>Client\<close>: \<open>apps/provider/examples/local_client.rs\<close>, and the whole exchange from its
    request to the result it prints.
  \<^item> \<open>FixtureTool\<close>, \<open>Fixtures\<close>: \<open>crates/soul-prover/src/bin/soul-proof-fixture.rs\<close> and
    \<open>crates/soul-core/examples/generate_fixtures.rs\<close>: what the generators leave on disk.
  \<^item> \<open>Stark\<close>: what the program relies on the proof system for, soundness and completeness,
    and an instance that satisfies both.
  \<^item> \<open>Service\<close>: the composition of all of it. A request that is accepted and has a slot is
    answered, and the answer is downloaded and verified in the browser; and whatever a running
    provider publishes stays downloadable, verifiable and true under every schedule.
  \<^item> \<open>UnitTests\<close>, \<open>PipelineTests\<close>: the repository's tests as predicates that the model
    satisfies, each of them; the second holds those that run the prover, read a generated
    proof or deliver signed events, with \<open>apps/provider/tests/signed_real_pipeline.rs\<close>.
  \<^item> this theory: end-to-end soundness, from an accepted or published proof to the truth of
    its statement.

  \<^bold>\<open>How state and operations correspond.\<close> A struct is a record and an enum a datatype with the
  source's constructors; \<open>Result\<close> is a sum with the error on the left and \<open>?\<close> is \<open>and_then\<close>,
  so each early return is a branch. Integers keep their width as words where they can wrap.
  A function that changes state returns it. Where tasks interleave, each function is also cut
  at its await points into phases (\<open>put_step\<close>, \<open>task_step\<close>) that a step relation
  (\<open>store_step\<close>, \<open>handler_step\<close>) schedules in any order; the uninterrupted functions
  (\<open>file_put\<close>, \<open>process\<close>, \<open>handle_event\<close>) are defined beside them. A panic that the source
  contains is \<open>Panicked\<close> of \<open>unwind\<close>; one of a constructor is an error value.

  \<^bold>\<open>Loops.\<close> There is no fuel. The eviction loops pop only while their queue is not empty, so
  they may run forever on an inconsistent state: they are partial functions, and
  \<open>eviction\<close> proves that they return under the invariant, for both its providers. The salt
  loop runs over the eight salts of the source; \<open>put_run\<close> has a phase measure; a delivery is
  bounded by eight phases before its dispatch.

  \<^bold>\<open>Bounded memory.\<close> The provider remembers a fixed number of ids and answers, so what it
  promises about an id holds for as long as the id is remembered, and every such property
  states the bound: the refinements of the board hold up to the capacity of claimed ids, a
  claim is unique among fewer later claims than the capacity, and an answer is repeated
  through any deliveries fewer than what window and cache hold (\<open>queued\<close> and \<open>kept\<close>, which
  count down the deliveries an id survives). What does not depend on ids (slots, the store,
  published proofs) holds without a bound.

  \<^bold>\<open>Interfaces.\<close> \<open>field_codec\<close>, \<open>felt252_codec\<close> and \<open>stwo_codec\<close> state how field elements
  print; \<open>sound_stark\<close> adds the soundness of the proof system and \<open>complete_prover\<close> its
  completeness, that an honest run is proved and the proof accepted; these speak about
  third-party code, so they are interpreted on computing instances (\<open>rerun_stwo\<close> and
  \<open>rerun_prover\<close> prove by keeping the arguments and verify by running the program again)
  that show the laws can hold. \<open>artifact_store\<close> is what the processor
  and the HTTP handlers rely on, interpreted on both stores of the source; \<open>eviction\<close> on the
  deduplicator and on the result cache. \<open>wire_codecs\<close> collects what the exchange of events
  needs from signing and JSON text, interpreted on the libraries of a provider and of the
  fixture generator; \<open>typed_codecs\<close> extends it by the deserialisers' part, that a request
  read from text has canonical field elements, and \<open>proof_service\<close> joins it with
  \<open>complete_prover\<close> to what a client can count on, interpreted on a whole served engine; \<open>axum\<close> states which handler answers a request, interpreted on a router
  that serves the application table.

  \<^bold>\<open>What is assumed of code outside the repository.\<close> STWO, the Cairo compiler and VM, Poseidon,
  SHA-256, the \<open>nostr\<close>, \<open>serde_json\<close> and \<open>url\<close> crates, the file system and the environment
  are arguments. \<open>sound_stark\<close> is the ideal form of soundness: an accepted proof whose
  program hash is the trusted one has the output of some run of the program. \<open>complete_prover\<close> is
  the matching form of completeness; only the results about requests that must be answered
  use it. A Merkle check
  is sound up to an explicit Poseidon collision, and the store needs no collision resistance.
  Membership in a Merkle tree is stated for paths of the tree's depth, which the program does
  not fix. \<open>joins_below\<close> states what \<open>Url::join\<close> does with a proof's path below a public base
  URL, for clients that follow the URL of a descriptor.
  The browser's \<open>catch_unwind\<close> is modelled as containing panics, which holds where the
  target unwinds. A lookup of the proof store is one step, and the sequence of temporary
  names is a 64-bit counter, so the safety of concurrent puts is stated up to its wrap.

  \<^bold>\<open>Not modelled.\<close> Logging and the texts of diagnostics that only reach logs, of which
  \<open>init_tracing\<close> is modelled as far as it can stop the process; what happens inside \<open>axum\<close>, \<open>tokio\<close> and \<open>nostr_sdk\<close> (serving, timers, the
  connection of relays beyond which of them connected, and the shutdown calls, of which only
  whether \<open>run\<close> reaches them is modelled); the \<open>wasm_bindgen\<close> wrapper, which only passes its
  arguments on; and the TypeScript SDK and web application.
\<close>

section \<open>Properties\<close>

text \<open>C5: an honest job goes through: when its bounds hold and its field elements are
  canonical, the prover's encoding is accepted by the Cairo executable, which does not
  panic, and any output segment carrying the executable's words decodes to the statement
  the job must have: its public inputs, and the Fibonacci number, the hash check or the
  Merkle check as the result. Neither \<open>usize\<close> nor the field bound gets in the way.\<close>

theorem honest_job_statement:
  assumes "felt252_codec flib f_val" and "field_codec lib fe_val"
    and "input_bounds input" and "job_felts_ok input"
  shows "\<exists>args out. encode_job flib input = Inr args \<and>
    cairo_executable poseidon (map f_val args) = Inr out \<and>
    (\<forall>segment. map fe_val segment = out \<longrightarrow>
      decode_statement lib segment = Inr (expected_statement poseidon input))"
proof -
  from felt252_codec.encode_job_ok [OF assms(1,3,4)] obtain args
    where args: "encode_job flib input = Inr args" "map f_val args = job_words input"
    by blast
  have "decode_statement lib segment = Inr (expected_statement poseidon input)"
    if "map fe_val segment = statement_words (expected_statement poseidon input)" for segment
    using field_codec.decode_statement_iff [OF assms(2)] that expected_statement_ok [OF assms(3,4)]
    by blast
  with args expected_statement_words [OF assms(3), of poseidon] show ?thesis
    by auto
qed

theorem honest_job_statement_witness:
  "cairo_executable sum_list [1, 1, 10, 0] = Inr [1, 1, 10, 1, 55] \<and>
   decode_statement (nat_field_lib 64) [1, 1, 10, 1, 55] = Inr (expected_statement sum_list (InFibonacci 10))"
proof -
  let ?job = "InFibonacci 10"
  have fib: "fib 10 = 55" by code_simp
  have job: "input_bounds ?job" "job_felts_ok ?job" by (simp_all add: job_felts_ok_def)
  have words: "statement_words (expected_statement sum_list ?job) = [1, 1, 10, 1, 55]"
    using fib by (simp add: statement_words_def expected_statement_def serde_felts_def JobInput_service_def)
  have run: "cairo_executable sum_list [1, 1, 10, 0] = Inr [1, 1, 10, 1, 55]"
    using expected_statement_words [OF job(1), of sum_list] words
    by (simp add: job_words_def serde_felts_def JobInput_service_def)
  have "encode_job nat_felt252_lib ?job = Inr [1, 1, 10, 0]"
    by (simp add: encode_job_def nat_felt252_lib_def service_ids JobInput_validate_eq)
  with honest_job_statement [OF nat_felt252.felt252_codec_axioms nat_field_codec [of 64] job, of sum_list] run
  show ?thesis by (auto simp: cairo_prime_def)
qed

text \<open>C2: an accepted proof is a true statement: if STWO is sound for the trusted program
  hash, a proof that \<open>verify_serialized\<close> accepts for that hash states a fact about the
  canonical functions: the Fibonacci number of its public index (at most 363), the outcome
  of the hash check for some preimage, or the outcome of the Merkle check for some path of
  depth at most 32 whose index fits it.\<close>

theorem verified_statement_true:
  assumes "sound_stark lib fe_val poseidon trusted_hash"
    and "verify_serialized lib proof_json trusted_hash s = Inr ()"
  shows "statement_true poseidon s"
  using sound_stark.verified_run [OF assms] .

theorem verified_statement_true_witness:
  "verify_serialized (rerun_prover sum_list) (bytes_of_words [9, 1, 1, 10, 0]) (as_str (FeltHex_from_u64 9))
     example_statement = Inr () \<and>
   statement_true sum_list example_statement"
proof -
  have fib: "fib 10 = 55" by code_simp
  have job: "input_bounds (InFibonacci 10)" by simp
  have "cairo_executable sum_list [1, 1, 10, 0] = Inr [1, 1, 10, 1, 55]"
    using expected_statement_words [OF job, of sum_list] fib
    by (simp add: job_words_def statement_words_def expected_statement_def serde_felts_def JobInput_service_def)
  moreover have "words_of_bytes (bytes_of_words [9, 1, 1, 10, 0]) = [9, 1, 1, 10, 0]"
    by (rule words_of_bytes_of_words) (simp add: cairo_prime_def)
  moreover have "length (bytes_of_words [9, 1, 1, 10, 0]) = 160"
    by (simp add: length_bytes_of_words)
  ultimately have "stark_accepts (rerun_prover sum_list) (bytes_of_words [9, 1, 1, 10, 0])
      \<lparr>vo_program_hash = 9, vo_output = [1, 1, 10, 1, 55]\<rparr>"
    unfolding rerun_accepts_iff by (auto simp: cairo_prime_def simp del: bytes_of_words_simps)
  then have "verify_serialized (rerun_prover sum_list) (bytes_of_words [9, 1, 1, 10, 0]) (as_str (FeltHex_from_u64 9))
     example_statement = Inr ()"
    using example_statement_ok
    unfolding rerun.verify_serialized_iff
    by (intro exI [of _ "\<lparr>vo_program_hash = 9, vo_output = [1, 1, 10, 1, 55]\<rparr>"])
      (simp add: cairo_prime_def FeltHex_from_u64_eq)
  with verified_statement_true [OF rerun_sound this] show ?thesis by simp
qed

text \<open>C3: a published success is a true answer: if STWO is sound for the program hash the engine
  pins, a result that the processor returns is a success for the request's id whose statement
  is true, is about the requested service, and has the requested public inputs; it never
  returns a failed job as a result.\<close>

theorem published_success_true:
  assumes "sound_stark lib fe_val poseidon (as_str (expected_program_hash engine))"
    and "process ul (\<lambda>input. Returned (engine_prove_job lib describe clock engine input)) put p files request =
      (Inr r, p', files')"
  shows "\<exists>s d m. r = Success SOUL_WIRE_PROTOCOL (jr_id request) s d m \<and> statement_true poseidon s \<and>
    st_service s = JobInput_service (jr_input request) \<and> st_public_input s = public_words (jr_input request) \<and>
    pd_program_hash d = expected_program_hash engine"
proof -
  obtain a stored where
    verified: "verify_serialized lib (va_proof_bytes a) (as_str (expected_program_hash engine)) (va_statement a) = Inr ()"
    and hash: "va_program_hash a = expected_program_hash engine"
    and about: "statement_matches_request (va_statement a) (jr_input request)"
    and described: "describe_result ul (public_base_url p) request a stored = Inr r"
    using process_engine_eq_Inr [OF assms(2)] .
  have "statement_true poseidon (va_statement a)"
    using sound_stark.verified_run [OF assms(1) verified] .
  then show ?thesis
    using described about hash by (auto simp: describe_result_eq_Inr statement_matches_iff)
qed

theorem published_success_true_witness:
  "\<exists>r store' s d m. process example_urls (\<lambda>input. Returned (engine_prove_job (rerun_prover sum_list) (\<lambda>_. ''proving failed'')
       (3, 5, 7) served_engine input)) (memory_put zero_hash) example_processor Map.empty (exchange_request 1000 None) =
       (Inr r, example_processor, store') \<and>
     r = Success SOUL_WIRE_PROTOCOL (replicate 64 CHR ''a'') s d m \<and> statement_true sum_list s"
proof -
  obtain r store' where run: "process example_urls (\<lambda>input. Returned (engine_prove_job (rerun_prover sum_list)
      (\<lambda>_. ''proving failed'') (3, 5, 7) served_engine input)) (memory_put zero_hash) example_processor Map.empty
      (exchange_request 1000 None) = (Inr r, example_processor, store')"
    using served_processed by blast
  from published_success_true [OF rerun_sound run] run show ?thesis by auto
qed

end
